(* ===== verification/Prelude.thy ===== *)
theory Prelude
  imports Complex_Main "HOL-Library.Word" "HOL-Library.AList" "HOL-Library.Multiset"
begin

text \<open>
  What every part of the model shares: the machine integers of Go, the errors the code
  returns, Go's clock values and the two proof collections \<open>go_eval\<close> (equations that
  evaluate a definition on concrete input) and \<open>go_inv\<close> (facts that say an operation
  keeps an invariant).
\<close>

named_theorems go_eval "equations that evaluate the model's definitions"
named_theorems go_inv "operations keep the invariants of the state they change"

unbundle bit_operations_syntax

section \<open>Machine integers\<close>

type_synonym u8 = "8 word"
type_synonym u32 = "32 word"
type_synonym u64 = "64 word"

text \<open>
  A \<open>float64\<close> is kept as its IEEE 754 bit pattern: the code copies such values, compares
  them with zero and marshals them, all of which the pattern decides.
\<close>

type_synonym f64 = "64 word"

definition f64_is_zero :: "f64 \<Rightarrow> bool" where
  "f64_is_zero x \<longleftrightarrow> x = 0 \<or> x = 0x8000000000000000"

definition f64_one :: f64 where
  "f64_one = 0x3FF0000000000000"

text \<open>Infinities and NaNs are the patterns whose 11 exponent bits are all ones.\<close>

definition f64_finite :: "f64 \<Rightarrow> bool" where
  "f64_finite x \<longleftrightarrow> (unat x div 2 ^ 52) mod 2048 \<noteq> 2047"

lemma f64_one_props [simp]: "f64_finite f64_one" "\<not> f64_is_zero f64_one"
  by (simp_all add: f64_finite_def f64_one_def f64_is_zero_def)

lemma f64_finite_zero [simp]: "f64_finite 0"
  by (simp add: f64_finite_def)

text \<open>Two's complement wrap-around of a 64-bit signed result (Go's \<open>int64\<close>).\<close>

definition wrap64 :: "int \<Rightarrow> int" where
  "wrap64 i = sint (word_of_int i :: u64)"

definition int64_ok :: "int \<Rightarrow> bool" where
  "int64_ok i \<longleftrightarrow> - (2 ^ 63) \<le> i \<and> i < 2 ^ 63"

lemma wrap64_id: "int64_ok i \<Longrightarrow> wrap64 i = i"
  by (simp add: wrap64_def int64_ok_def sint_sbintrunc' signed_take_bit_int_eq_self)

lemma wrap64_range: "int64_ok (wrap64 i)"
  using sint_greater_eq [of "word_of_int i :: u64"] sint_less [of "word_of_int i :: u64"]
  by (simp add: wrap64_def int64_ok_def)

section \<open>Errors\<close>

text \<open>
  Go returns errors as values. The sentinel errors of the code are constructors of their
  own; \<open>Errorf\<close> carries the text of an error built in place, \<open>ErrJson\<close> stands for any
  error of the JSON decoder or encoder, and \<open>ErrExt n\<close> for an error of a library or a
  system call, which the model does not look into. \<open>ErrWrap a e b\<close> is an error built with the
  verb \<open>%w\<close> around \<open>e\<close>, between the texts \<open>a\<close> and \<open>b\<close>.
\<close>

datatype go_error =
    Errorf string
  | ErrJson
  | ErrExt nat
  | ErrNotLeader
  | ErrUnknownCommand string
  | ErrNoHost
  | ErrTemplateMissing
  | ErrServerMissing
  | ErrEOF
  | ErrUnexpectedEOF
  | ErrWrap string go_error string

text \<open>A call that returns \<open>(T, error)\<close>: \<open>Inl\<close> the error, \<open>Inr\<close> the value.\<close>

type_synonym 'a result = "go_error + 'a"

text \<open>A call that returns \<open>error\<close>: \<open>None\<close> is \<open>nil\<close>.\<close>

type_synonym err = "go_error option"

definition rbind :: "'a result \<Rightarrow> ('a \<Rightarrow> 'b result) \<Rightarrow> 'b result" where
  "rbind r f = (case r of Inl e \<Rightarrow> Inl e | Inr x \<Rightarrow> f x)"

lemma rbind_simps [simp]: "rbind (Inl e) f = Inl e" "rbind (Inr x) f = f x"
  by (simp_all add: rbind_def)

lemma rbind_eq_Inr: "rbind r f = Inr y \<longleftrightarrow> (\<exists>x. r = Inr x \<and> f x = Inr y)"
  by (cases r) simp_all

section \<open>Clock values\<close>

text \<open>
  An instant (\<open>time.Time\<close>) is the number of nanoseconds since Go's zero time, so the zero
  value of the type is 0; a \<open>time.Duration\<close> is a signed 64-bit number of nanoseconds.
  \<open>Sub\<close> saturates at the ends of that range.
\<close>

type_synonym time = int
type_synonym duration = int

definition max_duration :: duration where "max_duration = 2 ^ 63 - 1"
definition min_duration :: duration where "min_duration = - (2 ^ 63)"

definition time_is_zero :: "time \<Rightarrow> bool" where
  "time_is_zero t \<longleftrightarrow> t = 0"

definition time_sub :: "time \<Rightarrow> time \<Rightarrow> duration" where
  "time_sub t u = max min_duration (min max_duration (t - u))"

definition time_after :: "time \<Rightarrow> time \<Rightarrow> bool" where
  "time_after t u \<longleftrightarrow> u < t"

definition time_add :: "time \<Rightarrow> duration \<Rightarrow> time" where
  "time_add t d = t + d"

definition millisecond :: duration where "millisecond = 1000000"
definition second :: duration where "second = 1000000000"

lemmas time_defs = time_is_zero_def time_sub_def time_after_def time_add_def
  max_duration_def min_duration_def millisecond_def second_def

text \<open>An age that fits in a duration is measured exactly, and a saturated one stays past it.\<close>

lemma time_sub_greater: "d < max_duration \<Longrightarrow> min_duration \<le> d \<Longrightarrow> time_sub t u > d \<longleftrightarrow> t - u > d"
  by (auto simp: time_sub_def max_duration_def min_duration_def)

section \<open>Lists\<close>

text \<open>
  \<open>for i := 0; i < n; i++\<close> over a signed bound runs \<open>nat n\<close> times; \<open>sort.Slice\<close> is a
  sort by a strict order. Ties are left in the order of the input: every caller sorts what
  it read from a Go map, whose order is arbitrary in the model, so every tie-break the
  library may choose is covered.
\<close>

fun sort_slice :: "('a \<Rightarrow> 'a \<Rightarrow> bool) \<Rightarrow> 'a list \<Rightarrow> 'a list" where
  "sort_slice lt [] = []"
| "sort_slice lt (x # xs) =
     (let ys = sort_slice lt xs
      in takeWhile (\<lambda>y. lt y x) ys @ x # dropWhile (\<lambda>y. lt y x) ys)"

lemma mset_sort_slice [simp]: "mset (sort_slice lt xs) = mset xs"
proof (induction xs)
  case Nil
  then show ?case by simp
next
  case (Cons x xs)
  have "mset (takeWhile P ys) + mset (dropWhile P ys) = mset ys" for P :: "'a \<Rightarrow> bool" and ys
    by (metis mset_append takeWhile_dropWhile_id)
  with Cons.IH show ?case by (simp add: Let_def)
qed

lemma set_sort_slice [simp]: "set (sort_slice lt xs) = set xs"
  by (metis mset_sort_slice set_mset_mset)

lemma length_sort_slice [simp]: "length (sort_slice lt xs) = length xs"
  by (metis mset_sort_slice size_mset)

text \<open>
  For a strict weak order the result is sorted: no element is strictly before one that
  precedes it.
\<close>

definition strict_weak :: "('a \<Rightarrow> 'a \<Rightarrow> bool) \<Rightarrow> bool" where
  "strict_weak lt \<longleftrightarrow> (\<forall>x y. lt x y \<longrightarrow> \<not> lt y x)
     \<and> (\<forall>x y z. \<not> lt y x \<longrightarrow> \<not> lt z y \<longrightarrow> \<not> lt z x)"

lemma strict_weak_key [simp]:
  fixes key :: "'a \<Rightarrow> 'k::linorder"
  shows "strict_weak (\<lambda>x y. key x < key y)" and "strict_weak (\<lambda>x y. key y < key x)"
  by (auto simp: strict_weak_def)

lemma strict_weak_irrefl: "strict_weak lt \<Longrightarrow> \<not> lt x x"
  unfolding strict_weak_def by blast

lemma strict_weak_asym: "strict_weak lt \<Longrightarrow> lt x y \<Longrightarrow> \<not> lt y x"
  unfolding strict_weak_def by blast

lemma strict_weak_trans: "strict_weak lt \<Longrightarrow> \<not> lt y x \<Longrightarrow> \<not> lt z y \<Longrightarrow> \<not> lt z x"
  unfolding strict_weak_def by blast

lemma sorted_wrt_sort_slice:
  assumes sw: "strict_weak lt"
  shows "sorted_wrt (\<lambda>x y. \<not> lt y x) (sort_slice lt xs)"
proof (induction xs)
  case Nil
  then show ?case by simp
next
  case (Cons x xs)
  let ?ys = "sort_slice lt xs"
  let ?lo = "takeWhile (\<lambda>y. lt y x) ?ys" and ?hi = "dropWhile (\<lambda>y. lt y x) ?ys"
  from Cons have srt: "sorted_wrt (\<lambda>x y. \<not> lt y x) (?lo @ ?hi)"
    by simp
  have low: "\<not> lt x y" if "y \<in> set ?lo" for y
    using that strict_weak_asym [OF sw] by (auto dest: set_takeWhileD)
  have high: "\<not> lt y x" if y: "y \<in> set ?hi" for y
  proof -
    from y obtain z zs where hi: "?hi = z # zs" by (metis list.set_cases)
    then have z: "\<not> lt z x" by (metis hd_dropWhile list.discI list.sel(1))
    from srt have "sorted_wrt (\<lambda>x y. \<not> lt y x) ?hi" unfolding sorted_wrt_append by blast
    with hi have "\<forall>w\<in>set zs. \<not> lt w z" by simp
    with y hi strict_weak_irrefl [OF sw] have "\<not> lt y z" by auto
    then show ?thesis by (rule strict_weak_trans [OF sw z])
  qed
  have cross: "\<not> lt y w" if "w \<in> set ?lo" "y \<in> set ?hi" for w y
    using srt that unfolding sorted_wrt_append by blast
  have parts: "sorted_wrt (\<lambda>x y. \<not> lt y x) ?lo" "sorted_wrt (\<lambda>x y. \<not> lt y x) ?hi"
    using srt unfolding sorted_wrt_append by blast+
  from parts low high cross show ?case
    unfolding sort_slice.simps Let_def sorted_wrt_append sorted_wrt.simps list.set(2) by blast
qed

lemma sort_slice_hd_le:
  assumes sw: "strict_weak lt" and ys: "sort_slice lt xs = y # ys" and x: "x \<in> set xs"
  shows "\<not> lt x y"
proof -
  have "sorted_wrt (\<lambda>x y. \<not> lt y x) (y # ys)"
    using sorted_wrt_sort_slice [OF sw, of xs] ys by simp
  moreover have "x \<in> set (y # ys)" using ys x set_sort_slice by metis
  ultimately show ?thesis using strict_weak_irrefl [OF sw] by auto
qed

end
