(* ===== verification/GoStrings.thy ===== *)
theory GoStrings
  imports Prelude
begin

text \<open>
  The functions of Go's \<open>strings\<close> and \<open>strconv\<close> packages the code calls. A Go string is
  a byte string, here a \<open>char list\<close>. \<open>ToLower\<close> and \<open>TrimSpace\<close> are those of ASCII text:
  bytes above 127 are left alone.
\<close>

section \<open>Prefixes\<close>

fun has_prefix :: "string \<Rightarrow> string \<Rightarrow> bool" where
  "has_prefix s [] = True"
| "has_prefix [] (p # ps) = False"
| "has_prefix (c # s) (p # ps) = (c = p \<and> has_prefix s ps)"

lemma has_prefix_iff: "has_prefix s p \<longleftrightarrow> (\<exists>t. s = p @ t)"
  by (induction s p rule: has_prefix.induct) auto

lemma has_prefix_append [simp]: "has_prefix (p @ t) p"
  by (auto simp: has_prefix_iff)

lemma has_prefix_refl [simp]: "has_prefix s s"
  by (simp add: has_prefix_iff)

lemma has_prefix_trans: "has_prefix s p \<Longrightarrow> has_prefix p q \<Longrightarrow> has_prefix s q"
  by (auto simp: has_prefix_iff)

definition trim_prefix :: "string \<Rightarrow> string \<Rightarrow> string" where
  "trim_prefix s p = (if has_prefix s p then drop (length p) s else s)"

lemma trim_prefix_append [simp]: "trim_prefix (p @ t) p = t"
  by (simp add: trim_prefix_def)

section \<open>Searching\<close>

text \<open>\<open>strings.IndexByte\<close>: \<open>None\<close> is the code's \<open>-1\<close>.\<close>

fun index_byte :: "string \<Rightarrow> char \<Rightarrow> nat option" where
  "index_byte [] c = None"
| "index_byte (x # xs) c = (if x = c then Some 0 else map_option Suc (index_byte xs c))"

lemma index_byte_None: "index_byte s c = None \<longleftrightarrow> c \<notin> set s"
  by (induction s) auto

lemma index_byte_Some:
  "index_byte s c = Some i \<longleftrightarrow> i < length s \<and> s ! i = c \<and> c \<notin> set (take i s)"
proof (induction s arbitrary: i)
  case Nil
  then show ?case by simp
next
  case (Cons x xs)
  then show ?case by (cases i) auto
qed

lemma index_byte_append:
  "c \<notin> set a \<Longrightarrow> index_byte (a @ c # b) c = Some (length a)"
  by (induction a) auto

fun contains :: "string \<Rightarrow> string \<Rightarrow> bool" where
  "contains [] sub = (sub = [])"
| "contains (c # s) sub = (has_prefix (c # s) sub \<or> contains s sub)"

lemma contains_iff: "contains s sub \<longleftrightarrow> (\<exists>a b. s = a @ sub @ b)"
proof (induction s)
  case Nil
  then show ?case by auto
next
  case (Cons c s)
  show ?case
  proof
    assume "contains (c # s) sub"
    then consider "has_prefix (c # s) sub" | "contains s sub" by auto
    then show "\<exists>a b. c # s = a @ sub @ b"
    proof cases
      case 1
      then show ?thesis by (metis append_Nil has_prefix_iff)
    next
      case 2
      with Cons.IH show ?thesis by (metis append_Cons)
    qed
  next
    assume "\<exists>a b. c # s = a @ sub @ b"
    then obtain a b where ab: "c # s = a @ sub @ b" by blast
    show "contains (c # s) sub"
    proof (cases a)
      case Nil
      with ab have "has_prefix (c # s) sub" by (simp add: has_prefix_iff)
      then show ?thesis by simp
    next
      case (Cons x a')
      with ab have "s = a' @ sub @ b" by simp
      with Cons.IH show ?thesis by auto
    qed
  qed
qed

section \<open>Splitting\<close>

text \<open>
  \<open>strings.Split(s, sep)\<close> for a separator of one byte, and \<open>strings.SplitN(s, sep, n)\<close>,
  which stops after \<open>n\<close> pieces and leaves the rest whole.
\<close>

fun split :: "char \<Rightarrow> string \<Rightarrow> string list" where
  "split c [] = [[]]"
| "split c (x # xs) =
     (if x = c then [] # split c xs
      else (case split c xs of [] \<Rightarrow> [[x]] | p # ps \<Rightarrow> (x # p) # ps))"

fun split_n :: "nat \<Rightarrow> char \<Rightarrow> string \<Rightarrow> string list" where
  "split_n 0 c s = []"
| "split_n (Suc 0) c s = [s]"
| "split_n (Suc n) c s =
     (case index_byte s c of
        None \<Rightarrow> [s]
      | Some i \<Rightarrow> take i s # split_n n c (drop (Suc i) s))"

lemma split_nonempty [simp]: "split c s \<noteq> []"
  by (cases s) (auto split: list.splits)

lemma split_no_sep: "c \<notin> set s \<Longrightarrow> split c s = [s]"
  by (induction s) (auto split: list.splits)

lemma split_append_sep: "c \<notin> set a \<Longrightarrow> split c (a @ c # b) = a # split c b"
  by (induction a) (auto split: list.splits)

lemma split_pieces: "p \<in> set (split c s) \<Longrightarrow> c \<notin> set p"
proof (induction s arbitrary: p)
  case Nil
  then show ?case by simp
next
  case (Cons x xs)
  show ?case
  proof (cases "split c xs")
    case Nil
    then show ?thesis by simp
  next
    case (Cons q qs)
    with Cons.IH Cons.prems show ?thesis by (auto split: if_splits)
  qed
qed

fun join :: "string \<Rightarrow> string list \<Rightarrow> string" where
  "join sep [] = []"
| "join sep [p] = p"
| "join sep (p # q # ps) = p @ sep @ join sep (q # ps)"

lemma join_split: "join [c] (split c s) = s"
proof (induction s)
  case Nil
  then show ?case by simp
next
  case (Cons x xs)
  obtain p ps where sp: "split c xs = p # ps"
    by (metis list.exhaust split_nonempty)
  with Cons show ?case by (cases ps) auto
qed

lemma split_join:
  assumes "ps \<noteq> []" and "\<forall>p\<in>set ps. c \<notin> set p"
  shows "split c (join [c] ps) = ps"
  using assms
proof (induction "[c]" ps rule: join.induct)
  case 1
  then show ?case by simp
next
  case (2 p)
  then show ?case by (simp add: split_no_sep)
next
  case (3 p q ps)
  then have "split c (join [c] (q # ps)) = q # ps" by simp
  with 3 show ?case by (simp add: split_append_sep)
qed

section \<open>Letters, spaces and numbers\<close>

definition code :: "char \<Rightarrow> nat" where
  "code c = of_char c"

text \<open>The conversions \<open>[]byte(s)\<close> and \<open>string(b)\<close>.\<close>

definition bytes_of :: "string \<Rightarrow> u8 list" where
  "bytes_of s = map (\<lambda>c. word_of_nat (code c)) s"

definition string_of :: "u8 list \<Rightarrow> string" where
  "string_of bs = map (\<lambda>b. char_of (unat b)) bs"

lemma length_bytes_of [simp]: "length (bytes_of s) = length s"
  by (simp add: bytes_of_def)

lemma bytes_of_append [simp]: "bytes_of (s @ t) = bytes_of s @ bytes_of t"
  by (simp add: bytes_of_def)

lemma string_of_append [simp]: "string_of (a @ b) = string_of a @ string_of b"
  by (simp add: string_of_def)

lemma string_of_bytes_of [simp]: "string_of (bytes_of s) = s"
proof -
  have "char_of (unat (word_of_nat (of_char c) :: u8)) = c" for c :: char
  proof -
    have "of_char c < (256 :: nat)" using of_char_mod_256 [of c] by (metis mod_less_divisor zero_less_numeral)
    then have "unat (word_of_nat (of_char c) :: u8) = of_char c"
      by (simp add: unsigned_of_nat take_bit_nat_eq_self)
    then show ?thesis by simp
  qed
  then show ?thesis by (simp add: string_of_def bytes_of_def code_def o_def)
qed

definition lower_char :: "char \<Rightarrow> char" where
  "lower_char c = (if 65 \<le> code c \<and> code c \<le> 90 then char_of (code c + 32) else c)"

definition to_lower :: "string \<Rightarrow> string" where
  "to_lower s = map lower_char s"

lemma lower_char_idem [simp]: "lower_char (lower_char c) = lower_char c"
  by (auto simp: lower_char_def code_def)

lemma to_lower_idem [simp]: "to_lower (to_lower s) = to_lower s"
  by (simp add: to_lower_def)

definition is_space :: "char \<Rightarrow> bool" where
  "is_space c \<longleftrightarrow> code c = 32 \<or> (9 \<le> code c \<and> code c \<le> 13)"

definition trim_space :: "string \<Rightarrow> string" where
  "trim_space s = rev (dropWhile is_space (rev (dropWhile is_space s)))"

text \<open>\<open>strings.Fields\<close>.\<close>

function str_fields :: "string \<Rightarrow> string list" where
  "str_fields s =
     (let t = dropWhile is_space s in
      if t = [] then [] else takeWhile (\<lambda>c. \<not> is_space c) t # str_fields (dropWhile (\<lambda>c. \<not> is_space c) t))"
  by pat_completeness auto
termination
proof (relation "measure length", simp)
  fix s t :: string
  assume t: "t = dropWhile is_space s" "t \<noteq> []"
  obtain c u where cu: "t = c # u" using t(2) by (cases t) auto
  have "\<not> is_space (hd t)" using hd_dropWhile [of is_space s] t by simp
  then have "\<not> is_space c" using cu by simp
  with length_dropWhile_le [of "\<lambda>c. \<not> is_space c" u]
  have "length (dropWhile (\<lambda>c. \<not> is_space c) t) < length t" by (simp add: cu le_imp_less_Suc)
  also have "length t \<le> length s" unfolding t(1) by (rule length_dropWhile_le)
  finally show "(dropWhile (\<lambda>c. \<not> is_space c) t, s) \<in> measure length" by simp
qed

declare str_fields.simps [simp del]

text \<open>\<open>strconv.Itoa\<close> and the decimal \<open>FormatUint\<close>, \<open>%d\<close>.\<close>

fun nat_digits :: "nat \<Rightarrow> string" where
  "nat_digits n = (if n < 10 then [char_of (48 + n)]
     else nat_digits (n div 10) @ [char_of (48 + n mod 10)])"

declare nat_digits.simps [simp del]

definition itoa :: "int \<Rightarrow> string" where
  "itoa i = (if i < 0 then ''-'' @ nat_digits (nat (- i)) else nat_digits (nat i))"

text \<open>Whether \<open>strconv.Atoi\<close> accepts a text: a sign, digits, and a value within 64 bits.\<close>

definition is_digit :: "char \<Rightarrow> bool" where
  "is_digit c \<longleftrightarrow> 48 \<le> code c \<and> code c \<le> 57"

definition digits_value :: "string \<Rightarrow> int" where
  "digits_value ds = foldl (\<lambda>n c. 10 * n + int (code c - 48)) 0 ds"

definition atoi :: "string \<Rightarrow> int option" where
  "atoi s =
     (let neg = has_prefix s ''-''; ds = (if neg \<or> has_prefix s ''+'' then tl s else s);
          v = (if neg then - digits_value ds else digits_value ds)
      in if ds \<noteq> [] \<and> list_all is_digit ds \<and> int64_ok v then Some v else None)"

text \<open>\<open>hex.EncodeToString\<close>: two lower-case digits per byte.\<close>

definition hex_digit :: "nat \<Rightarrow> char" where
  "hex_digit n = (if n < 10 then char_of (48 + n) else char_of (87 + n))"

text \<open>The sixteen digits, for proofs by cases.\<close>

lemma hex_cases:
  assumes "n < 16"
  shows "n \<in> {15, 14, 13, 12, 11, 10, 9, 8, 7, 6, 5, 4, 3, 2, 1, 0 :: nat}"
proof -
  have "\<forall>k\<in>{..<16}. k \<in> {15, 14, 13, 12, 11, 10, 9, 8, 7, 6, 5, 4, 3, 2, 1, 0 :: nat}" by (simp add: numeral_eq_Suc lessThan_Suc)
  with assms show ?thesis by blast
qed

definition hex_encode :: "u8 list \<Rightarrow> string" where
  "hex_encode bs = concat (map (\<lambda>b. [hex_digit (unat b div 16), hex_digit (unat b mod 16)]) bs)"

lemma length_hex_encode [simp]: "length (hex_encode bs) = 2 * length bs"
  by (induction bs) (simp_all add: hex_encode_def)

lemma hex_digit_inj: "m < 16 \<Longrightarrow> n < 16 \<Longrightarrow> hex_digit m = hex_digit n \<longleftrightarrow> m = n"
  by (auto simp: hex_digit_def take_bit_eq_mod split: if_splits
      dest: arg_cong [where f = "of_char :: char \<Rightarrow> nat"])

lemma hex_encode_inj: "hex_encode as = hex_encode bs \<longleftrightarrow> as = bs"
proof (induction as arbitrary: bs)
  case Nil
  then show ?case by (cases bs) (simp_all add: hex_encode_def)
next
  case (Cons a as)
  show ?case
  proof (cases bs)
    case Nil
    then show ?thesis by (simp add: hex_encode_def)
  next
    case (Cons b bs')
    have lt: "unat x div 16 < 16" "unat x mod 16 < 16" for x :: u8
      using unsigned_less [of x, where 'a = nat] by simp_all
    have "unat a = unat b \<longleftrightarrow> unat a div 16 = unat b div 16 \<and> unat a mod 16 = unat b mod 16"
      by (metis div_mult_mod_eq)
    then have eq: "hex_digit (unat a div 16) = hex_digit (unat b div 16)
        \<and> hex_digit (unat a mod 16) = hex_digit (unat b mod 16) \<longleftrightarrow> a = b"
      by (simp add: hex_digit_inj lt word_unat_eq_iff)
    from Cons.IH [of bs'] eq Cons show ?thesis by (auto simp: hex_encode_def)
  qed
qed

text \<open>The verb \<open>%q\<close>: a quoted string with the escapes of Go source; bytes above 127 stay.\<close>

definition quote_char :: "char \<Rightarrow> string" where
  "quote_char c =
     (let n = code c; esc = (\<lambda>x. [char_of (92 :: nat), x]) in
      if n = 34 \<or> n = 92 then esc c
      else if n = 7 then esc (CHR ''a'')
      else if n = 8 then esc (CHR ''b'')
      else if n = 12 then esc (CHR ''f'')
      else if n = 10 then esc (CHR ''n'')
      else if n = 13 then esc (CHR ''r'')
      else if n = 9 then esc (CHR ''t'')
      else if n = 11 then esc (CHR ''v'')
      else if n < 32 \<or> n = 127 then esc (CHR ''x'') @ [hex_digit (n div 16), hex_digit (n mod 16)]
      else [c])"

definition go_quote :: "string \<Rightarrow> string" where
  "go_quote s = [char_of (34 :: nat)] @ concat (map quote_char s) @ [char_of (34 :: nat)]"

lemmas str_eval [go_eval] = trim_prefix_def to_lower_def lower_char_def code_def

text \<open>The dash of the program's messages, in UTF-8.\<close>

definition em_dash :: string where
  "em_dash = [CHR 0xE2, CHR 0x80, CHR 0x94]"

end
