(* ===== verification/GoMap.thy ===== *)
theory GoMap
  imports GoStrings
begin

text \<open>
  Go's \<open>map[string]V\<close>. A map is nil or an association list with distinct keys, whose order
  carries no meaning: a \<open>range\<close> loop visits the keys in the order an arbitrary permutation
  gives (an argument of every definition that ranges over a map). Reading and deleting from
  a nil map is fine, writing to it panics.
\<close>

datatype 'v gomap = NilMap | GoMap "(string \<times> 'v) list"

fun entries :: "'v gomap \<Rightarrow> (string \<times> 'v) list" where
  "entries NilMap = []"
| "entries (GoMap kvs) = kvs"

definition mkeys :: "'v gomap \<Rightarrow> string list" where
  "mkeys m = List.map fst (entries m)"

definition mget :: "'v gomap \<Rightarrow> string \<Rightarrow> 'v option" where
  "mget m k = map_of (entries m) k"

definition mlen :: "'v gomap \<Rightarrow> nat" where
  "mlen m = length (entries m)"

text \<open>\<open>m[k] = v\<close>: \<open>None\<close> is the panic on a nil map.\<close>

fun mput :: "string \<Rightarrow> 'v \<Rightarrow> 'v gomap \<Rightarrow> 'v gomap option" where
  "mput k v NilMap = None"
| "mput k v (GoMap kvs) = Some (GoMap (AList.update k v kvs))"

fun mdel :: "string \<Rightarrow> 'v gomap \<Rightarrow> 'v gomap" where
  "mdel k NilMap = NilMap"
| "mdel k (GoMap kvs) = GoMap (AList.delete k kvs)"

definition mempty :: "'v gomap" where
  "mempty = GoMap []"

text \<open>A map that can be written to, with its keys distinct.\<close>

fun map_ok :: "'v gomap \<Rightarrow> bool" where
  "map_ok NilMap = False"
| "map_ok (GoMap kvs) = distinct (List.map fst kvs)"

lemma map_okE: "map_ok m \<Longrightarrow> (\<And>kvs. m = GoMap kvs \<Longrightarrow> distinct (List.map fst kvs) \<Longrightarrow> P) \<Longrightarrow> P"
  by (cases m) auto

lemma mget_simps [simp]:
  "mget NilMap k = None" "mget mempty k = None" "mget (GoMap []) k = None"
  "mget (GoMap ((k', v) # kvs)) k = (if k = k' then Some v else mget (GoMap kvs) k)"
  by (simp_all add: mget_def mempty_def)

lemma map_ok_empty [simp]: "map_ok mempty"
  by (simp add: mempty_def)

lemma update_fresh: "k \<notin> fst ` set kvs \<Longrightarrow> AList.update k v kvs = kvs @ [(k, v)]"
  by (induction kvs) auto

lemma mput_Some: "map_ok m \<Longrightarrow> \<exists>m'. mput k v m = Some m'"
  by (cases m) auto

lemma map_ok_mput: "map_ok m \<Longrightarrow> mput k v m = Some m' \<Longrightarrow> map_ok m'"
  by (cases m) (auto simp: distinct_update)

lemma mget_mput: "mput k v m = Some m' \<Longrightarrow> mget m' = (mget m)(k \<mapsto> v)"
  by (cases m) (auto simp: mget_def fun_eq_iff update_conv')

lemma map_ok_mdel [simp]: "map_ok m \<Longrightarrow> map_ok (mdel k m)"
  by (cases m) (auto simp: distinct_delete)

lemma mget_mdel [simp]: "mget (mdel k m) = (mget m)(k := None)"
  by (cases m) (auto simp: mget_def fun_eq_iff delete_conv')

lemma mget_dom: "mget m k = Some v \<Longrightarrow> k \<in> set (mkeys m)"
  by (cases m) (auto simp: mget_def mkeys_def dest: map_of_SomeD intro: rev_image_eqI)

lemma mkeys_dom: "set (mkeys m) = {k. mget m k \<noteq> None}"
  by (cases m) (auto simp: mget_def mkeys_def map_of_eq_None_iff intro: rev_image_eqI)

lemma distinct_mkeys: "map_ok m \<Longrightarrow> distinct (mkeys m)"
  by (cases m) (auto simp: mkeys_def)

section \<open>The interface the tables are used through\<close>

text \<open>
  What the state machine and its readers rely on: a store that can be written keeps being
  writable, a write is seen under its key and nowhere else, and a delete removes just its
  key. Go maps provide it (\<open>tbl\<close> below).
\<close>

locale keyed_store =
  fixes get :: "'m \<Rightarrow> 'k \<Rightarrow> 'v option"
    and put :: "'k \<Rightarrow> 'v \<Rightarrow> 'm \<Rightarrow> 'm option"
    and del :: "'k \<Rightarrow> 'm \<Rightarrow> 'm"
    and ok :: "'m \<Rightarrow> bool"
  assumes put_total: "ok m \<Longrightarrow> \<exists>m'. put k v m = Some m'"
    and put_keeps_ok: "ok m \<Longrightarrow> put k v m = Some m' \<Longrightarrow> ok m'"
    and get_put: "put k v m = Some m' \<Longrightarrow> get m' = (get m)(k \<mapsto> v)"
    and del_keeps_ok: "ok m \<Longrightarrow> ok (del k m)"
    and get_del: "get (del k m) = (get m)(k := None)"
begin

text \<open>A key-indexed invariant (\<open>I k v\<close>: the entry \<open>v\<close> may stand under \<open>k\<close>) survives both.\<close>

lemma put_all:
  assumes "put k v m = Some m'" and "I k v" and "\<forall>j x. get m j = Some x \<longrightarrow> I j x"
  shows "\<forall>j x. get m' j = Some x \<longrightarrow> I j x"
  using assms by (simp add: get_put)

lemma del_all:
  assumes "\<forall>j x. get m j = Some x \<longrightarrow> I j x"
  shows "\<forall>j x. get (del k m) j = Some x \<longrightarrow> I j x"
  using assms by (simp add: get_del)

lemma put_put_last:
  assumes "put k v m = Some m'" and "put k w m' = Some m''"
  shows "get m'' = (get m)(k \<mapsto> w)"
  using assms by (simp add: get_put)

lemma del_after_put:
  assumes "put k v m = Some m'"
  shows "get (del k m') = (get m)(k := None)"
  using assms by (simp add: get_put get_del)

end

interpretation tbl: keyed_store mget mput mdel map_ok
  by unfold_locales (auto intro: mput_Some map_ok_mput mget_mput)

section \<open>Ranging over a map\<close>

type_synonym order = "string list \<Rightarrow> string list"

definition permutes :: "order \<Rightarrow> bool" where
  "permutes ord \<longleftrightarrow> (\<forall>ks. mset (ord ks) = mset ks)"

definition mrange :: "order \<Rightarrow> 'v gomap \<Rightarrow> (string \<times> 'v) list" where
  "mrange ord m = List.map_filter (\<lambda>k. map_option (Pair k) (mget m k)) (ord (mkeys m))"

definition mvalues :: "order \<Rightarrow> 'v gomap \<Rightarrow> 'v list" where
  "mvalues ord m = List.map snd (mrange ord m)"

lemma permutesD: "permutes ord \<Longrightarrow> set (ord ks) = set ks" "permutes ord \<Longrightarrow> distinct (ord ks) = distinct ks"
  by (metis permutes_def set_mset_mset, metis permutes_def mset_eq_imp_distinct_iff)

lemma permutes_id [simp]: "permutes (\<lambda>ks. ks)"
  by (simp add: permutes_def)

lemma permutes_rev [simp]: "permutes rev"
  by (simp add: permutes_def)

lemma set_mrange: "permutes ord \<Longrightarrow> set (mrange ord m) = {(k, v). mget m k = Some v}"
  by (force simp: mrange_def map_filter_def permutesD mkeys_dom image_iff)

lemma set_mvalues: "permutes ord \<Longrightarrow> set (mvalues ord m) = {v. \<exists>k. mget m k = Some v}"
  by (auto simp: mvalues_def set_mrange image_iff)

lemma keys_mrange:
  "permutes ord \<Longrightarrow> List.map fst (mrange ord m) = ord (mkeys m)"
proof -
  assume p: "permutes ord"
  have "\<forall>k\<in>set (ord (mkeys m)). mget m k \<noteq> None"
    using p by (simp add: permutesD mkeys_dom)
  then show ?thesis
    unfolding mrange_def by (auto simp: map_filter_def comp_def intro!: map_idI)
qed

lemma distinct_mrange: "permutes ord \<Longrightarrow> map_ok m \<Longrightarrow> distinct (List.map fst (mrange ord m))"
  by (simp add: keys_mrange permutesD distinct_mkeys)

lemma length_mvalues: "permutes ord \<Longrightarrow> length (mvalues ord m) = mlen m"
proof -
  assume p: "permutes ord"
  have "length (mvalues ord m) = length (ord (mkeys m))"
    by (metis keys_mrange [OF p] length_map mvalues_def)
  also have "\<dots> = length (mkeys m)"
    using p by (metis permutes_def size_mset)
  finally show ?thesis by (simp add: mkeys_def mlen_def)
qed

end
