(* ===== verification/ClusterTypes.thy ===== *)
theory ClusterTypes
  imports GoMap
begin

text \<open>
  The value types shared by the daemon's packages (pkg/types/types.go). The two state
  types are Go \<open>uint8\<close>s, so any byte is a value of them; the named constants are the ones
  the code uses. A nil and an empty \<open>Env\<close> map behave alike everywhere, so the field is the
  list of its entries.
\<close>

section \<open>Node and server states\<close>

type_synonym node_state = u8
type_synonym server_state = u8

definition NodeUnknown :: node_state where "NodeUnknown = 0"
definition NodeUp :: node_state where "NodeUp = 1"
definition NodeSuspect :: node_state where "NodeSuspect = 2"
definition NodeDown :: node_state where "NodeDown = 3"
definition NodeDraining :: node_state where "NodeDraining = 4"

lemmas node_state_defs [go_eval] =
  NodeUnknown_def NodeUp_def NodeSuspect_def NodeDown_def NodeDraining_def

lemma node_state_distinct [simp]:
  "NodeUp \<noteq> NodeSuspect" "NodeUp \<noteq> NodeDown" "NodeUp \<noteq> NodeDraining" "NodeUp \<noteq> NodeUnknown"
  "NodeSuspect \<noteq> NodeUp" "NodeSuspect \<noteq> NodeDown" "NodeSuspect \<noteq> NodeDraining"
  "NodeDown \<noteq> NodeUp" "NodeDown \<noteq> NodeSuspect" "NodeDown \<noteq> NodeDraining"
  "NodeDraining \<noteq> NodeUp" "NodeDraining \<noteq> NodeSuspect" "NodeDraining \<noteq> NodeDown"
  by (simp_all add: node_state_defs)

definition node_state_string :: "node_state \<Rightarrow> string" where
  "node_state_string s =
     (if s = NodeUp then ''up''
      else if s = NodeSuspect then ''suspect''
      else if s = NodeDown then ''down''
      else if s = NodeDraining then ''draining''
      else ''unknown'')"

definition ServerStopped :: server_state where "ServerStopped = 0"
definition ServerStarting :: server_state where "ServerStarting = 1"
definition ServerReady :: server_state where "ServerReady = 2"
definition ServerStopping :: server_state where "ServerStopping = 3"
definition ServerCrashed :: server_state where "ServerCrashed = 4"
definition ServerOrphaned :: server_state where "ServerOrphaned = 5"

lemmas server_state_defs [go_eval] = ServerStopped_def ServerStarting_def ServerReady_def
  ServerStopping_def ServerCrashed_def ServerOrphaned_def

lemma server_state_distinct [simp]:
  "ServerStarting \<noteq> ServerOrphaned" "ServerOrphaned \<noteq> ServerStarting"
  "ServerStopping \<noteq> ServerStarting" "ServerStarting \<noteq> ServerStopping"
  "ServerStopping \<noteq> ServerOrphaned" "ServerOrphaned \<noteq> ServerStopping"
  "ServerReady \<noteq> ServerStarting" "ServerReady \<noteq> ServerStopping" "ServerReady \<noteq> ServerOrphaned"
  "ServerStarting \<noteq> ServerReady" "ServerStopping \<noteq> ServerReady" "ServerOrphaned \<noteq> ServerReady"
  by (simp_all add: server_state_defs)

definition server_state_string :: "server_state \<Rightarrow> string" where
  "server_state_string s =
     (if s = ServerStopped then ''stopped''
      else if s = ServerStarting then ''starting''
      else if s = ServerReady then ''ready''
      else if s = ServerStopping then ''stopping''
      else if s = ServerCrashed then ''crashed''
      else if s = ServerOrphaned then ''orphaned''
      else ''unknown'')"

section \<open>Nodes\<close>

record resources =
  memory_total_mb :: u64
  memory_used_mb :: u64
  cpu_cores :: u32
  cpu_load :: f64
  disk_total_mb :: u64
  disk_used_mb :: u64

definition free_memory_mb :: "resources \<Rightarrow> u64" where
  "free_memory_mb r =
     (if memory_used_mb r \<ge> memory_total_mb r then 0
      else memory_total_mb r - memory_used_mb r)"

record node =
  n_id :: string
  n_address :: string
  n_state :: node_state
  n_resources :: resources
  n_last_heartbeat :: time
  n_is_leader :: bool
  n_version :: string

section \<open>Servers\<close>

record server_spec =
  sp_id :: string
  sp_name :: string
  sp_template_id :: string
  sp_group_id :: string
  sp_image :: string
  sp_memory_mb :: u64
  sp_cpu_quota :: f64
  sp_env :: "(string \<times> string) list"
  sp_minecraft_port :: u32
  sp_ha_required :: bool

record server =
  sv_spec :: server_spec
  sv_node_id :: string
  sv_state :: server_state
  sv_player_count :: u32
  sv_max_players :: u32
  sv_started_at :: time
  sv_container_id :: string
  sv_host_port :: u32

section \<open>Groups, templates, databases, tokens\<close>

record group_rec =
  g_id :: string
  g_name :: string
  g_template_id :: string
  g_min_instances :: int
  g_max_instances :: int
  g_ha_required :: bool

record template =
  t_id :: string
  t_name :: string
  t_mode :: string
  t_image :: string
  t_base_volume :: string

record database =
  d_id :: string
  d_name :: string
  d_engine :: string
  d_username :: string
  d_host :: string
  d_port :: u32
  d_created_at :: time
  d_size_bytes :: u64

record token =
  tk_id :: string
  tk_hash :: string
  tk_description :: string
  tk_scopes :: "string list"
  tk_created_at :: time
  tk_expires_at :: time
  tk_last_used_at :: time

section \<open>Zero values\<close>

definition resources_zero :: resources where
  "resources_zero = \<lparr>memory_total_mb = 0, memory_used_mb = 0, cpu_cores = 0, cpu_load = 0,
     disk_total_mb = 0, disk_used_mb = 0\<rparr>"

definition node_zero :: node where
  "node_zero = \<lparr>n_id = [], n_address = [], n_state = 0, n_resources = resources_zero,
     n_last_heartbeat = 0, n_is_leader = False, n_version = []\<rparr>"

definition server_spec_zero :: server_spec where
  "server_spec_zero = \<lparr>sp_id = [], sp_name = [], sp_template_id = [], sp_group_id = [],
     sp_image = [], sp_memory_mb = 0, sp_cpu_quota = 0, sp_env = [], sp_minecraft_port = 0,
     sp_ha_required = False\<rparr>"

definition server_zero :: server where
  "server_zero = \<lparr>sv_spec = server_spec_zero, sv_node_id = [], sv_state = 0,
     sv_player_count = 0, sv_max_players = 0, sv_started_at = 0, sv_container_id = [],
     sv_host_port = 0\<rparr>"

definition group_zero :: group_rec where
  "group_zero = \<lparr>g_id = [], g_name = [], g_template_id = [], g_min_instances = 0,
     g_max_instances = 0, g_ha_required = False\<rparr>"

definition template_zero :: template where
  "template_zero = \<lparr>t_id = [], t_name = [], t_mode = [], t_image = [], t_base_volume = []\<rparr>"

definition database_zero :: database where
  "database_zero = \<lparr>d_id = [], d_name = [], d_engine = [], d_username = [], d_host = [],
     d_port = 0, d_created_at = 0, d_size_bytes = 0\<rparr>"

definition token_zero :: token where
  "token_zero = \<lparr>tk_id = [], tk_hash = [], tk_description = [], tk_scopes = [],
     tk_created_at = 0, tk_expires_at = 0, tk_last_used_at = 0\<rparr>"

lemmas zero_defs = resources_zero_def node_zero_def server_spec_zero_def server_zero_def
  group_zero_def template_zero_def database_zero_def token_zero_def

section \<open>Facts\<close>

text \<open>The headroom never wraps: it is the truncated difference of the two counters.\<close>

lemma unat_free_memory:
  "unat (free_memory_mb r) = unat (memory_total_mb r) - unat (memory_used_mb r)"
  by (auto simp: free_memory_mb_def unat_sub word_le_nat_alt not_le)

end
