(* ===== verification/Json.thy ===== *)
theory Json
  imports ClusterTypes "HOL-Library.Log_Nat"
begin

text \<open>
  What the code uses of \<open>encoding/json\<close>, on the values a JSON text stands for. A string
  that is an RFC 3339 timestamp is a constructor of its own (\<open>JTime\<close>, holding the instant);
  a number is \<open>JInt\<close> when its text has neither fraction nor exponent, else \<open>JFlt\<close> with the
  double it denotes. The decoders follow the library: they decode into an existing value,
  \<open>null\<close> leaves it alone (and makes a map or slice nil), an object's members are taken in
  order with keys matched without regard to ASCII case, unknown members are skipped, a
  repeated member overwrites, a value of the wrong kind or out of range is an error.
\<close>

section \<open>Values\<close>

datatype json =
    JNull
  | JBool bool
  | JInt int
  | JFlt f64
  | JStr string
  | JTime time
  | JArr "json list"
  | JObj "(string \<times> json) list"

section \<open>Decoders of the basic kinds\<close>

type_synonym 'a dec = "json \<Rightarrow> 'a \<Rightarrow> 'a result"

fun dec_string :: "string dec" where
  "dec_string JNull s = Inr s"
| "dec_string (JStr t) s = Inr t"
| "dec_string j s = Inl ErrJson"

fun dec_bool :: "bool dec" where
  "dec_bool JNull b = Inr b"
| "dec_bool (JBool c) b = Inr c"
| "dec_bool j b = Inl ErrJson"

text \<open>An unsigned field of \<open>LENGTH('w)\<close> bits.\<close>

fun dec_uint :: "json \<Rightarrow> 'w::len word \<Rightarrow> 'w word result" where
  "dec_uint JNull w = Inr w"
| "dec_uint (JInt i) w =
     (if 0 \<le> i \<and> i < 2 ^ LENGTH('w) then Inr (word_of_int i) else Inl ErrJson)"
| "dec_uint j w = Inl ErrJson"

fun dec_int :: "int dec" where
  "dec_int JNull n = Inr n"
| "dec_int (JInt i) n = (if int64_ok i then Inr i else Inl ErrJson)"
| "dec_int j n = Inl ErrJson"

text \<open>
  An integer literal in a \<open>float64\<close> field: the nearest double, ties to even. \<open>e\<close> is the
  exponent of the leading bit; a rounded mantissa of \<open>2 ^ 53\<close> carries into the exponent.
\<close>

definition round_half_even :: "nat \<Rightarrow> nat \<Rightarrow> nat" where
  "round_half_even n k =
     (let q = n div 2 ^ k; r = n mod 2 ^ k; h = 2 ^ (k - 1)
      in if h < r \<or> (r = h \<and> odd q) then Suc q else q)"

definition f64_of_nat :: "nat \<Rightarrow> nat" where
  "f64_of_nat n =
     (if n = 0 then 0
      else let e = floorlog 2 n - 1;
               m = (if e \<le> 52 then n * 2 ^ (52 - e) else round_half_even n (e - 52))
           in (e + 1023) * 2 ^ 52 + m - 2 ^ 52)"

definition f64_of_int :: "int \<Rightarrow> f64 option" where
  "f64_of_int i =
     (let p = f64_of_nat (nat \<bar>i\<bar>)
      in if p \<ge> 2047 * 2 ^ 52 then None
         else Some (word_of_nat ((if i < 0 then 2 ^ 63 else 0) + p)))"

fun dec_f64 :: "f64 dec" where
  "dec_f64 JNull x = Inr x"
| "dec_f64 (JFlt y) x = Inr y"
| "dec_f64 (JInt i) x = (case f64_of_int i of None \<Rightarrow> Inl ErrJson | Some y \<Rightarrow> Inr y)"
| "dec_f64 j x = Inl ErrJson"

fun dec_time :: "time dec" where
  "dec_time JNull t = Inr t"
| "dec_time (JTime u) t = Inr u"
| "dec_time j t = Inl ErrJson"

fun dec_string_list :: "json list \<Rightarrow> string list result" where
  "dec_string_list [] = Inr []"
| "dec_string_list (j # js) =
     rbind (dec_string j []) (\<lambda>s. rbind (dec_string_list js) (\<lambda>ss. Inr (s # ss)))"

fun dec_strings :: "string list dec" where
  "dec_strings JNull ss = Inr []"
| "dec_strings (JArr js) ss = dec_string_list js"
| "dec_strings j ss = Inl ErrJson"

section \<open>Decoders of structs and maps\<close>

text \<open>
  A struct type is a table from lower-case member names to the update each makes.
  \<open>fld name get set dec\<close> is the entry of one field.
\<close>

type_synonym 'r fields = "(string \<times> (json \<Rightarrow> 'r \<Rightarrow> 'r result)) list"

definition fld :: "string \<Rightarrow> 'a dec \<Rightarrow> ('r \<Rightarrow> 'a) \<Rightarrow> (('a \<Rightarrow> 'a) \<Rightarrow> 'r \<Rightarrow> 'r)
    \<Rightarrow> string \<times> (json \<Rightarrow> 'r \<Rightarrow> 'r result)" where
  "fld name d get upd = (name, \<lambda>j r. rbind (d j (get r)) (\<lambda>x. Inr (upd (\<lambda>_. x) r)))"

fun dec_members :: "'r fields \<Rightarrow> (string \<times> json) list \<Rightarrow> 'r \<Rightarrow> 'r result" where
  "dec_members fs [] r = Inr r"
| "dec_members fs ((k, j) # kvs) r =
     (case map_of fs (to_lower k) of
        None \<Rightarrow> dec_members fs kvs r
      | Some f \<Rightarrow> rbind (f j r) (dec_members fs kvs))"

fun dec_struct :: "'r fields \<Rightarrow> 'r dec" where
  "dec_struct fs JNull r = Inr r"
| "dec_struct fs (JObj kvs) r = dec_members fs kvs r"
| "dec_struct fs j r = Inl ErrJson"

fun dec_entries :: "'v dec \<Rightarrow> 'v \<Rightarrow> (string \<times> json) list \<Rightarrow> (string \<times> 'v) list
    \<Rightarrow> (string \<times> 'v) list result" where
  "dec_entries d z [] m = Inr m"
| "dec_entries d z ((k, j) # kvs) m =
     rbind (d j z) (\<lambda>v. dec_entries d z kvs (AList.update k v m))"

fun dec_map :: "'v dec \<Rightarrow> 'v \<Rightarrow> 'v gomap dec" where
  "dec_map d z JNull m = Inr NilMap"
| "dec_map d z (JObj kvs) m = rbind (dec_entries d z kvs (entries m)) (\<lambda>es. Inr (GoMap es))"
| "dec_map d z j m = Inl ErrJson"

text \<open>
  Behind a pointer in a map: \<open>null\<close> would store a nil pointer, on which every reader of the
  map panics; no snapshot the code writes holds one, and the model refuses it.
\<close>

definition dec_ptr :: "'v dec \<Rightarrow> 'v dec" where
  "dec_ptr d j z = (if j = JNull then Inl ErrJson else d j z)"

section \<open>Encoders\<close>

text \<open>
  \<open>json.Marshal\<close> fails on an infinite or NaN float and on an instant whose year is outside
  0 to 9999; nothing else the code marshals can fail.
\<close>

definition enc_f64 :: "f64 \<Rightarrow> json result" where
  "enc_f64 x = (if f64_finite x then Inr (JFlt x) else Inl ErrJson)"

definition time_marshals :: "time \<Rightarrow> bool" where
  "time_marshals t \<longleftrightarrow> - (366 * 86400 * second) \<le> t \<and> t < 315537897600 * second"

definition enc_time :: "time \<Rightarrow> json result" where
  "enc_time t = (if time_marshals t then Inr (JTime t) else Inl ErrJson)"

definition enc_uint :: "'w::len word \<Rightarrow> json" where
  "enc_uint w = JInt (uint w)"

fun enc_members :: "(string \<times> json result) list \<Rightarrow> (string \<times> json) list result" where
  "enc_members [] = Inr []"
| "enc_members ((k, r) # rs) =
     rbind r (\<lambda>j. rbind (enc_members rs) (\<lambda>kvs. Inr ((k, j) # kvs)))"

definition enc_struct :: "(string \<times> json result) list \<Rightarrow> json result" where
  "enc_struct fs = rbind (enc_members fs) (\<lambda>kvs. Inr (JObj kvs))"

text \<open>A member with the \<open>omitempty\<close> option.\<close>

definition omitempty :: "bool \<Rightarrow> string \<times> json result \<Rightarrow> (string \<times> json result) list" where
  "omitempty e f = (if e then [] else [f])"

fun enc_entries :: "('v \<Rightarrow> json result) \<Rightarrow> (string \<times> 'v) list \<Rightarrow> (string \<times> json) list result" where
  "enc_entries e [] = Inr []"
| "enc_entries e ((k, v) # kvs) =
     rbind (e v) (\<lambda>j. rbind (enc_entries e kvs) (\<lambda>js. Inr ((k, j) # js)))"

fun enc_map :: "('v \<Rightarrow> json result) \<Rightarrow> 'v gomap \<Rightarrow> json result" where
  "enc_map e NilMap = Inr JNull"
| "enc_map e (GoMap kvs) = rbind (enc_entries e kvs) (\<lambda>js. Inr (JObj js))"

section \<open>Round trips of the basic kinds\<close>

lemma dec_uint_enc [simp]: "dec_uint (enc_uint w) v = Inr w"
proof -
  have "0 \<le> uint w \<and> uint w < 2 ^ LENGTH('a)"
    by (simp add: uint_bounded)
  then show ?thesis by (simp add: enc_uint_def)
qed

lemma dec_f64_enc: "enc_f64 x = Inr j \<Longrightarrow> dec_f64 j y = Inr x"
  by (auto simp: enc_f64_def split: if_splits)

lemma dec_time_enc: "enc_time t = Inr j \<Longrightarrow> dec_time j u = Inr t"
  by (auto simp: enc_time_def split: if_splits)

lemma dec_string_list_enc [simp]: "dec_string_list (map JStr ss) = Inr ss"
  by (induction ss) simp_all

lemma f64_of_int_one: "f64_of_int 1 = Some f64_one"
  by (simp add: f64_of_int_def f64_of_nat_def f64_one_def floorlog_def)

section \<open>The interface of a codec\<close>

text \<open>
  An encoder and a decoder of one type: what a valid value encodes to is not \<open>null\<close> and
  decodes, from the zero value, to that value.
\<close>

locale codec =
  fixes enc :: "'v \<Rightarrow> json result"
    and dec :: "'v dec"
    and zero :: 'v
    and valid :: "'v \<Rightarrow> bool"
  assumes enc_valid: "valid v \<Longrightarrow> \<exists>j. enc v = Inr j"
    and enc_not_null: "enc v = Inr j \<Longrightarrow> j \<noteq> JNull"
    and dec_enc: "valid v \<Longrightarrow> enc v = Inr j \<Longrightarrow> dec j zero = Inr v"
begin

lemma enc_entries_valid: "\<forall>v\<in>snd ` set kvs. valid v \<Longrightarrow> \<exists>js. enc_entries enc kvs = Inr js"
proof (induction kvs)
  case Nil
  then show ?case by simp
next
  case (Cons kv kvs)
  obtain k v where kv: "kv = (k, v)" by (cases kv)
  from Cons kv obtain j js where "enc v = Inr j" "enc_entries enc kvs = Inr js"
    using enc_valid by fastforce
  with kv show ?case by simp
qed

lemma dec_enc_entries:
  assumes d: "\<And>v j. valid v \<Longrightarrow> enc v = Inr j \<Longrightarrow> d j zero = Inr v"
    and "\<forall>v\<in>snd ` set kvs. valid v" and "enc_entries enc kvs = Inr js"
    and "distinct (map fst (acc @ kvs))"
  shows "dec_entries d zero js acc = Inr (acc @ kvs)"
  using assms(2-)
proof (induction kvs arbitrary: js acc)
  case Nil
  then show ?case by simp
next
  case (Cons kv kvs)
  obtain k v where kv: "kv = (k, v)" by (cases kv)
  from Cons.prems(2) kv obtain j js' where
    js: "js = (k, j) # js'" "enc v = Inr j" "enc_entries enc kvs = Inr js'"
    by (auto simp: rbind_eq_Inr)
  from Cons.prems(3) kv have "k \<notin> fst ` set acc" by auto
  then have upd: "AList.update k v acc = acc @ [kv]"
    by (simp add: update_fresh kv)
  have "dec_entries d zero js' (acc @ [kv]) = Inr ((acc @ [kv]) @ kvs)"
    using Cons.prems js(3) by (intro Cons.IH) auto
  moreover have "d j zero = Inr v"
    using Cons.prems(1) kv js(2) by (intro d) auto
  ultimately show ?case using js(1) kv upd by simp
qed

lemma dec_ptr_enc: "valid v \<Longrightarrow> enc v = Inr j \<Longrightarrow> dec_ptr dec j zero = Inr v"
  using enc_not_null by (auto simp: dec_ptr_def dec_enc)

text \<open>Maps of valid values round trip, behind pointers or not.\<close>

lemma enc_map_valid: "\<forall>v\<in>snd ` set (entries m). valid v \<Longrightarrow> \<exists>j. enc_map enc m = Inr j"
  using enc_entries_valid by (cases m) fastforce+

lemma dec_enc_map_gen:
  assumes "\<And>v j. valid v \<Longrightarrow> enc v = Inr j \<Longrightarrow> d j zero = Inr v"
    and "\<forall>v\<in>snd ` set (entries m). valid v" and "distinct (mkeys m)"
    and "enc_map enc m = Inr j"
  shows "dec_map d zero j NilMap = Inr m"
proof (cases m)
  case NilMap
  with assms(4) show ?thesis by simp
next
  case (GoMap kvs)
  with assms(4) obtain js where "enc_entries enc kvs = Inr js" "j = JObj js"
    by (auto simp: rbind_eq_Inr)
  with assms(1-3) GoMap show ?thesis
    using dec_enc_entries [of d kvs js "[]"] by (simp add: mkeys_def)
qed

lemma dec_enc_map:
  "\<forall>v\<in>snd ` set (entries m). valid v \<Longrightarrow> distinct (mkeys m) \<Longrightarrow> enc_map enc m = Inr j
    \<Longrightarrow> dec_map dec zero j NilMap = Inr m"
  by (rule dec_enc_map_gen) (rule dec_enc)

lemma dec_enc_ptr_map:
  "\<forall>v\<in>snd ` set (entries m). valid v \<Longrightarrow> distinct (mkeys m) \<Longrightarrow> enc_map enc m = Inr j
    \<Longrightarrow> dec_map (dec_ptr dec) zero j NilMap = Inr m"
  by (rule dec_enc_map_gen) (rule dec_ptr_enc)

end

text \<open>Strings are a codec: every one is valid.\<close>

interpretation str_codec: codec "\<lambda>s. Inr (JStr s)" dec_string "[]" "\<lambda>_. True"
  by unfold_locales auto

text \<open>\<open>Raft\<close> indices are a codec of 64-bit signed integers.\<close>

interpretation int_codec: codec "\<lambda>i. Inr (JInt i)" dec_int 0 int64_ok
  by unfold_locales auto

end
