(* ===== verification/Codec.thy ===== *)
theory Codec
  imports Json
begin

text \<open>
  The wire format of commands and of the types they carry: the JSON struct tags of
  pkg/types/types.go and daemon/internal/raftfsm/command.go. Each type \<open>T\<close> has the table
  \<open>T_fields\<close> its decoder uses, its encoder \<open>enc_T\<close>, the predicate \<open>T_valid\<close> of the values
  that can be marshalled, and is an instance of the locale \<open>codec\<close>.
\<close>

section \<open>Member names\<close>

text \<open>The members' names are lower case, so the decoder finds them as they are written.\<close>

lemma member_names [simp]:
  "to_lower ''id'' = ''id''" "to_lower ''address'' = ''address''" "to_lower ''state'' = ''state''"
  "to_lower ''resources'' = ''resources''" "to_lower ''last_heartbeat'' = ''last_heartbeat''" "to_lower ''is_leader'' = ''is_leader''"
  "to_lower ''version'' = ''version''" "to_lower ''memory_total_mb'' = ''memory_total_mb''" "to_lower ''memory_used_mb'' = ''memory_used_mb''"
  "to_lower ''cpu_cores'' = ''cpu_cores''" "to_lower ''cpu_load'' = ''cpu_load''" "to_lower ''disk_total_mb'' = ''disk_total_mb''"
  "to_lower ''disk_used_mb'' = ''disk_used_mb''" "to_lower ''name'' = ''name''" "to_lower ''template_id'' = ''template_id''"
  "to_lower ''group_id'' = ''group_id''" "to_lower ''image'' = ''image''" "to_lower ''memory_mb'' = ''memory_mb''"
  "to_lower ''cpu_quota'' = ''cpu_quota''" "to_lower ''env'' = ''env''" "to_lower ''minecraft_port'' = ''minecraft_port''"
  "to_lower ''ha_required'' = ''ha_required''" "to_lower ''spec'' = ''spec''" "to_lower ''node_id'' = ''node_id''"
  "to_lower ''player_count'' = ''player_count''" "to_lower ''max_players'' = ''max_players''" "to_lower ''started_at'' = ''started_at''"
  "to_lower ''container_id'' = ''container_id''" "to_lower ''host_port'' = ''host_port''" "to_lower ''min_instances'' = ''min_instances''"
  "to_lower ''max_instances'' = ''max_instances''" "to_lower ''mode'' = ''mode''" "to_lower ''base_volume'' = ''base_volume''"
  "to_lower ''engine'' = ''engine''" "to_lower ''username'' = ''username''" "to_lower ''host'' = ''host''"
  "to_lower ''port'' = ''port''" "to_lower ''created_at'' = ''created_at''" "to_lower ''size_bytes'' = ''size_bytes''"
  "to_lower ''hash'' = ''hash''" "to_lower ''description'' = ''description''" "to_lower ''scopes'' = ''scopes''"
  "to_lower ''expires_at'' = ''expires_at''" "to_lower ''last_used_at'' = ''last_used_at''" "to_lower ''type'' = ''type''"
  "to_lower ''payload'' = ''payload''" "to_lower ''idem'' = ''idem''" "to_lower ''ts'' = ''ts''"
  "to_lower ''nodes'' = ''nodes''" "to_lower ''servers'' = ''servers''" "to_lower ''groups'' = ''groups''"
  "to_lower ''templates'' = ''templates''" "to_lower ''databases'' = ''databases''" "to_lower ''tokens'' = ''tokens''"
  "to_lower ''taken'' = ''taken''"
  by (simp_all add: go_eval)

section \<open>The types\<close>

definition dec_env :: "(string \<times> string) list dec" where
  "dec_env j e = rbind (dec_map dec_string [] j (GoMap e)) (\<lambda>m. Inr (entries m))"

lemma dec_enc_env:
  assumes "distinct (List.map fst e)" and "enc_map (\<lambda>s. Inr (JStr s)) (GoMap e) = Inr j"
  shows "dec_env j [] = Inr e"
proof -
  obtain js where js: "enc_entries (\<lambda>s. Inr (JStr s)) e = Inr js" "j = JObj js"
    using assms(2) by (auto simp: rbind_eq_Inr)
  then have "dec_entries dec_string [] js [] = Inr ([] @ e)"
    using assms(1) by (intro str_codec.dec_enc_entries) (auto simp: str_codec.dec_enc)
  with js show ?thesis by (simp add: dec_env_def)
qed

lemma enc_env_total: "\<exists>j. enc_map (\<lambda>s. Inr (JStr s)) (GoMap e) = Inr j"
  using str_codec.enc_map_valid [of "GoMap e"] by simp

definition resources_fields :: "resources fields" where
  "resources_fields =
     [fld ''memory_total_mb'' dec_uint memory_total_mb memory_total_mb_update,
      fld ''memory_used_mb'' dec_uint memory_used_mb memory_used_mb_update,
      fld ''cpu_cores'' dec_uint cpu_cores cpu_cores_update,
      fld ''cpu_load'' dec_f64 cpu_load cpu_load_update,
      fld ''disk_total_mb'' dec_uint disk_total_mb disk_total_mb_update,
      fld ''disk_used_mb'' dec_uint disk_used_mb disk_used_mb_update]"

definition enc_resources :: "resources \<Rightarrow> json result" where
  "enc_resources r = enc_struct
     ([(''memory_total_mb'', Inr (enc_uint (memory_total_mb r))),
       (''memory_used_mb'', Inr (enc_uint (memory_used_mb r))),
       (''cpu_cores'', Inr (enc_uint (cpu_cores r))),
       (''cpu_load'', enc_f64 (cpu_load r)),
       (''disk_total_mb'', Inr (enc_uint (disk_total_mb r))),
       (''disk_used_mb'', Inr (enc_uint (disk_used_mb r)))])"

definition resources_valid :: "resources \<Rightarrow> bool" where
  "resources_valid r \<longleftrightarrow> f64_finite (cpu_load r)"

definition node_fields :: "node fields" where
  "node_fields =
     [fld ''id'' dec_string n_id n_id_update,
      fld ''address'' dec_string n_address n_address_update,
      fld ''state'' dec_uint n_state n_state_update,
      fld ''resources'' (dec_struct resources_fields) n_resources n_resources_update,
      fld ''last_heartbeat'' dec_time n_last_heartbeat n_last_heartbeat_update,
      fld ''is_leader'' dec_bool n_is_leader n_is_leader_update,
      fld ''version'' dec_string n_version n_version_update]"

definition enc_node :: "node \<Rightarrow> json result" where
  "enc_node r = enc_struct
     ([(''id'', Inr (JStr (n_id r))),
       (''address'', Inr (JStr (n_address r))),
       (''state'', Inr (enc_uint (n_state r))),
       (''resources'', enc_resources (n_resources r)),
       (''last_heartbeat'', enc_time (n_last_heartbeat r)),
       (''is_leader'', Inr (JBool (n_is_leader r))),
       (''version'', Inr (JStr (n_version r)))])"

definition node_valid :: "node \<Rightarrow> bool" where
  "node_valid r \<longleftrightarrow> f64_finite (cpu_load (n_resources r)) \<and> time_marshals (n_last_heartbeat r)"

definition server_spec_fields :: "server_spec fields" where
  "server_spec_fields =
     [fld ''id'' dec_string sp_id sp_id_update,
      fld ''name'' dec_string sp_name sp_name_update,
      fld ''template_id'' dec_string sp_template_id sp_template_id_update,
      fld ''group_id'' dec_string sp_group_id sp_group_id_update,
      fld ''image'' dec_string sp_image sp_image_update,
      fld ''memory_mb'' dec_uint sp_memory_mb sp_memory_mb_update,
      fld ''cpu_quota'' dec_f64 sp_cpu_quota sp_cpu_quota_update,
      fld ''env'' dec_env sp_env sp_env_update,
      fld ''minecraft_port'' dec_uint sp_minecraft_port sp_minecraft_port_update,
      fld ''ha_required'' dec_bool sp_ha_required sp_ha_required_update]"

definition enc_server_spec :: "server_spec \<Rightarrow> json result" where
  "enc_server_spec r = enc_struct
     ([(''id'', Inr (JStr (sp_id r))),
       (''name'', Inr (JStr (sp_name r))),
       (''template_id'', Inr (JStr (sp_template_id r)))]
     @ omitempty (sp_group_id r = []) (''group_id'', Inr (JStr (sp_group_id r)))
     @ [(''image'', Inr (JStr (sp_image r))),
       (''memory_mb'', Inr (enc_uint (sp_memory_mb r))),
       (''cpu_quota'', enc_f64 (sp_cpu_quota r))]
     @ omitempty (sp_env r = []) (''env'', enc_map (\<lambda>s. Inr (JStr s)) (GoMap (sp_env r)))
     @ [(''minecraft_port'', Inr (enc_uint (sp_minecraft_port r))),
       (''ha_required'', Inr (JBool (sp_ha_required r)))])"

definition server_spec_valid :: "server_spec \<Rightarrow> bool" where
  "server_spec_valid r \<longleftrightarrow> f64_finite (sp_cpu_quota r) \<and> distinct (List.map fst (sp_env r))"

definition server_fields :: "server fields" where
  "server_fields =
     [fld ''spec'' (dec_struct server_spec_fields) sv_spec sv_spec_update,
      fld ''node_id'' dec_string sv_node_id sv_node_id_update,
      fld ''state'' dec_uint sv_state sv_state_update,
      fld ''player_count'' dec_uint sv_player_count sv_player_count_update,
      fld ''max_players'' dec_uint sv_max_players sv_max_players_update,
      fld ''started_at'' dec_time sv_started_at sv_started_at_update,
      fld ''container_id'' dec_string sv_container_id sv_container_id_update,
      fld ''host_port'' dec_uint sv_host_port sv_host_port_update]"

definition enc_server :: "server \<Rightarrow> json result" where
  "enc_server r = enc_struct
     ([(''spec'', enc_server_spec (sv_spec r)),
       (''node_id'', Inr (JStr (sv_node_id r))),
       (''state'', Inr (enc_uint (sv_state r))),
       (''player_count'', Inr (enc_uint (sv_player_count r))),
       (''max_players'', Inr (enc_uint (sv_max_players r))),
       (''started_at'', enc_time (sv_started_at r))]
     @ omitempty (sv_container_id r = []) (''container_id'', Inr (JStr (sv_container_id r)))
     @ omitempty (sv_host_port r = 0) (''host_port'', Inr (enc_uint (sv_host_port r))))"

definition server_valid :: "server \<Rightarrow> bool" where
  "server_valid r \<longleftrightarrow> server_spec_valid (sv_spec r) \<and> time_marshals (sv_started_at r)"

definition group_fields :: "group_rec fields" where
  "group_fields =
     [fld ''id'' dec_string g_id g_id_update,
      fld ''name'' dec_string g_name g_name_update,
      fld ''template_id'' dec_string g_template_id g_template_id_update,
      fld ''min_instances'' dec_int g_min_instances g_min_instances_update,
      fld ''max_instances'' dec_int g_max_instances g_max_instances_update,
      fld ''ha_required'' dec_bool g_ha_required g_ha_required_update]"

definition enc_group :: "group_rec \<Rightarrow> json result" where
  "enc_group r = enc_struct
     ([(''id'', Inr (JStr (g_id r))),
       (''name'', Inr (JStr (g_name r))),
       (''template_id'', Inr (JStr (g_template_id r))),
       (''min_instances'', Inr (JInt (g_min_instances r))),
       (''max_instances'', Inr (JInt (g_max_instances r))),
       (''ha_required'', Inr (JBool (g_ha_required r)))])"

definition group_valid :: "group_rec \<Rightarrow> bool" where
  "group_valid r \<longleftrightarrow> int64_ok (g_min_instances r) \<and> int64_ok (g_max_instances r)"

definition template_fields :: "template fields" where
  "template_fields =
     [fld ''id'' dec_string t_id t_id_update,
      fld ''name'' dec_string t_name t_name_update,
      fld ''mode'' dec_string t_mode t_mode_update,
      fld ''image'' dec_string t_image t_image_update,
      fld ''base_volume'' dec_string t_base_volume t_base_volume_update]"

definition enc_template :: "template \<Rightarrow> json result" where
  "enc_template r = enc_struct
     ([(''id'', Inr (JStr (t_id r))),
       (''name'', Inr (JStr (t_name r))),
       (''mode'', Inr (JStr (t_mode r))),
       (''image'', Inr (JStr (t_image r))),
       (''base_volume'', Inr (JStr (t_base_volume r)))])"

definition template_valid :: "template \<Rightarrow> bool" where
  "template_valid r \<longleftrightarrow> True"

definition database_fields :: "database fields" where
  "database_fields =
     [fld ''id'' dec_string d_id d_id_update,
      fld ''name'' dec_string d_name d_name_update,
      fld ''engine'' dec_string d_engine d_engine_update,
      fld ''username'' dec_string d_username d_username_update,
      fld ''host'' dec_string d_host d_host_update,
      fld ''port'' dec_uint d_port d_port_update,
      fld ''created_at'' dec_time d_created_at d_created_at_update,
      fld ''size_bytes'' dec_uint d_size_bytes d_size_bytes_update]"

definition enc_database :: "database \<Rightarrow> json result" where
  "enc_database r = enc_struct
     ([(''id'', Inr (JStr (d_id r))),
       (''name'', Inr (JStr (d_name r))),
       (''engine'', Inr (JStr (d_engine r))),
       (''username'', Inr (JStr (d_username r))),
       (''host'', Inr (JStr (d_host r))),
       (''port'', Inr (enc_uint (d_port r))),
       (''created_at'', enc_time (d_created_at r)),
       (''size_bytes'', Inr (enc_uint (d_size_bytes r)))])"

definition database_valid :: "database \<Rightarrow> bool" where
  "database_valid r \<longleftrightarrow> time_marshals (d_created_at r)"

definition token_fields :: "token fields" where
  "token_fields =
     [fld ''id'' dec_string tk_id tk_id_update,
      fld ''hash'' dec_string tk_hash tk_hash_update,
      fld ''description'' dec_string tk_description tk_description_update,
      fld ''scopes'' dec_strings tk_scopes tk_scopes_update,
      fld ''created_at'' dec_time tk_created_at tk_created_at_update,
      fld ''expires_at'' dec_time tk_expires_at tk_expires_at_update,
      fld ''last_used_at'' dec_time tk_last_used_at tk_last_used_at_update]"

definition enc_token :: "token \<Rightarrow> json result" where
  "enc_token r = enc_struct
     ([(''id'', Inr (JStr (tk_id r))),
       (''hash'', Inr (JStr (tk_hash r))),
       (''description'', Inr (JStr (tk_description r))),
       (''scopes'', Inr (JArr (List.map JStr (tk_scopes r)))),
       (''created_at'', enc_time (tk_created_at r)),
       (''expires_at'', enc_time (tk_expires_at r)),
       (''last_used_at'', enc_time (tk_last_used_at r))])"

definition token_valid :: "token \<Rightarrow> bool" where
  "token_valid r \<longleftrightarrow> time_marshals (tk_created_at r) \<and> time_marshals (tk_expires_at r) \<and> time_marshals (tk_last_used_at r)"

section \<open>Commands\<close>

text \<open>
  The envelope of the Raft log. The payload is kept raw; it is absent (\<open>None\<close>) when the
  member is missing. \<open>wire\<close> is the content of a log entry: \<open>None\<close> for bytes that are not
  JSON.
\<close>

type_synonym wire = "json option"

record command =
  c_type :: string
  c_payload :: "json option"
  c_idem :: string
  c_ts :: int

definition command_zero :: command where
  "command_zero = \<lparr>c_type = [], c_payload = None, c_idem = [], c_ts = 0\<rparr>"

definition CmdNodeUpsert :: string where "CmdNodeUpsert = ''node.upsert''"
definition CmdNodeRemove :: string where "CmdNodeRemove = ''node.remove''"
definition CmdServerUpsert :: string where "CmdServerUpsert = ''server.upsert''"
definition CmdServerRemove :: string where "CmdServerRemove = ''server.remove''"
definition CmdServerSetState :: string where "CmdServerSetState = ''server.set_state''"
definition CmdServerSetHost :: string where "CmdServerSetHost = ''server.set_host''"
definition CmdGroupUpsert :: string where "CmdGroupUpsert = ''group.upsert''"
definition CmdGroupRemove :: string where "CmdGroupRemove = ''group.remove''"
definition CmdTemplateUpsert :: string where "CmdTemplateUpsert = ''template.upsert''"
definition CmdTemplateRemove :: string where "CmdTemplateRemove = ''template.remove''"
definition CmdDatabaseUpsert :: string where "CmdDatabaseUpsert = ''database.upsert''"
definition CmdDatabaseRemove :: string where "CmdDatabaseRemove = ''database.remove''"
definition CmdTokenUpsert :: string where "CmdTokenUpsert = ''token.upsert''"
definition CmdTokenRemove :: string where "CmdTokenRemove = ''token.remove''"
definition CmdHeartbeat :: string where "CmdHeartbeat = ''node.heartbeat''"

lemmas cmd_defs [go_eval] = CmdNodeUpsert_def CmdNodeRemove_def CmdServerUpsert_def
  CmdServerRemove_def CmdServerSetState_def CmdServerSetHost_def CmdGroupUpsert_def
  CmdGroupRemove_def CmdTemplateUpsert_def CmdTemplateRemove_def CmdDatabaseUpsert_def
  CmdDatabaseRemove_def CmdTokenUpsert_def CmdTokenRemove_def CmdHeartbeat_def

definition dec_raw :: "json option dec" where
  "dec_raw j p = Inr (Some j)"

definition command_fields :: "command fields" where
  "command_fields =
     [fld ''type'' dec_string c_type c_type_update,
      fld ''payload'' dec_raw c_payload c_payload_update,
      fld ''idem'' dec_string c_idem c_idem_update,
      fld ''ts'' dec_int c_ts c_ts_update]"

definition decode :: "wire \<Rightarrow> command result" where
  "decode w = (case w of None \<Rightarrow> Inl ErrJson
     | Some j \<Rightarrow> dec_struct command_fields j command_zero)"

text \<open>\<open>Encode\<close>: the payload is given as what marshalling it returned.\<close>

definition encode :: "string \<Rightarrow> json result \<Rightarrow> string \<Rightarrow> int \<Rightarrow> wire result" where
  "encode t payload idem ts =
     rbind payload (\<lambda>raw. rbind (enc_struct
       ([(''type'', Inr (JStr t)), (''payload'', Inr raw)]
        @ omitempty (idem = []) (''idem'', Inr (JStr idem))
        @ [(''ts'', Inr (JInt ts))])) (\<lambda>j. Inr (Some j)))"

text \<open>The payload \<open>map[string]string{"id": id}\<close> of the remove commands.\<close>

definition enc_id :: "string \<Rightarrow> json result" where
  "enc_id i = Inr (JObj [(''id'', JStr i)])"

section \<open>Round trips\<close>

lemma enc_valid_simps:
  "f64_finite x \<Longrightarrow> enc_f64 x = Inr (JFlt x)"
  "time_marshals t \<Longrightarrow> enc_time t = Inr (JTime t)"
  by (simp_all add: enc_f64_def enc_time_def)

lemmas struct_simps = fld_def enc_struct_def omitempty_def enc_valid_simps

interpretation resources_codec: codec enc_resources "dec_struct resources_fields" resources_zero resources_valid
proof unfold_locales
  fix r j
  show "resources_valid r \<Longrightarrow> \<exists>j. enc_resources r = Inr j"
    by (simp add: resources_valid_def enc_resources_def struct_simps)
  show "enc_resources r = Inr j \<Longrightarrow> j \<noteq> JNull"
    by (auto simp: enc_resources_def enc_struct_def rbind_eq_Inr)
  show "resources_valid r \<Longrightarrow> enc_resources r = Inr j \<Longrightarrow> dec_struct resources_fields j resources_zero = Inr r"
    by (auto simp: resources_valid_def enc_resources_def resources_fields_def resources_zero_def struct_simps)
qed

interpretation group_codec: codec enc_group "dec_struct group_fields" group_zero group_valid
proof unfold_locales
  fix r j
  show "group_valid r \<Longrightarrow> \<exists>j. enc_group r = Inr j"
    by (simp add: group_valid_def enc_group_def struct_simps)
  show "enc_group r = Inr j \<Longrightarrow> j \<noteq> JNull"
    by (auto simp: enc_group_def enc_struct_def rbind_eq_Inr)
  show "group_valid r \<Longrightarrow> enc_group r = Inr j \<Longrightarrow> dec_struct group_fields j group_zero = Inr r"
    by (auto simp: group_valid_def enc_group_def group_fields_def group_zero_def struct_simps)
qed

interpretation template_codec: codec enc_template "dec_struct template_fields" template_zero template_valid
proof unfold_locales
  fix r j
  show "template_valid r \<Longrightarrow> \<exists>j. enc_template r = Inr j"
    by (simp add: template_valid_def enc_template_def struct_simps)
  show "enc_template r = Inr j \<Longrightarrow> j \<noteq> JNull"
    by (auto simp: enc_template_def enc_struct_def rbind_eq_Inr)
  show "template_valid r \<Longrightarrow> enc_template r = Inr j \<Longrightarrow> dec_struct template_fields j template_zero = Inr r"
    by (auto simp: template_valid_def enc_template_def template_fields_def template_zero_def struct_simps)
qed

interpretation database_codec: codec enc_database "dec_struct database_fields" database_zero database_valid
proof unfold_locales
  fix r j
  show "database_valid r \<Longrightarrow> \<exists>j. enc_database r = Inr j"
    by (simp add: database_valid_def enc_database_def struct_simps)
  show "enc_database r = Inr j \<Longrightarrow> j \<noteq> JNull"
    by (auto simp: enc_database_def enc_struct_def rbind_eq_Inr)
  show "database_valid r \<Longrightarrow> enc_database r = Inr j \<Longrightarrow> dec_struct database_fields j database_zero = Inr r"
    by (auto simp: database_valid_def enc_database_def database_fields_def database_zero_def struct_simps)
qed

interpretation token_codec: codec enc_token "dec_struct token_fields" token_zero token_valid
proof unfold_locales
  fix r j
  show "token_valid r \<Longrightarrow> \<exists>j. enc_token r = Inr j"
    by (simp add: token_valid_def enc_token_def struct_simps)
  show "enc_token r = Inr j \<Longrightarrow> j \<noteq> JNull"
    by (auto simp: enc_token_def enc_struct_def rbind_eq_Inr)
  show "token_valid r \<Longrightarrow> enc_token r = Inr j \<Longrightarrow> dec_struct token_fields j token_zero = Inr r"
    by (auto simp: token_valid_def enc_token_def token_fields_def token_zero_def struct_simps)
qed

interpretation node_codec: codec enc_node "dec_struct node_fields" node_zero node_valid
proof unfold_locales
  fix r :: node and j
  { assume v: "node_valid r"
    then obtain jr where jr: "enc_resources (n_resources r) = Inr jr"
      and dr: "dec_struct resources_fields jr resources_zero = Inr (n_resources r)"
      using resources_codec.enc_valid resources_codec.dec_enc
      unfolding node_valid_def resources_valid_def by blast
    with v show "\<exists>j. enc_node r = Inr j"
      by (simp add: node_valid_def enc_node_def struct_simps)
    from jr dr v show "enc_node r = Inr j \<Longrightarrow> dec_struct node_fields j node_zero = Inr r"
      by (auto simp: node_valid_def enc_node_def node_fields_def node_zero_def struct_simps) }
  show "enc_node r = Inr j \<Longrightarrow> j \<noteq> JNull"
    by (auto simp: enc_node_def enc_struct_def rbind_eq_Inr)
qed

interpretation server_spec_codec:
  codec enc_server_spec "dec_struct server_spec_fields" server_spec_zero server_spec_valid
proof unfold_locales
  fix r :: server_spec and j
  { assume v: "server_spec_valid r"
    obtain je where je: "enc_map (\<lambda>s. Inr (JStr s)) (GoMap (sp_env r)) = Inr je"
      using enc_env_total by blast
    with v have de: "dec_env je [] = Inr (sp_env r)"
      by (intro dec_enc_env) (simp_all add: server_spec_valid_def)
    from je v show "\<exists>j. enc_server_spec r = Inr j"
      by (simp add: server_spec_valid_def enc_server_spec_def struct_simps del: enc_map.simps)
    from je de v show "enc_server_spec r = Inr j
        \<Longrightarrow> dec_struct server_spec_fields j server_spec_zero = Inr r"
      by (auto simp: server_spec_valid_def enc_server_spec_def server_spec_fields_def
          server_spec_zero_def struct_simps split: if_splits simp del: enc_map.simps) }
  show "enc_server_spec r = Inr j \<Longrightarrow> j \<noteq> JNull"
    by (auto simp: enc_server_spec_def enc_struct_def rbind_eq_Inr)
qed

interpretation server_codec: codec enc_server "dec_struct server_fields" server_zero server_valid
proof unfold_locales
  fix r :: server and j
  { assume v: "server_valid r"
    then obtain js where js: "enc_server_spec (sv_spec r) = Inr js"
      and ds: "dec_struct server_spec_fields js server_spec_zero = Inr (sv_spec r)"
      using server_spec_codec.enc_valid server_spec_codec.dec_enc
      unfolding server_valid_def by blast
    with v show "\<exists>j. enc_server r = Inr j"
      by (simp add: server_valid_def enc_server_def struct_simps)
    from js ds v show "enc_server r = Inr j \<Longrightarrow> dec_struct server_fields j server_zero = Inr r"
      by (auto simp: server_valid_def enc_server_def server_fields_def server_zero_def
          struct_simps split: if_splits) }
  show "enc_server r = Inr j \<Longrightarrow> j \<noteq> JNull"
    by (auto simp: enc_server_def enc_struct_def rbind_eq_Inr)
qed

text \<open>The envelope: decoding what \<open>Encode\<close> wrote gives its four arguments back.\<close>

lemma decode_encode:
  assumes "encode t (Inr p) idem ts = Inr w" and "int64_ok ts"
  shows "decode w = Inr \<lparr>c_type = t, c_payload = Some p, c_idem = idem, c_ts = ts\<rparr>"
  using assms by (auto simp: encode_def decode_def command_fields_def command_zero_def dec_raw_def
      struct_simps split: if_splits)

lemma encode_total: "\<exists>w. encode t (Inr p) idem ts = Inr w"
  by (simp add: encode_def struct_simps)

lemma encode_payload_error: "encode t (Inl e) idem ts = Inl e"
  by (simp add: encode_def)

end
