(* ===== verification/RaftFsm.thy ===== *)
theory RaftFsm
  imports Codec
begin

text \<open>
  daemon/internal/raftfsm/fsm.go: the replicated state machine. Its tables are Go maps
  (a nil table can come from \<open>Restore\<close>), \<open>fsm_apply\<close> is \<open>Apply\<close> on one log entry (\<open>None\<close>
  is a panic), events go to bounded channels, snapshots are JSON values.
\<close>

section \<open>State\<close>

datatype ev_payload = EvNode node | EvServer server | EvGroup group_rec | EvTemplate template
  | EvDatabase database | EvId string

record event =
  ev_kind :: string
  ev_payload :: ev_payload

record chan =
  ch_cap :: nat
  ch_buf :: "event list"

record fsm =
  f_nodes :: "node gomap"
  f_servers :: "server gomap"
  f_groups :: "group_rec gomap"
  f_templates :: "template gomap"
  f_databases :: "database gomap"
  f_tokens :: "token gomap"
  f_idem :: "int gomap"
  f_subscribers :: "chan list"

definition new_fsm :: fsm where
  "new_fsm = \<lparr>f_nodes = mempty, f_servers = mempty, f_groups = mempty, f_templates = mempty,
     f_databases = mempty, f_tokens = mempty, f_idem = mempty, f_subscribers = []\<rparr>"

section \<open>Events\<close>

definition subscribe :: "nat \<Rightarrow> fsm \<Rightarrow> fsm" where
  "subscribe n s = s\<lparr>f_subscribers := f_subscribers s @ [\<lparr>ch_cap = n, ch_buf = []\<rparr>]\<rparr>"

text \<open>The non-blocking send of \<open>publish\<close>: a full channel drops the event.\<close>

definition chan_send :: "event \<Rightarrow> chan \<Rightarrow> chan" where
  "chan_send ev c = (if length (ch_buf c) < ch_cap c then c\<lparr>ch_buf := ch_buf c @ [ev]\<rparr> else c)"

definition publish :: "string \<Rightarrow> ev_payload \<Rightarrow> fsm \<Rightarrow> fsm" where
  "publish kind p s =
     s\<lparr>f_subscribers := map (chan_send \<lparr>ev_kind = kind, ev_payload = p\<rparr>) (f_subscribers s)\<rparr>"

text \<open>A receiver takes the oldest event of its channel.\<close>

definition receive :: "nat \<Rightarrow> fsm \<Rightarrow> event option \<times> fsm" where
  "receive i s =
     (if i < length (f_subscribers s) then
        (case ch_buf (f_subscribers s ! i) of
           [] \<Rightarrow> (None, s)
         | ev # evs \<Rightarrow> (Some ev, s\<lparr>f_subscribers :=
             (f_subscribers s)[i := (f_subscribers s ! i)\<lparr>ch_buf := evs\<rparr>]\<rparr>))
      else (None, s))"

section \<open>Apply\<close>

record id_payload =
  ip_id :: string

record set_state_payload =
  ss_id :: string
  ss_state :: server_state

record set_host_payload =
  sh_id :: string
  sh_node_id :: string
  sh_container_id :: string
  sh_host_port :: u32

definition id_fields :: "id_payload fields" where
  "id_fields = [fld ''id'' dec_string ip_id ip_id_update]"

definition set_state_fields :: "set_state_payload fields" where
  "set_state_fields =
     [fld ''id'' dec_string ss_id ss_id_update,
      fld ''state'' dec_uint ss_state ss_state_update]"

definition set_host_fields :: "set_host_payload fields" where
  "set_host_fields =
     [fld ''id'' dec_string sh_id sh_id_update,
      fld ''node_id'' dec_string sh_node_id sh_node_id_update,
      fld ''container_id'' dec_string sh_container_id sh_container_id_update,
      fld ''host_port'' dec_uint sh_host_port sh_host_port_update]"

text \<open>\<open>json.Unmarshal\<close> of a raw payload; a missing one is empty input, an error.\<close>

definition unmarshal :: "'r fields \<Rightarrow> json option \<Rightarrow> 'r \<Rightarrow> 'r result" where
  "unmarshal fs p z = (case p of None \<Rightarrow> Inl ErrJson | Some j \<Rightarrow> dec_struct fs j z)"

type_synonym applied = "(err \<times> fsm) option"

text \<open>The upsert cases: decode, store under the record's id, publish.\<close>

definition upsert_with ::
  "'r result \<Rightarrow> ('r \<Rightarrow> string) \<Rightarrow> (fsm \<Rightarrow> 'r gomap) \<Rightarrow> ('r gomap \<Rightarrow> fsm \<Rightarrow> fsm)
    \<Rightarrow> ('r \<Rightarrow> fsm \<Rightarrow> fsm) \<Rightarrow> fsm \<Rightarrow> applied" where
  "upsert_with d key rd wr pub s =
     (case d of
        Inl e \<Rightarrow> Some (Some e, s)
      | Inr r \<Rightarrow> (case mput (key r) r (rd s) of
            None \<Rightarrow> None
          | Some m \<Rightarrow> Some (None, pub r (wr m s))))"

text \<open>The remove cases: decode the id, delete, publish.\<close>

definition remove_with ::
  "json option \<Rightarrow> (string \<Rightarrow> fsm \<Rightarrow> fsm) \<Rightarrow> (string \<Rightarrow> fsm \<Rightarrow> fsm) \<Rightarrow> fsm \<Rightarrow> applied" where
  "remove_with p del pub s =
     (case unmarshal id_fields p \<lparr>ip_id = []\<rparr> of
        Inl e \<Rightarrow> Some (Some e, s)
      | Inr q \<Rightarrow> Some (None, pub (ip_id q) (del (ip_id q) s)))"

text \<open>The cases that change a server in place and only if it exists.\<close>

definition adjust_server :: "string \<Rightarrow> string \<Rightarrow> (server \<Rightarrow> server) \<Rightarrow> fsm \<Rightarrow> applied" where
  "adjust_server kind i g s =
     (case mget (f_servers s) i of
        None \<Rightarrow> Some (None, s)
      | Some srv \<Rightarrow> (case mput i (g srv) (f_servers s) of
            None \<Rightarrow> None
          | Some m \<Rightarrow> Some (None, publish kind (EvServer (g srv)) (s\<lparr>f_servers := m\<rparr>))))"

definition apply_command :: "command \<Rightarrow> fsm \<Rightarrow> applied" where
  "apply_command c s =
     (let t = c_type c; p = c_payload c in
      if t = CmdNodeUpsert \<or> t = CmdHeartbeat then
        upsert_with (unmarshal node_fields p node_zero) n_id f_nodes
          (\<lambda>m s. s\<lparr>f_nodes := m\<rparr>) (\<lambda>n. publish t (EvNode n)) s
      else if t = CmdNodeRemove then
        remove_with p (\<lambda>i s. s\<lparr>f_nodes := mdel i (f_nodes s)\<rparr>) (\<lambda>i. publish t (EvId i)) s
      else if t = CmdServerUpsert then
        upsert_with (unmarshal server_fields p server_zero) (\<lambda>v. sp_id (sv_spec v)) f_servers
          (\<lambda>m s. s\<lparr>f_servers := m\<rparr>) (\<lambda>v. publish t (EvServer v)) s
      else if t = CmdServerRemove then
        remove_with p (\<lambda>i s. s\<lparr>f_servers := mdel i (f_servers s)\<rparr>) (\<lambda>i. publish t (EvId i)) s
      else if t = CmdServerSetState then
        (case unmarshal set_state_fields p \<lparr>ss_id = [], ss_state = 0\<rparr> of
           Inl e \<Rightarrow> Some (Some e, s)
         | Inr q \<Rightarrow> adjust_server t (ss_id q) (\<lambda>v. v\<lparr>sv_state := ss_state q\<rparr>) s)
      else if t = CmdServerSetHost then
        (case unmarshal set_host_fields p
            \<lparr>sh_id = [], sh_node_id = [], sh_container_id = [], sh_host_port = 0\<rparr> of
           Inl e \<Rightarrow> Some (Some e, s)
         | Inr q \<Rightarrow> adjust_server t (sh_id q)
             (\<lambda>v. v\<lparr>sv_node_id := sh_node_id q, sv_container_id := sh_container_id q,
                    sv_host_port := sh_host_port q\<rparr>) s)
      else if t = CmdGroupUpsert then
        upsert_with (unmarshal group_fields p group_zero) g_id f_groups
          (\<lambda>m s. s\<lparr>f_groups := m\<rparr>) (\<lambda>g. publish t (EvGroup g)) s
      else if t = CmdGroupRemove then
        remove_with p (\<lambda>i s. s\<lparr>f_groups := mdel i (f_groups s)\<rparr>) (\<lambda>i. publish t (EvId i)) s
      else if t = CmdTemplateUpsert then
        upsert_with (unmarshal template_fields p template_zero) t_id f_templates
          (\<lambda>m s. s\<lparr>f_templates := m\<rparr>) (\<lambda>v. publish t (EvTemplate v)) s
      else if t = CmdTemplateRemove then
        remove_with p (\<lambda>i s. s\<lparr>f_templates := mdel i (f_templates s)\<rparr>) (\<lambda>i. publish t (EvId i)) s
      else if t = CmdDatabaseUpsert then
        upsert_with (unmarshal database_fields p database_zero) d_id f_databases
          (\<lambda>m s. s\<lparr>f_databases := m\<rparr>) (\<lambda>v. publish t (EvDatabase v)) s
      else if t = CmdDatabaseRemove then
        remove_with p (\<lambda>i s. s\<lparr>f_databases := mdel i (f_databases s)\<rparr>) (\<lambda>i. publish t (EvId i)) s
      else if t = CmdTokenUpsert then
        upsert_with (unmarshal token_fields p token_zero) tk_id f_tokens
          (\<lambda>m s. s\<lparr>f_tokens := m\<rparr>) (\<lambda>_ s. s) s
      else if t = CmdTokenRemove then
        remove_with p (\<lambda>i s. s\<lparr>f_tokens := mdel i (f_tokens s)\<rparr>) (\<lambda>_ s. s) s
      else Some (Some (ErrUnknownCommand t), s))"

definition fsm_apply :: "u64 \<Rightarrow> wire \<Rightarrow> fsm \<Rightarrow> applied" where
  "fsm_apply idx w s =
     (case decode w of
        Inl e \<Rightarrow> Some (Some e, s)
      | Inr c \<Rightarrow>
          if c_idem c \<noteq> [] then
            (case mget (f_idem s) (c_idem c) of
               Some _ \<Rightarrow> Some (None, s)
             | None \<Rightarrow>
                 (case mput (c_idem c) (sint idx) (f_idem s) of
                    None \<Rightarrow> None
                  | Some m \<Rightarrow> apply_command c (s\<lparr>f_idem := m\<rparr>)))
          else apply_command c s)"

section \<open>Read accessors\<close>

definition fsm_node :: "string \<Rightarrow> fsm \<Rightarrow> node option" where
  "fsm_node i s = mget (f_nodes s) i"

definition fsm_nodes :: "order \<Rightarrow> fsm \<Rightarrow> node list" where
  "fsm_nodes ord s = mvalues ord (f_nodes s)"

definition fsm_server :: "string \<Rightarrow> fsm \<Rightarrow> server option" where
  "fsm_server i s = mget (f_servers s) i"

definition fsm_servers :: "order \<Rightarrow> fsm \<Rightarrow> server list" where
  "fsm_servers ord s = mvalues ord (f_servers s)"

definition servers_on_node :: "order \<Rightarrow> string \<Rightarrow> fsm \<Rightarrow> server list" where
  "servers_on_node ord i s = filter (\<lambda>v. sv_node_id v = i) (mvalues ord (f_servers s))"

definition fsm_groups :: "order \<Rightarrow> fsm \<Rightarrow> group_rec list" where
  "fsm_groups ord s = mvalues ord (f_groups s)"

definition fsm_template :: "string \<Rightarrow> fsm \<Rightarrow> template option" where
  "fsm_template i s = mget (f_templates s) i"

definition fsm_databases :: "order \<Rightarrow> fsm \<Rightarrow> database list" where
  "fsm_databases ord s = mvalues ord (f_databases s)"

definition fsm_token :: "string \<Rightarrow> fsm \<Rightarrow> token option" where
  "fsm_token i s = mget (f_tokens s) i"

definition fsm_tokens :: "order \<Rightarrow> fsm \<Rightarrow> token list" where
  "fsm_tokens ord s = mvalues ord (f_tokens s)"

section \<open>Snapshots\<close>

record snapshot =
  sn_nodes :: "node gomap"
  sn_servers :: "server gomap"
  sn_groups :: "group_rec gomap"
  sn_templates :: "template gomap"
  sn_databases :: "database gomap"
  sn_tokens :: "token gomap"
  sn_idem :: "int gomap"
  sn_taken :: int

text \<open>\<open>copyMap\<close>: a fresh map, never nil, with copies of the entries.\<close>

definition copy_map :: "'v gomap \<Rightarrow> 'v gomap" where
  "copy_map m = GoMap (entries m)"

definition take_snapshot :: "int \<Rightarrow> fsm \<Rightarrow> snapshot" where
  "take_snapshot now s =
     \<lparr>sn_nodes = copy_map (f_nodes s), sn_servers = copy_map (f_servers s),
      sn_groups = copy_map (f_groups s), sn_templates = copy_map (f_templates s),
      sn_databases = copy_map (f_databases s), sn_tokens = copy_map (f_tokens s),
      sn_idem = copy_map (f_idem s), sn_taken = now\<rparr>"

definition enc_snapshot :: "snapshot \<Rightarrow> json result" where
  "enc_snapshot r = enc_struct
     [(''nodes'', enc_map enc_node (sn_nodes r)),
      (''servers'', enc_map enc_server (sn_servers r)),
      (''groups'', enc_map enc_group (sn_groups r)),
      (''templates'', enc_map enc_template (sn_templates r)),
      (''databases'', enc_map enc_database (sn_databases r)),
      (''tokens'', enc_map enc_token (sn_tokens r)),
      (''idem'', enc_map (\<lambda>i. Inr (JInt i)) (sn_idem r)),
      (''taken'', Inr (JInt (sn_taken r)))]"

definition snapshot_fields :: "snapshot fields" where
  "snapshot_fields =
     [fld ''nodes'' (dec_map (dec_ptr (dec_struct node_fields)) node_zero) sn_nodes sn_nodes_update,
      fld ''servers'' (dec_map (dec_ptr (dec_struct server_fields)) server_zero)
        sn_servers sn_servers_update,
      fld ''groups'' (dec_map (dec_ptr (dec_struct group_fields)) group_zero)
        sn_groups sn_groups_update,
      fld ''templates'' (dec_map (dec_ptr (dec_struct template_fields)) template_zero)
        sn_templates sn_templates_update,
      fld ''databases'' (dec_map (dec_ptr (dec_struct database_fields)) database_zero)
        sn_databases sn_databases_update,
      fld ''tokens'' (dec_map (dec_struct token_fields) token_zero) sn_tokens sn_tokens_update,
      fld ''idem'' (dec_map dec_int 0) sn_idem sn_idem_update,
      fld ''taken'' dec_int sn_taken sn_taken_update]"

definition snapshot_zero :: snapshot where
  "snapshot_zero = \<lparr>sn_nodes = NilMap, sn_servers = NilMap, sn_groups = NilMap,
     sn_templates = NilMap, sn_databases = NilMap, sn_tokens = NilMap, sn_idem = NilMap,
     sn_taken = 0\<rparr>"

definition fsm_restore :: "wire \<Rightarrow> fsm \<Rightarrow> err \<times> fsm" where
  "fsm_restore w s =
     (case (case w of None \<Rightarrow> Inl ErrJson | Some j \<Rightarrow> dec_struct snapshot_fields j snapshot_zero) of
        Inl e \<Rightarrow> (Some e, s)
      | Inr sn \<Rightarrow> (None, s\<lparr>f_nodes := sn_nodes sn, f_servers := sn_servers sn,
          f_groups := sn_groups sn, f_templates := sn_templates sn,
          f_databases := sn_databases sn, f_tokens := sn_tokens sn, f_idem := sn_idem sn\<rparr>))"

section \<open>The side cache\<close>

text \<open>
  \<open>FlushCache\<close> writes a snapshot to a temporary file through \<open>Persist\<close> and renames it.
  A directory maps a path to the content of the file (\<open>None\<close>: empty or partly written);
  \<open>os_env\<close> says which system calls fail. Closing an \<open>os.File\<close> a second time is an error.
\<close>

type_synonym disk = "string \<Rightarrow> json option option"

record os_env =
  os_create_fails :: bool
  os_write_fails :: bool
  os_rename_fails :: bool

record file_sink =
  fs_path :: string
  fs_closed :: bool

definition err_closed :: go_error where
  "err_closed = Errorf ''file already closed''"

definition file_close :: "file_sink \<Rightarrow> err \<times> file_sink" where
  "file_close f = (if fs_closed f then (Some err_closed, f) else (None, f\<lparr>fs_closed := True\<rparr>))"

text \<open>\<open>Persist\<close> on a \<open>fileSink\<close>, whose \<open>Cancel\<close> and \<open>Close\<close> both close the file.\<close>

definition persist_file :: "os_env \<Rightarrow> snapshot \<Rightarrow> file_sink \<Rightarrow> disk \<Rightarrow> err \<times> file_sink \<times> disk" where
  "persist_file os sn f d =
     (case enc_snapshot sn of
        Inl e \<Rightarrow> (Some e, snd (file_close f), d)
      | Inr j \<Rightarrow>
          if os_write_fails os then (Some (ErrExt 1), snd (file_close f), d)
          else (case file_close f of (e, f') \<Rightarrow> (e, f', d(fs_path f \<mapsto> Some j))))"

definition flush_cache :: "os_env \<Rightarrow> int \<Rightarrow> string \<Rightarrow> fsm \<Rightarrow> disk \<Rightarrow> err \<times> disk" where
  "flush_cache os now dir s d =
     (let tmp = dir @ ''/fsm.snap.tmp''; final = dir @ ''/fsm.snap'' in
      if os_create_fails os then (Some (ErrExt 0), d)
      else (case persist_file os (take_snapshot now s) \<lparr>fs_path = tmp, fs_closed = False\<rparr>
              (d(tmp \<mapsto> None)) of
          (Some e, f, d') \<Rightarrow> (Some e, d'(tmp := None))
        | (None, f, d') \<Rightarrow>
            (case file_close f of
               (Some e, f') \<Rightarrow> (Some e, d')
             | (None, f') \<Rightarrow>
                 if os_rename_fails os then (Some (ErrExt 2), d')
                 else (None, (d'(final := d' tmp))(tmp := None)))))"

end
