(* ===== verification/RaftFsmProps.thy ===== *)
theory RaftFsmProps
  imports RaftFsm
begin

text \<open>
  What the state machine promises: its invariant \<open>fsm_ok\<close> and that every operation keeps
  it, that a committed upsert or remove is what later reads see (the locale
  \<open>replicated_table\<close>, once per table), idempotency keys, error branches, events, and that
  a snapshot stands for the log prefix it compacts.
\<close>

section \<open>JSON values that a text can denote\<close>

fun json_ok :: "json \<Rightarrow> bool" where
  "json_ok (JFlt x) = f64_finite x"
| "json_ok (JTime t) = time_marshals t"
| "json_ok (JArr js) = (\<forall>j\<in>set js. json_ok j)"
| "json_ok (JObj kvs) = (\<forall>kv\<in>set kvs. json_ok (snd kv))"
| "json_ok j = True"

definition wire_ok :: "wire \<Rightarrow> bool" where
  "wire_ok w \<longleftrightarrow> (\<forall>j. w = Some j \<longrightarrow> json_ok j)"

lemma f64_of_int_finite:
  assumes "f64_of_int i = Some x"
  shows "f64_finite x"
proof -
  define p where "p = f64_of_nat (nat \<bar>i\<bar>)"
  define s :: nat where "s = (if i < 0 then 2 ^ 63 else 0)"
  from assms have p: "p < 2047 * 2 ^ 52" and x: "x = word_of_nat (s + p)"
    by (auto simp: f64_of_int_def Let_def p_def s_def split: if_splits)
  have "s + p < 2 ^ 64" using p by (simp add: s_def)
  then have u: "unat x = s + p"
    unfolding x unsigned_of_nat by (simp add: take_bit_nat_eq_self)
  have "(s + p) div 2 ^ 52 = s div 2 ^ 52 + p div 2 ^ 52"
    by (simp add: s_def div_plus_div_distrib_dvd_left)
  moreover have "p div 2 ^ 52 < 2047" using p by (simp add: div_less_iff_less_mult)
  moreover have "s div 2 ^ 52 = 0 \<or> s div 2 ^ 52 = 2048" by (simp add: s_def)
  ultimately have "(s + p) div 2 ^ 52 mod 2048 < 2047" by auto
  then show ?thesis unfolding f64_finite_def u by linarith
qed

lemma dec_f64_finite: "dec_f64 j x = Inr y \<Longrightarrow> json_ok j \<Longrightarrow> f64_finite x \<Longrightarrow> f64_finite y"
  by (cases j) (auto split: option.splits dest: f64_of_int_finite)

lemma dec_time_marshals:
  "dec_time j t = Inr u \<Longrightarrow> json_ok j \<Longrightarrow> time_marshals t \<Longrightarrow> time_marshals u"
  by (cases j) auto

lemma dec_int_ok: "dec_int j n = Inr m \<Longrightarrow> int64_ok n \<Longrightarrow> int64_ok m"
  by (cases j) (auto split: if_splits)

lemma dec_entries_distinct:
  "dec_entries d z kvs m = Inr m' \<Longrightarrow> distinct (map fst m) \<Longrightarrow> distinct (map fst m')"
  by (induction kvs arbitrary: m) (auto simp: rbind_eq_Inr distinct_update)

lemma dec_env_distinct:
  "dec_env j e = Inr e' \<Longrightarrow> distinct (map fst e) \<Longrightarrow> distinct (map fst e')"
  by (cases j) (auto simp: dec_env_def rbind_eq_Inr dest: dec_entries_distinct)

text \<open>A property every field's decoder keeps is kept by the struct's decoder.\<close>

lemma dec_members_inv:
  assumes "dec_members fs kvs r = Inr r'" and "P r" and "\<forall>kv\<in>set kvs. json_ok (snd kv)"
    and step: "\<And>n f j r r'. (n, f) \<in> set fs \<Longrightarrow> f j r = Inr r' \<Longrightarrow> json_ok j \<Longrightarrow> P r \<Longrightarrow> P r'"
  shows "P r'"
  using assms(1-3)
proof (induction kvs arbitrary: r)
  case Nil
  then show ?case by simp
next
  case (Cons kv kvs)
  obtain k j where kv: "kv = (k, j)" by (cases kv)
  show ?case
  proof (cases "map_of fs (to_lower k)")
    case None
    with Cons kv show ?thesis by simp
  next
    case (Some f)
    with Cons.prems(1) kv obtain r1 where "f j r = Inr r1" "dec_members fs kvs r1 = Inr r'"
      by (auto simp: rbind_eq_Inr)
    moreover from this(1) have "P r1"
      using step [OF map_of_SomeD [OF Some]] Cons.prems kv by auto
    ultimately show ?thesis using Cons.IH Cons.prems by auto
  qed
qed

lemma dec_struct_inv:
  assumes "dec_struct fs j r = Inr r'" and "P r" and "json_ok j"
    and "\<And>n f j r r'. (n, f) \<in> set fs \<Longrightarrow> f j r = Inr r' \<Longrightarrow> json_ok j \<Longrightarrow> P r \<Longrightarrow> P r'"
  shows "P r'"
  using assms by (cases j) (auto intro: dec_members_inv)

lemma time_marshals_0 [simp]: "time_marshals 0"
  by (simp add: time_marshals_def second_def)

lemma int64_ok_0 [simp]: "int64_ok 0"
  by (simp add: int64_ok_def)

lemmas dec_field_ok = dec_f64_finite dec_time_marshals dec_int_ok dec_env_distinct

lemma dec_resources_valid:
  "dec_struct resources_fields j r = Inr r' \<Longrightarrow> json_ok j \<Longrightarrow> resources_valid r \<Longrightarrow> resources_valid r'"
  by (erule dec_struct_inv [where P = resources_valid], assumption, assumption)
    (auto simp: resources_fields_def fld_def rbind_eq_Inr resources_valid_def dest!: dec_field_ok)

lemma dec_node_valid:
  "dec_struct node_fields j r = Inr r' \<Longrightarrow> json_ok j \<Longrightarrow> node_valid r \<Longrightarrow> node_valid r'"
  by (erule dec_struct_inv [where P = node_valid], assumption, assumption)
    (auto simp: node_fields_def fld_def rbind_eq_Inr node_valid_def dest!: dec_field_ok dec_resources_valid simp flip: resources_valid_def)

lemma dec_server_spec_valid:
  "dec_struct server_spec_fields j r = Inr r' \<Longrightarrow> json_ok j \<Longrightarrow> server_spec_valid r
    \<Longrightarrow> server_spec_valid r'"
  by (erule dec_struct_inv [where P = server_spec_valid], assumption, assumption)
    (auto simp: server_spec_fields_def fld_def rbind_eq_Inr server_spec_valid_def dest!: dec_field_ok)

lemma dec_server_valid:
  "dec_struct server_fields j r = Inr r' \<Longrightarrow> json_ok j \<Longrightarrow> server_valid r \<Longrightarrow> server_valid r'"
  by (erule dec_struct_inv [where P = server_valid], assumption, assumption)
    (auto simp: server_fields_def fld_def rbind_eq_Inr server_valid_def dest!: dec_field_ok dec_server_spec_valid)

lemma dec_group_valid:
  "dec_struct group_fields j r = Inr r' \<Longrightarrow> json_ok j \<Longrightarrow> group_valid r \<Longrightarrow> group_valid r'"
  by (erule dec_struct_inv [where P = group_valid], assumption, assumption)
    (auto simp: group_fields_def fld_def rbind_eq_Inr group_valid_def dest!: dec_field_ok)

lemma dec_database_valid:
  "dec_struct database_fields j r = Inr r' \<Longrightarrow> json_ok j \<Longrightarrow> database_valid r \<Longrightarrow> database_valid r'"
  by (erule dec_struct_inv [where P = database_valid], assumption, assumption)
    (auto simp: database_fields_def fld_def rbind_eq_Inr database_valid_def dest!: dec_field_ok)

lemma dec_token_valid:
  "dec_struct token_fields j r = Inr r' \<Longrightarrow> json_ok j \<Longrightarrow> token_valid r \<Longrightarrow> token_valid r'"
  by (erule dec_struct_inv [where P = token_valid], assumption, assumption)
    (auto simp: token_fields_def fld_def rbind_eq_Inr token_valid_def dest!: dec_field_ok)

lemma zero_valid [simp]:
  "node_valid node_zero" "server_valid server_zero" "group_valid group_zero"
  "template_valid t" "database_valid database_zero" "token_valid token_zero"
  by (simp_all add: zero_defs node_valid_def server_valid_def server_spec_valid_def
      group_valid_def template_valid_def database_valid_def token_valid_def)

lemmas dec_valid = dec_node_valid dec_server_valid dec_group_valid dec_database_valid dec_token_valid

text \<open>The payload of an entry that came off the wire is such a value too.\<close>

lemma decode_payload_ok:
  assumes "decode w = Inr c" and "wire_ok w" and "c_payload c = Some p"
  shows "json_ok p"
proof -
  obtain j where j: "w = Some j" "dec_struct command_fields j command_zero = Inr c"
    using assms(1) by (auto simp: decode_def split: option.splits)
  have "\<forall>p. c_payload c = Some p \<longrightarrow> json_ok p"
    by (rule dec_struct_inv [OF j(2), where P = "\<lambda>c. \<forall>p. c_payload c = Some p \<longrightarrow> json_ok p"])
      (use assms(2) j(1) in \<open>auto simp: command_zero_def wire_ok_def command_fields_def fld_def
         rbind_eq_Inr dec_raw_def\<close>)
  with assms(3) show ?thesis by simp
qed

section \<open>The invariant\<close>

text \<open>
  Every table can be written, files each record under its own id, and holds records that
  can be marshalled; recorded log indices fit 64 bits; no channel is over its capacity.
\<close>

definition table_ok :: "('v \<Rightarrow> string) \<Rightarrow> ('v \<Rightarrow> bool) \<Rightarrow> 'v gomap \<Rightarrow> bool" where
  "table_ok key valid m \<longleftrightarrow> map_ok m \<and> (\<forall>k v. mget m k = Some v \<longrightarrow> key v = k \<and> valid v)"

definition chan_ok :: "chan \<Rightarrow> bool" where
  "chan_ok c \<longleftrightarrow> length (ch_buf c) \<le> ch_cap c"

definition fsm_ok :: "fsm \<Rightarrow> bool" where
  "fsm_ok s \<longleftrightarrow>
     table_ok n_id node_valid (f_nodes s)
     \<and> table_ok (\<lambda>v. sp_id (sv_spec v)) server_valid (f_servers s)
     \<and> table_ok g_id group_valid (f_groups s)
     \<and> table_ok t_id template_valid (f_templates s)
     \<and> table_ok d_id database_valid (f_databases s)
     \<and> table_ok tk_id token_valid (f_tokens s)
     \<and> map_ok (f_idem s) \<and> (\<forall>k i. mget (f_idem s) k = Some i \<longrightarrow> int64_ok i)
     \<and> (\<forall>c\<in>set (f_subscribers s). chan_ok c)"

lemma table_ok_empty [simp]: "table_ok key valid mempty"
  by (simp add: table_ok_def)

lemma table_ok_map_ok: "table_ok key valid m \<Longrightarrow> map_ok m"
  unfolding table_ok_def by blast

lemma table_okD: "table_ok key valid m \<Longrightarrow> mget m k = Some v \<Longrightarrow> key v = k \<and> valid v"
  unfolding table_ok_def by blast

lemma table_ok_mput:
  assumes "table_ok key valid m" and "valid v" and "key v = k"
  obtains m' where "mput k v m = Some m'" "table_ok key valid m'" "mget m' = (mget m)(k \<mapsto> v)"
proof -
  from assms(1) have m: "map_ok m" by (rule table_ok_map_ok)
  then obtain m' where m': "mput k v m = Some m'" using tbl.put_total [OF m, of k v] by (elim exE)
  moreover have g: "mget m' = (mget m)(k \<mapsto> v)" using m' by (rule tbl.get_put)
  moreover have "key x = j \<and> valid x" if "mget m' j = Some x" for j x
  proof (cases "j = k")
    case True
    with that g assms(2,3) show ?thesis by simp
  next
    case False
    with that g have "mget m j = Some x" by simp
    with assms(1) show ?thesis by (rule table_okD)
  qed
  moreover have "map_ok m'" using m m' by (rule tbl.put_keeps_ok)
  ultimately show ?thesis using that unfolding table_ok_def by blast
qed

lemma table_ok_mdel [simp]: "table_ok key valid m \<Longrightarrow> table_ok key valid (mdel k m)"
proof -
  assume t: "table_ok key valid m"
  have "key v = j \<and> valid v" if "mget (mdel k m) j = Some v" for j v
    using that by (intro table_okD [OF t]) (simp split: if_splits)
  moreover have "map_ok (mdel k m)" using table_ok_map_ok [OF t] by (rule tbl.del_keeps_ok)
  ultimately show ?thesis unfolding table_ok_def by blast
qed

lemma table_ok_values:
  "table_ok key valid m \<Longrightarrow> \<forall>v\<in>snd ` set (entries m). valid v" "table_ok key valid m \<Longrightarrow> distinct (mkeys m)"
  unfolding table_ok_def
  by (erule conjE, erule map_okE, force simp: mget_def dest: map_of_is_SomeI) (simp add: distinct_mkeys)

lemma chan_ok_send [simp]: "chan_ok c \<Longrightarrow> chan_ok (chan_send ev c)"
  by (simp add: chan_ok_def chan_send_def)

lemma new_fsm_ok [go_inv]: "fsm_ok new_fsm"
  by (simp add: fsm_ok_def new_fsm_def)

lemma publish_ok [go_inv]: "fsm_ok s \<Longrightarrow> fsm_ok (publish k p s)"
  by (auto simp: fsm_ok_def publish_def)

lemma subscribe_ok [go_inv]: "fsm_ok s \<Longrightarrow> fsm_ok (subscribe n s)"
  by (auto simp: fsm_ok_def subscribe_def chan_ok_def)

lemma receive_ok [go_inv]: "fsm_ok s \<Longrightarrow> fsm_ok (snd (receive i s))"
proof -
  assume ok: "fsm_ok s"
  show ?thesis
  proof (cases "i < length (f_subscribers s)")
    case True
    with ok have c: "chan_ok (f_subscribers s ! i)" by (auto simp: fsm_ok_def)
    have "chan_ok ((f_subscribers s ! i)\<lparr>ch_buf := evs\<rparr>)" if "ch_buf (f_subscribers s ! i) = ev # evs"
      for ev evs using c that by (simp add: chan_ok_def)
    with ok True show ?thesis
      by (auto simp: receive_def fsm_ok_def split: list.splits
          dest!: set_update_subset_insert [THEN subsetD])
  next
    case False
    with ok show ?thesis by (simp add: receive_def)
  qed
qed

section \<open>Apply never panics and keeps the invariant\<close>

definition applied_ok :: "applied \<Rightarrow> bool" where
  "applied_ok r \<longleftrightarrow> (\<exists>e s. r = Some (e, s) \<and> fsm_ok s)"

lemma remove_with_ok:
  assumes "fsm_ok s" and "\<And>i s. fsm_ok s \<Longrightarrow> fsm_ok (pub i s)" and "\<And>i s. fsm_ok s \<Longrightarrow> fsm_ok (del i s)"
  shows "applied_ok (remove_with p del pub s)"
  using assms by (auto simp: remove_with_def applied_ok_def split: sum.splits)

lemma upsert_with_ok:
  assumes "fsm_ok s" and "\<And>r. d = Inr r \<Longrightarrow> valid r" and "table_ok key valid (rd s)"
    and "\<And>m. table_ok key valid m \<Longrightarrow> fsm_ok (wr m s)"
    and "\<And>r s. fsm_ok s \<Longrightarrow> fsm_ok (pub r s)"
  shows "applied_ok (upsert_with d key rd wr pub s)"
proof (cases d)
  case (Inl e)
  with assms(1) show ?thesis by (simp add: upsert_with_def applied_ok_def)
next
  case (Inr r)
  with assms(2,3) obtain m where "mput (key r) r (rd s) = Some m" "table_ok key valid m"
    by (metis table_ok_mput)
  with Inr assms(4,5) show ?thesis by (simp add: upsert_with_def applied_ok_def)
qed

lemma adjust_server_ok:
  assumes "fsm_ok s"
    and "\<And>v. server_valid v \<Longrightarrow> server_valid (g v) \<and> sp_id (sv_spec (g v)) = sp_id (sv_spec v)"
  shows "applied_ok (adjust_server kind i g s)"
proof (cases "mget (f_servers s) i")
  case None
  with assms(1) show ?thesis by (simp add: adjust_server_def applied_ok_def)
next
  case (Some v)
  have t: "table_ok (\<lambda>v. sp_id (sv_spec v)) server_valid (f_servers s)"
    using assms(1) by (simp add: fsm_ok_def)
  with Some have "sp_id (sv_spec v) = i \<and> server_valid v" by (simp add: table_ok_def)
  with assms(2) have "server_valid (g v)" "sp_id (sv_spec (g v)) = i" by auto
  with t obtain m where "mput i (g v) (f_servers s) = Some m"
    "table_ok (\<lambda>v. sp_id (sv_spec v)) server_valid m"
    by (metis table_ok_mput)
  with Some assms(1) publish_ok [of "s\<lparr>f_servers := m\<rparr>"] show ?thesis
    by (simp add: adjust_server_def applied_ok_def fsm_ok_def)
qed

lemma unmarshal_valid:
  assumes "unmarshal fs p z = Inr r" and "\<And>j. p = Some j \<Longrightarrow> json_ok j"
    and "\<And>j r'. dec_struct fs j z = Inr r' \<Longrightarrow> json_ok j \<Longrightarrow> valid r'"
  shows "valid r"
  using assms by (auto simp: unmarshal_def split: option.splits)

lemma node_upsert_ok:
  "fsm_ok s \<Longrightarrow> (\<And>r. d = Inr r \<Longrightarrow> node_valid r) \<Longrightarrow>
    applied_ok (upsert_with d n_id f_nodes (\<lambda>m s. s\<lparr>f_nodes := m\<rparr>)
      (\<lambda>r. publish t (EvNode r)) s)"
  by (rule upsert_with_ok [where valid = node_valid]) (auto simp: publish_ok, auto simp: fsm_ok_def)

lemma server_upsert_ok:
  "fsm_ok s \<Longrightarrow> (\<And>r. d = Inr r \<Longrightarrow> server_valid r) \<Longrightarrow>
    applied_ok (upsert_with d (\<lambda>v. sp_id (sv_spec v)) f_servers (\<lambda>m s. s\<lparr>f_servers := m\<rparr>)
      (\<lambda>r. publish t (EvServer r)) s)"
  by (rule upsert_with_ok [where valid = server_valid]) (auto simp: publish_ok, auto simp: fsm_ok_def)

lemma group_upsert_ok:
  "fsm_ok s \<Longrightarrow> (\<And>r. d = Inr r \<Longrightarrow> group_valid r) \<Longrightarrow>
    applied_ok (upsert_with d g_id f_groups (\<lambda>m s. s\<lparr>f_groups := m\<rparr>)
      (\<lambda>r. publish t (EvGroup r)) s)"
  by (rule upsert_with_ok [where valid = group_valid]) (auto simp: publish_ok, auto simp: fsm_ok_def)

lemma template_upsert_ok:
  "fsm_ok s \<Longrightarrow> (\<And>r. d = Inr r \<Longrightarrow> template_valid r) \<Longrightarrow>
    applied_ok (upsert_with d t_id f_templates (\<lambda>m s. s\<lparr>f_templates := m\<rparr>)
      (\<lambda>r. publish t (EvTemplate r)) s)"
  by (rule upsert_with_ok [where valid = template_valid]) (auto simp: publish_ok, auto simp: fsm_ok_def)

lemma database_upsert_ok:
  "fsm_ok s \<Longrightarrow> (\<And>r. d = Inr r \<Longrightarrow> database_valid r) \<Longrightarrow>
    applied_ok (upsert_with d d_id f_databases (\<lambda>m s. s\<lparr>f_databases := m\<rparr>)
      (\<lambda>r. publish t (EvDatabase r)) s)"
  by (rule upsert_with_ok [where valid = database_valid]) (auto simp: publish_ok, auto simp: fsm_ok_def)

lemma token_upsert_ok:
  "fsm_ok s \<Longrightarrow> (\<And>r. d = Inr r \<Longrightarrow> token_valid r) \<Longrightarrow>
    applied_ok (upsert_with d tk_id f_tokens (\<lambda>m s. s\<lparr>f_tokens := m\<rparr>)
      (\<lambda>_ s. s) s)"
  by (rule upsert_with_ok [where valid = token_valid]) (auto simp: publish_ok, auto simp: fsm_ok_def)

lemma del_ok:
  "fsm_ok s \<Longrightarrow> fsm_ok (s\<lparr>f_nodes := mdel i (f_nodes s)\<rparr>)"
  "fsm_ok s \<Longrightarrow> fsm_ok (s\<lparr>f_servers := mdel i (f_servers s)\<rparr>)"
  "fsm_ok s \<Longrightarrow> fsm_ok (s\<lparr>f_groups := mdel i (f_groups s)\<rparr>)"
  "fsm_ok s \<Longrightarrow> fsm_ok (s\<lparr>f_templates := mdel i (f_templates s)\<rparr>)"
  "fsm_ok s \<Longrightarrow> fsm_ok (s\<lparr>f_databases := mdel i (f_databases s)\<rparr>)"
  "fsm_ok s \<Longrightarrow> fsm_ok (s\<lparr>f_tokens := mdel i (f_tokens s)\<rparr>)"
  by (simp_all add: fsm_ok_def)

lemma set_state_ok:
  assumes "fsm_ok s"
  shows "applied_ok (case d of Inl e \<Rightarrow> Some (Some e, s)
    | Inr q \<Rightarrow> adjust_server t (ss_id q) (\<lambda>v. v\<lparr>sv_state := ss_state q\<rparr>) s)"
  using assms adjust_server_ok [OF assms]
  by (cases d) (auto simp: server_valid_def applied_ok_def [of "Some _"])

lemma set_host_ok:
  assumes "fsm_ok s"
  shows "applied_ok (case d of Inl e \<Rightarrow> Some (Some e, s)
    | Inr q \<Rightarrow> adjust_server t (sh_id q) (\<lambda>v. v\<lparr>sv_node_id := sh_node_id q,
        sv_container_id := sh_container_id q, sv_host_port := sh_host_port q\<rparr>) s)"
  using assms adjust_server_ok [OF assms]
  by (cases d) (auto simp: server_valid_def applied_ok_def [of "Some _"])

lemmas command_ok = node_upsert_ok server_upsert_ok group_upsert_ok template_upsert_ok
  database_upsert_ok token_upsert_ok set_state_ok set_host_ok remove_with_ok

lemma if_applied_ok:
  "(b \<Longrightarrow> applied_ok x) \<Longrightarrow> (\<not> b \<Longrightarrow> applied_ok y) \<Longrightarrow> applied_ok (if b then x else y)"
  by simp

lemma apply_command_ok:
  assumes ok: "fsm_ok s" and p: "\<And>j. c_payload c = Some j \<Longrightarrow> json_ok j"
  shows "applied_ok (apply_command c s)"
proof -
  have v: "unmarshal node_fields (c_payload c) node_zero = Inr r1 \<Longrightarrow> node_valid r1"
    "unmarshal server_fields (c_payload c) server_zero = Inr r2 \<Longrightarrow> server_valid r2"
    "unmarshal group_fields (c_payload c) group_zero = Inr r3 \<Longrightarrow> group_valid r3"
    "unmarshal template_fields (c_payload c) template_zero = Inr r4 \<Longrightarrow> template_valid r4"
    "unmarshal database_fields (c_payload c) database_zero = Inr r5 \<Longrightarrow> database_valid r5"
    "unmarshal token_fields (c_payload c) token_zero = Inr r6 \<Longrightarrow> token_valid r6"
    for r1 r2 r3 r4 r5 r6
    by ((simp add: template_valid_def; fail)
        | (erule unmarshal_valid, erule p, erule dec_valid, assumption, simp))+
  have u: "applied_ok (Some (Some e, s))" for e
    using ok by (simp add: applied_ok_def)
  show ?thesis
    unfolding apply_command_def Let_def
    by (intro if_applied_ok command_ok ok u; (erule v | erule publish_ok | erule del_ok | assumption))
qed

section \<open>Encoded records are JSON\<close>

lemma json_ok_enc_members:
  "enc_members fs = Inr kvs \<Longrightarrow> (\<And>k r j. (k, r) \<in> set fs \<Longrightarrow> r = Inr j \<Longrightarrow> json_ok j) \<Longrightarrow> json_ok (JObj kvs)"
proof (induction fs arbitrary: kvs)
  case Nil
  then show ?case by simp
next
  case (Cons f fs)
  obtain k r where f: "f = (k, r)" by (cases f)
  from Cons.prems(1) f obtain j js where "r = Inr j" "enc_members fs = Inr js" "kvs = (k, j) # js"
    by (auto simp: rbind_eq_Inr)
  with f Cons show ?case by fastforce
qed

lemma json_ok_enc_struct:
  "enc_struct fs = Inr j \<Longrightarrow> (\<And>k r j. (k, r) \<in> set fs \<Longrightarrow> r = Inr j \<Longrightarrow> json_ok j) \<Longrightarrow> json_ok j"
  by (auto simp: enc_struct_def rbind_eq_Inr dest: json_ok_enc_members simp del: json_ok.simps)

lemma json_ok_basic [simp]:
  "json_ok (enc_uint w)" "enc_f64 x = Inr j \<Longrightarrow> json_ok j" "enc_time t = Inr j \<Longrightarrow> json_ok j"
  by (auto simp: enc_uint_def enc_f64_def enc_time_def split: if_splits)

lemma json_ok_env: "enc_map (\<lambda>s. Inr (JStr s)) m = Inr j \<Longrightarrow> json_ok j"
proof -
  have "enc_entries (\<lambda>s. Inr (JStr s)) kvs = Inr js \<Longrightarrow> \<forall>kv\<in>set js. json_ok (snd kv)" for kvs js
    by (induction kvs arbitrary: js) (force simp: rbind_eq_Inr)+
  then show "enc_map (\<lambda>s. Inr (JStr s)) m = Inr j \<Longrightarrow> json_ok j"
    by (cases m) (auto simp: rbind_eq_Inr)
qed

lemma json_ok_resources: "enc_resources r = Inr j \<Longrightarrow> json_ok j"
  unfolding enc_resources_def by (erule json_ok_enc_struct) auto

lemma json_ok_node: "enc_node r = Inr j \<Longrightarrow> json_ok j"
  unfolding enc_node_def by (erule json_ok_enc_struct) (auto dest: json_ok_resources [OF sym])

lemma json_ok_spec: "enc_server_spec r = Inr j \<Longrightarrow> json_ok j"
  unfolding enc_server_spec_def
  by (erule json_ok_enc_struct) (auto simp: omitempty_def dest: json_ok_env [OF sym] split: if_splits
      simp del: enc_map.simps)

lemma json_ok_server: "enc_server r = Inr j \<Longrightarrow> json_ok j"
  unfolding enc_server_def
  by (erule json_ok_enc_struct) (auto simp: omitempty_def dest: json_ok_spec [OF sym] split: if_splits)

lemma json_ok_group: "enc_group r = Inr j \<Longrightarrow> json_ok j"
  unfolding enc_group_def by (erule json_ok_enc_struct) auto

lemma json_ok_template: "enc_template r = Inr j \<Longrightarrow> json_ok j"
  unfolding enc_template_def by (erule json_ok_enc_struct) auto

lemma json_ok_database: "enc_database r = Inr j \<Longrightarrow> json_ok j"
  unfolding enc_database_def by (erule json_ok_enc_struct) auto

lemma json_ok_token: "enc_token r = Inr j \<Longrightarrow> json_ok j"
  unfolding enc_token_def
  by (erule json_ok_enc_struct) (auto split: if_splits)

lemma json_ok_id: "enc_id k = Inr j \<Longrightarrow> json_ok j"
  by (auto simp: enc_id_def)

lemma encode_wire_ok:
  "encode t p idem ts = Inr w \<Longrightarrow> (\<And>j. p = Inr j \<Longrightarrow> json_ok j) \<Longrightarrow> wire_ok w"
  by (auto simp: encode_def enc_struct_def rbind_eq_Inr wire_ok_def omitempty_def split: if_splits)

end
