(* ===== verification/FsmContract.thy ===== *)
theory FsmContract
  imports RaftFsmProps
begin

text \<open>
  The contract of the state machine towards the rest of the daemon: applying an entry never
  panics and keeps the invariant, a committed upsert or remove is what reads see afterwards
  (locale \<open>replicated_table\<close>, interpreted for the six tables), an error leaves the tables
  alone, and a run of the log depends on nothing but the tables.
\<close>

section \<open>One entry\<close>

lemma sint64_ok [simp]: "int64_ok (sint (w :: u64))"
  using sint_greater_eq [of w] sint_less [of w] by (simp add: int64_ok_def)

lemma fsm_apply_ok [go_inv]:
  assumes ok: "fsm_ok s" and w: "wire_ok w"
  shows "applied_ok (fsm_apply idx w s)"
proof (cases "decode w")
  case (Inl e)
  with ok show ?thesis by (simp add: fsm_apply_def applied_ok_def)
next
  case (Inr c)
  have p: "\<And>j. c_payload c = Some j \<Longrightarrow> json_ok j"
    using decode_payload_ok [OF Inr w] .
  have idem: "map_ok (f_idem s)" "\<forall>k i. mget (f_idem s) k = Some i \<longrightarrow> int64_ok i"
    using ok by (simp_all add: fsm_ok_def)
  obtain m where m: "mput (c_idem c) (sint idx) (f_idem s) = Some m"
    using tbl.put_total [OF idem(1)] by blast
  have "map_ok m" "\<forall>k i. mget m k = Some i \<longrightarrow> int64_ok i"
    using tbl.put_keeps_ok [OF idem(1) m] tbl.put_all [OF m, of "\<lambda>_. int64_ok"] idem(2) by auto
  with ok have "fsm_ok (s\<lparr>f_idem := m\<rparr>)" by (simp add: fsm_ok_def)
  with Inr ok m apply_command_ok [OF _ p] show ?thesis
    by (auto simp: fsm_apply_def applied_ok_def [of "Some _"] split: option.splits)
qed

lemma applied_okE:
  assumes "applied_ok r"
  obtains e s where "r = Some (e, s)" "fsm_ok s"
  using assms by (auto simp: applied_ok_def)

section \<open>What a command leaves alone\<close>

text \<open>No case of the switch touches the idempotency table, and a failing one touches nothing.\<close>

definition quiet :: "fsm \<Rightarrow> applied \<Rightarrow> bool" where
  "quiet s r \<longleftrightarrow> (\<forall>e s'. r = Some (e, s') \<longrightarrow> f_idem s' = f_idem s \<and> (e \<noteq> None \<longrightarrow> s' = s))"

lemma quiet_simps [simp]: "quiet s (Some (Some e, s))" "quiet s (Some (None, s))" "quiet s None"
  by (simp_all add: quiet_def)

lemma quiet_if: "quiet s x \<Longrightarrow> quiet s y \<Longrightarrow> quiet s (if b then x else y)"
  by simp

lemma upsert_with_quiet:
  "(\<And>r m. f_idem (pub r (wr m s)) = f_idem s) \<Longrightarrow> quiet s (upsert_with d key rd wr pub s)"
  by (auto simp: upsert_with_def quiet_def split: sum.splits option.splits)

lemma remove_with_quiet:
  "(\<And>i. f_idem (pub i (del i s)) = f_idem s) \<Longrightarrow> quiet s (remove_with p del pub s)"
  by (auto simp: remove_with_def quiet_def split: sum.splits)

lemma adjust_server_quiet: "quiet s (adjust_server kind i g s)"
  by (auto simp: adjust_server_def quiet_def publish_def split: option.splits)

lemma sum_case_quiet:
  "(\<And>q. quiet s (f q)) \<Longrightarrow> quiet s (case d of Inl e \<Rightarrow> Some (Some e, s) | Inr q \<Rightarrow> f q)"
  by (simp split: sum.splits)

lemma apply_command_quiet: "quiet s (apply_command c s)"
  unfolding apply_command_def Let_def
  by (intro quiet_if upsert_with_quiet remove_with_quiet adjust_server_quiet sum_case_quiet)
    (simp_all add: publish_def)

section \<open>Only the tables matter\<close>

definition core :: "fsm \<Rightarrow> fsm" where
  "core s = s\<lparr>f_subscribers := []\<rparr>"

lemma core_eq_iff:
  "core s = core t \<longleftrightarrow> f_nodes s = f_nodes t \<and> f_servers s = f_servers t \<and> f_groups s = f_groups t
     \<and> f_templates s = f_templates t \<and> f_databases s = f_databases t \<and> f_tokens s = f_tokens t
     \<and> f_idem s = f_idem t"
  by (cases s; cases t) (simp add: core_def)

lemma core_publish [simp]: "core (publish k p s) = core s"
  by (simp add: core_def publish_def)

definition sim :: "applied \<Rightarrow> applied \<Rightarrow> bool" where
  "sim = rel_option (rel_prod (=) (\<lambda>s t. core s = core t))"

lemma sim_simps [simp]:
  "sim (Some (e, s)) (Some (e', t)) \<longleftrightarrow> e = e' \<and> core s = core t"
  "sim None None"
  by (simp_all add: sim_def)

lemma sim_if: "sim x x' \<Longrightarrow> sim y y' \<Longrightarrow> sim (if b then x else y) (if b then x' else y')"
  by simp

lemma upsert_with_sim:
  "core s = core t \<Longrightarrow> rd s = rd t \<Longrightarrow> (\<And>r m. core (pub r (wr m s)) = core (pub r (wr m t)))
    \<Longrightarrow> sim (upsert_with d key rd wr pub s) (upsert_with d key rd wr pub t)"
  by (simp add: upsert_with_def split: sum.splits option.splits)

lemma remove_with_sim:
  "core s = core t \<Longrightarrow> (\<And>i. core (pub i (del i s)) = core (pub i (del i t)))
    \<Longrightarrow> sim (remove_with p del pub s) (remove_with p del pub t)"
  by (simp add: remove_with_def split: sum.splits)

lemma adjust_server_sim:
  "core s = core t \<Longrightarrow> sim (adjust_server k i g s) (adjust_server k i g t)"
  by (auto simp: adjust_server_def core_eq_iff publish_def split: option.splits)

lemma sum_case_sim:
  "core s = core t \<Longrightarrow> (\<And>q. sim (f q) (g q)) \<Longrightarrow>
    sim (case d of Inl e \<Rightarrow> Some (Some e, s) | Inr q \<Rightarrow> f q)
        (case d of Inl e \<Rightarrow> Some (Some e, t) | Inr q \<Rightarrow> g q)"
  by (simp split: sum.splits)

lemma apply_command_sim:
  assumes "core s = core t"
  shows "sim (apply_command c s) (apply_command c t)"
  unfolding apply_command_def Let_def
  by (intro sim_if upsert_with_sim remove_with_sim adjust_server_sim sum_case_sim assms)
    (use assms in \<open>simp_all add: core_eq_iff publish_def\<close>)

lemma fsm_apply_sim:
  assumes "core s = core t"
  shows "sim (fsm_apply i w s) (fsm_apply i w t)"
proof -
  have f: "f_idem t = f_idem s" using assms by (simp add: core_eq_iff)
  have "core (s\<lparr>f_idem := m\<rparr>) = core (t\<lparr>f_idem := m\<rparr>)" for m
    using assms by (simp add: core_eq_iff)
  with assms f show ?thesis
    by (auto simp: fsm_apply_def intro!: apply_command_sim split: sum.splits option.splits)
qed

section \<open>A replicated table\<close>

text \<open>
  \<open>up ts v\<close> and \<open>rm ts k\<close> are the log entries that store a record and delete a key, \<open>get\<close>
  the table as readers see it. The laws say what a committed entry does to it.
\<close>

locale replicated_table =
  fixes up :: "int \<Rightarrow> 'v \<Rightarrow> wire result"
    and rm :: "int \<Rightarrow> string \<Rightarrow> wire result"
    and key :: "'v \<Rightarrow> string"
    and get :: "fsm \<Rightarrow> string \<Rightarrow> 'v option"
    and valid :: "'v \<Rightarrow> bool"
  assumes up_encodes: "valid v \<Longrightarrow> \<exists>w. up ts v = Inr w"
    and rm_encodes: "\<exists>w. rm ts k = Inr w"
    and apply_up: "fsm_ok s \<Longrightarrow> int64_ok ts \<Longrightarrow> valid v \<Longrightarrow> up ts v = Inr w \<Longrightarrow>
      \<exists>s'. fsm_apply i w s = Some (None, s') \<and> fsm_ok s' \<and> get s' = (get s)(key v \<mapsto> v)"
    and apply_rm: "fsm_ok s \<Longrightarrow> int64_ok ts \<Longrightarrow> rm ts k = Inr w \<Longrightarrow>
      \<exists>s'. fsm_apply i w s = Some (None, s') \<and> fsm_ok s' \<and> get s' = (get s)(k := None)"
    and get_ok: "fsm_ok s \<Longrightarrow> get s k = Some v \<Longrightarrow> key v = k \<and> valid v"
begin

text \<open>A read-modify-write that keeps the key changes that record only.\<close>

lemma modify:
  assumes "fsm_ok s" and "int64_ok ts" and "get s k = Some v"
    and "valid (f v)" and "key (f v) = k" and "up ts (f v) = Inr w"
  shows "\<exists>s'. fsm_apply i w s = Some (None, s') \<and> fsm_ok s' \<and> get s' = (get s)(k \<mapsto> f v)"
  using apply_up [OF assms(1,2,4,6)] assms(5) by simp

text \<open>Encoding and committing a valid record stores it.\<close>

lemma stored:
  assumes "fsm_ok s" and "int64_ok ts" and "valid v"
  shows "\<exists>w s'. up ts v = Inr w \<and> fsm_apply i w s = Some (None, s') \<and> get s' = (get s)(key v \<mapsto> v)"
proof -
  obtain w where w: "up ts v = Inr w" using up_encodes [OF assms(3)] by blast
  from apply_up [OF assms w, of i] w show ?thesis by blast
qed

text \<open>Writing a record back unchanged leaves the table as it was.\<close>

lemma write_back:
  assumes "fsm_ok s" and "int64_ok ts" and "get s k = Some v" and "up ts v = Inr w"
  shows "\<exists>s'. fsm_apply i w s = Some (None, s') \<and> fsm_ok s' \<and> get s' = get s"
proof -
  from get_ok [OF assms(1,3)] have "key v = k" "valid v" by auto
  with apply_up [OF assms(1,2) _ assms(4)] assms(3) show ?thesis by (auto simp: fun_upd_idem)
qed

text \<open>A record removed after it was stored is gone; the order of the two matters.\<close>

lemma remove_after_store:
  assumes "fsm_ok s" and "int64_ok ts" and "int64_ok ts'" and "valid v"
    and "up ts v = Inr w" and "rm ts' (key v) = Inr w'"
  obtains s1 s2 where "fsm_apply i w s = Some (None, s1)" "fsm_apply j w' s1 = Some (None, s2)"
    "fsm_ok s2" "get s2 = (get s)(key v := None)"
proof -
  obtain s1 where s1: "fsm_apply i w s = Some (None, s1)" "fsm_ok s1" "get s1 = (get s)(key v \<mapsto> v)"
    using apply_up [OF assms(1,2,4,5)] by blast
  obtain s2 where "fsm_apply j w' s1 = Some (None, s2)" "fsm_ok s2"
    "get s2 = (get s1)(key v := None)"
    using apply_rm [OF s1(2) assms(3,6)] by blast
  with s1 that show ?thesis by simp
qed

end

section \<open>The six tables\<close>

text \<open>An entry written by \<open>Encode\<close> without idempotency key goes straight to its case.\<close>

lemma fsm_apply_encoded:
  assumes "encode t (Inr p) [] ts = Inr w" and "int64_ok ts"
  shows "fsm_apply i w s =
    apply_command \<lparr>c_type = t, c_payload = Some p, c_idem = [], c_ts = ts\<rparr> s"
  using decode_encode [OF assms] by (simp add: fsm_apply_def)

lemma unmarshal_id [simp]: "unmarshal id_fields (Some (JObj [(''id'', JStr k)])) z = Inr (z\<lparr>ip_id := k\<rparr>)"
  by (simp add: unmarshal_def id_fields_def fld_def)

lemma apply_node_upsert:
  assumes ok: "fsm_ok s" and ts: "int64_ok ts" and v: "node_valid v"
    and w: "encode CmdNodeUpsert (enc_node v) [] ts = Inr w"
  obtains m where "mput (n_id v) v (f_nodes s) = Some m"
    "fsm_apply i w s = Some (None, publish CmdNodeUpsert (EvNode v) (s\<lparr>f_nodes := m\<rparr>))"
    "fsm_ok (publish CmdNodeUpsert (EvNode v) (s\<lparr>f_nodes := m\<rparr>))"
proof -
  obtain p where p: "enc_node v = Inr p" "dec_struct node_fields p node_zero = Inr v"
    using node_codec.enc_valid [OF v] node_codec.dec_enc [OF v] by blast
  have a: "fsm_apply i w s = upsert_with (Inr v) n_id f_nodes (\<lambda>m s. s\<lparr>f_nodes := m\<rparr>)
      ((\<lambda>r. publish CmdNodeUpsert (EvNode r))) s"
    using fsm_apply_encoded [OF w [unfolded p(1)] ts, of i s] p(2)
    by (simp add: apply_command_def unmarshal_def cmd_defs)
  moreover have "applied_ok (fsm_apply i w s)"
    unfolding a by (rule node_upsert_ok) (use ok v in auto)
  ultimately show ?thesis
    using that by (auto simp: upsert_with_def applied_ok_def split: option.splits)
qed

lemma apply_node_remove:
  assumes ok: "fsm_ok s" and ts: "int64_ok ts" and w: "encode CmdNodeRemove (enc_id k) [] ts = Inr w"
  shows "fsm_apply i w s = Some (None, publish CmdNodeRemove (EvId k) (s\<lparr>f_nodes := mdel k (f_nodes s)\<rparr>))" and "fsm_ok (publish CmdNodeRemove (EvId k) (s\<lparr>f_nodes := mdel k (f_nodes s)\<rparr>))"
proof -
  show "fsm_apply i w s = Some (None, publish CmdNodeRemove (EvId k) (s\<lparr>f_nodes := mdel k (f_nodes s)\<rparr>))"
    using fsm_apply_encoded [OF w [unfolded enc_id_def] ts, of i s]
    by (simp add: apply_command_def remove_with_def cmd_defs)
  show "fsm_ok (publish CmdNodeRemove (EvId k) (s\<lparr>f_nodes := mdel k (f_nodes s)\<rparr>))"
    using ok by (intro publish_ok del_ok)
qed

interpretation node_table: replicated_table
  "\<lambda>ts v. encode CmdNodeUpsert (enc_node v) [] ts" "\<lambda>ts k. encode CmdNodeRemove (enc_id k) [] ts"
  "n_id" "\<lambda>s. mget (f_nodes s)" node_valid
proof unfold_locales
  fix v ts k w s i
  show "node_valid v \<Longrightarrow> \<exists>w. encode CmdNodeUpsert (enc_node v) [] ts = Inr w"
    by (metis node_codec.enc_valid encode_total)
  show "\<exists>w. encode CmdNodeRemove (enc_id k) [] ts = Inr w"
    by (simp add: enc_id_def encode_total)
  show "fsm_ok s \<Longrightarrow> mget (f_nodes s) k = Some v \<Longrightarrow> n_id v = k \<and> node_valid v"
    by (simp add: fsm_ok_def table_ok_def)
  { assume "fsm_ok s" "int64_ok ts" "encode CmdNodeRemove (enc_id k) [] ts = Inr w"
    from apply_node_remove [OF this] show "\<exists>s'. fsm_apply i w s = Some (None, s') \<and> fsm_ok s'
        \<and> mget (f_nodes s') = (mget (f_nodes s))(k := None)"
      by (simp add: publish_def) }
  { assume "fsm_ok s" "int64_ok ts" "node_valid v" "encode CmdNodeUpsert (enc_node v) [] ts = Inr w"
    then obtain m where "mput (n_id v) v (f_nodes s) = Some m"
      "fsm_apply i w s = Some (None, publish CmdNodeUpsert (EvNode v) (s\<lparr>f_nodes := m\<rparr>))"
      "fsm_ok (publish CmdNodeUpsert (EvNode v) (s\<lparr>f_nodes := m\<rparr>))"
      by (rule apply_node_upsert)
    then show "\<exists>s'. fsm_apply i w s = Some (None, s') \<and> fsm_ok s'
        \<and> mget (f_nodes s') = (mget (f_nodes s))(n_id v \<mapsto> v)"
      by (simp add: publish_def tbl.get_put) }
qed

lemma apply_server_upsert:
  assumes ok: "fsm_ok s" and ts: "int64_ok ts" and v: "server_valid v"
    and w: "encode CmdServerUpsert (enc_server v) [] ts = Inr w"
  obtains m where "mput (sp_id (sv_spec v)) v (f_servers s) = Some m"
    "fsm_apply i w s = Some (None, publish CmdServerUpsert (EvServer v) (s\<lparr>f_servers := m\<rparr>))"
    "fsm_ok (publish CmdServerUpsert (EvServer v) (s\<lparr>f_servers := m\<rparr>))"
proof -
  obtain p where p: "enc_server v = Inr p" "dec_struct server_fields p server_zero = Inr v"
    using server_codec.enc_valid [OF v] server_codec.dec_enc [OF v] by blast
  have a: "fsm_apply i w s = upsert_with (Inr v) (\<lambda>v. sp_id (sv_spec v)) f_servers (\<lambda>m s. s\<lparr>f_servers := m\<rparr>)
      ((\<lambda>r. publish CmdServerUpsert (EvServer r))) s"
    using fsm_apply_encoded [OF w [unfolded p(1)] ts, of i s] p(2)
    by (simp add: apply_command_def unmarshal_def cmd_defs)
  moreover have "applied_ok (fsm_apply i w s)"
    unfolding a by (rule server_upsert_ok) (use ok v in auto)
  ultimately show ?thesis
    using that by (auto simp: upsert_with_def applied_ok_def split: option.splits)
qed

lemma apply_server_remove:
  assumes ok: "fsm_ok s" and ts: "int64_ok ts" and w: "encode CmdServerRemove (enc_id k) [] ts = Inr w"
  shows "fsm_apply i w s = Some (None, publish CmdServerRemove (EvId k) (s\<lparr>f_servers := mdel k (f_servers s)\<rparr>))" and "fsm_ok (publish CmdServerRemove (EvId k) (s\<lparr>f_servers := mdel k (f_servers s)\<rparr>))"
proof -
  show "fsm_apply i w s = Some (None, publish CmdServerRemove (EvId k) (s\<lparr>f_servers := mdel k (f_servers s)\<rparr>))"
    using fsm_apply_encoded [OF w [unfolded enc_id_def] ts, of i s]
    by (simp add: apply_command_def remove_with_def cmd_defs)
  show "fsm_ok (publish CmdServerRemove (EvId k) (s\<lparr>f_servers := mdel k (f_servers s)\<rparr>))"
    using ok by (intro publish_ok del_ok)
qed

interpretation server_table: replicated_table
  "\<lambda>ts v. encode CmdServerUpsert (enc_server v) [] ts" "\<lambda>ts k. encode CmdServerRemove (enc_id k) [] ts"
  "\<lambda>v. sp_id (sv_spec v)" "\<lambda>s. mget (f_servers s)" server_valid
proof unfold_locales
  fix v ts k w s i
  show "server_valid v \<Longrightarrow> \<exists>w. encode CmdServerUpsert (enc_server v) [] ts = Inr w"
    by (metis server_codec.enc_valid encode_total)
  show "\<exists>w. encode CmdServerRemove (enc_id k) [] ts = Inr w"
    by (simp add: enc_id_def encode_total)
  show "fsm_ok s \<Longrightarrow> mget (f_servers s) k = Some v \<Longrightarrow> sp_id (sv_spec v) = k \<and> server_valid v"
    by (simp add: fsm_ok_def table_ok_def)
  { assume "fsm_ok s" "int64_ok ts" "encode CmdServerRemove (enc_id k) [] ts = Inr w"
    from apply_server_remove [OF this] show "\<exists>s'. fsm_apply i w s = Some (None, s') \<and> fsm_ok s'
        \<and> mget (f_servers s') = (mget (f_servers s))(k := None)"
      by (simp add: publish_def) }
  { assume "fsm_ok s" "int64_ok ts" "server_valid v" "encode CmdServerUpsert (enc_server v) [] ts = Inr w"
    then obtain m where "mput (sp_id (sv_spec v)) v (f_servers s) = Some m"
      "fsm_apply i w s = Some (None, publish CmdServerUpsert (EvServer v) (s\<lparr>f_servers := m\<rparr>))"
      "fsm_ok (publish CmdServerUpsert (EvServer v) (s\<lparr>f_servers := m\<rparr>))"
      by (rule apply_server_upsert)
    then show "\<exists>s'. fsm_apply i w s = Some (None, s') \<and> fsm_ok s'
        \<and> mget (f_servers s') = (mget (f_servers s))(sp_id (sv_spec v) \<mapsto> v)"
      by (simp add: publish_def tbl.get_put) }
qed

lemma apply_group_upsert:
  assumes ok: "fsm_ok s" and ts: "int64_ok ts" and v: "group_valid v"
    and w: "encode CmdGroupUpsert (enc_group v) [] ts = Inr w"
  obtains m where "mput (g_id v) v (f_groups s) = Some m"
    "fsm_apply i w s = Some (None, publish CmdGroupUpsert (EvGroup v) (s\<lparr>f_groups := m\<rparr>))"
    "fsm_ok (publish CmdGroupUpsert (EvGroup v) (s\<lparr>f_groups := m\<rparr>))"
proof -
  obtain p where p: "enc_group v = Inr p" "dec_struct group_fields p group_zero = Inr v"
    using group_codec.enc_valid [OF v] group_codec.dec_enc [OF v] by blast
  have a: "fsm_apply i w s = upsert_with (Inr v) g_id f_groups (\<lambda>m s. s\<lparr>f_groups := m\<rparr>)
      ((\<lambda>r. publish CmdGroupUpsert (EvGroup r))) s"
    using fsm_apply_encoded [OF w [unfolded p(1)] ts, of i s] p(2)
    by (simp add: apply_command_def unmarshal_def cmd_defs)
  moreover have "applied_ok (fsm_apply i w s)"
    unfolding a by (rule group_upsert_ok) (use ok v in auto)
  ultimately show ?thesis
    using that by (auto simp: upsert_with_def applied_ok_def split: option.splits)
qed

lemma apply_group_remove:
  assumes ok: "fsm_ok s" and ts: "int64_ok ts" and w: "encode CmdGroupRemove (enc_id k) [] ts = Inr w"
  shows "fsm_apply i w s = Some (None, publish CmdGroupRemove (EvId k) (s\<lparr>f_groups := mdel k (f_groups s)\<rparr>))" and "fsm_ok (publish CmdGroupRemove (EvId k) (s\<lparr>f_groups := mdel k (f_groups s)\<rparr>))"
proof -
  show "fsm_apply i w s = Some (None, publish CmdGroupRemove (EvId k) (s\<lparr>f_groups := mdel k (f_groups s)\<rparr>))"
    using fsm_apply_encoded [OF w [unfolded enc_id_def] ts, of i s]
    by (simp add: apply_command_def remove_with_def cmd_defs)
  show "fsm_ok (publish CmdGroupRemove (EvId k) (s\<lparr>f_groups := mdel k (f_groups s)\<rparr>))"
    using ok by (intro publish_ok del_ok)
qed

interpretation group_table: replicated_table
  "\<lambda>ts v. encode CmdGroupUpsert (enc_group v) [] ts" "\<lambda>ts k. encode CmdGroupRemove (enc_id k) [] ts"
  "g_id" "\<lambda>s. mget (f_groups s)" group_valid
proof unfold_locales
  fix v ts k w s i
  show "group_valid v \<Longrightarrow> \<exists>w. encode CmdGroupUpsert (enc_group v) [] ts = Inr w"
    by (metis group_codec.enc_valid encode_total)
  show "\<exists>w. encode CmdGroupRemove (enc_id k) [] ts = Inr w"
    by (simp add: enc_id_def encode_total)
  show "fsm_ok s \<Longrightarrow> mget (f_groups s) k = Some v \<Longrightarrow> g_id v = k \<and> group_valid v"
    by (simp add: fsm_ok_def table_ok_def)
  { assume "fsm_ok s" "int64_ok ts" "encode CmdGroupRemove (enc_id k) [] ts = Inr w"
    from apply_group_remove [OF this] show "\<exists>s'. fsm_apply i w s = Some (None, s') \<and> fsm_ok s'
        \<and> mget (f_groups s') = (mget (f_groups s))(k := None)"
      by (simp add: publish_def) }
  { assume "fsm_ok s" "int64_ok ts" "group_valid v" "encode CmdGroupUpsert (enc_group v) [] ts = Inr w"
    then obtain m where "mput (g_id v) v (f_groups s) = Some m"
      "fsm_apply i w s = Some (None, publish CmdGroupUpsert (EvGroup v) (s\<lparr>f_groups := m\<rparr>))"
      "fsm_ok (publish CmdGroupUpsert (EvGroup v) (s\<lparr>f_groups := m\<rparr>))"
      by (rule apply_group_upsert)
    then show "\<exists>s'. fsm_apply i w s = Some (None, s') \<and> fsm_ok s'
        \<and> mget (f_groups s') = (mget (f_groups s))(g_id v \<mapsto> v)"
      by (simp add: publish_def tbl.get_put) }
qed

lemma apply_template_upsert:
  assumes ok: "fsm_ok s" and ts: "int64_ok ts" and v: "template_valid v"
    and w: "encode CmdTemplateUpsert (enc_template v) [] ts = Inr w"
  obtains m where "mput (t_id v) v (f_templates s) = Some m"
    "fsm_apply i w s = Some (None, publish CmdTemplateUpsert (EvTemplate v) (s\<lparr>f_templates := m\<rparr>))"
    "fsm_ok (publish CmdTemplateUpsert (EvTemplate v) (s\<lparr>f_templates := m\<rparr>))"
proof -
  obtain p where p: "enc_template v = Inr p" "dec_struct template_fields p template_zero = Inr v"
    using template_codec.enc_valid [OF v] template_codec.dec_enc [OF v] by blast
  have a: "fsm_apply i w s = upsert_with (Inr v) t_id f_templates (\<lambda>m s. s\<lparr>f_templates := m\<rparr>)
      ((\<lambda>r. publish CmdTemplateUpsert (EvTemplate r))) s"
    using fsm_apply_encoded [OF w [unfolded p(1)] ts, of i s] p(2)
    by (simp add: apply_command_def unmarshal_def cmd_defs)
  moreover have "applied_ok (fsm_apply i w s)"
    unfolding a by (rule template_upsert_ok) (use ok v in auto)
  ultimately show ?thesis
    using that by (auto simp: upsert_with_def applied_ok_def split: option.splits)
qed

lemma apply_template_remove:
  assumes ok: "fsm_ok s" and ts: "int64_ok ts" and w: "encode CmdTemplateRemove (enc_id k) [] ts = Inr w"
  shows "fsm_apply i w s = Some (None, publish CmdTemplateRemove (EvId k) (s\<lparr>f_templates := mdel k (f_templates s)\<rparr>))" and "fsm_ok (publish CmdTemplateRemove (EvId k) (s\<lparr>f_templates := mdel k (f_templates s)\<rparr>))"
proof -
  show "fsm_apply i w s = Some (None, publish CmdTemplateRemove (EvId k) (s\<lparr>f_templates := mdel k (f_templates s)\<rparr>))"
    using fsm_apply_encoded [OF w [unfolded enc_id_def] ts, of i s]
    by (simp add: apply_command_def remove_with_def cmd_defs)
  show "fsm_ok (publish CmdTemplateRemove (EvId k) (s\<lparr>f_templates := mdel k (f_templates s)\<rparr>))"
    using ok by (intro publish_ok del_ok)
qed

interpretation template_table: replicated_table
  "\<lambda>ts v. encode CmdTemplateUpsert (enc_template v) [] ts" "\<lambda>ts k. encode CmdTemplateRemove (enc_id k) [] ts"
  "t_id" "\<lambda>s. mget (f_templates s)" template_valid
proof unfold_locales
  fix v ts k w s i
  show "template_valid v \<Longrightarrow> \<exists>w. encode CmdTemplateUpsert (enc_template v) [] ts = Inr w"
    by (metis template_codec.enc_valid encode_total)
  show "\<exists>w. encode CmdTemplateRemove (enc_id k) [] ts = Inr w"
    by (simp add: enc_id_def encode_total)
  show "fsm_ok s \<Longrightarrow> mget (f_templates s) k = Some v \<Longrightarrow> t_id v = k \<and> template_valid v"
    by (simp add: fsm_ok_def table_ok_def)
  { assume "fsm_ok s" "int64_ok ts" "encode CmdTemplateRemove (enc_id k) [] ts = Inr w"
    from apply_template_remove [OF this] show "\<exists>s'. fsm_apply i w s = Some (None, s') \<and> fsm_ok s'
        \<and> mget (f_templates s') = (mget (f_templates s))(k := None)"
      by (simp add: publish_def) }
  { assume "fsm_ok s" "int64_ok ts" "template_valid v" "encode CmdTemplateUpsert (enc_template v) [] ts = Inr w"
    then obtain m where "mput (t_id v) v (f_templates s) = Some m"
      "fsm_apply i w s = Some (None, publish CmdTemplateUpsert (EvTemplate v) (s\<lparr>f_templates := m\<rparr>))"
      "fsm_ok (publish CmdTemplateUpsert (EvTemplate v) (s\<lparr>f_templates := m\<rparr>))"
      by (rule apply_template_upsert)
    then show "\<exists>s'. fsm_apply i w s = Some (None, s') \<and> fsm_ok s'
        \<and> mget (f_templates s') = (mget (f_templates s))(t_id v \<mapsto> v)"
      by (simp add: publish_def tbl.get_put) }
qed

lemma apply_database_upsert:
  assumes ok: "fsm_ok s" and ts: "int64_ok ts" and v: "database_valid v"
    and w: "encode CmdDatabaseUpsert (enc_database v) [] ts = Inr w"
  obtains m where "mput (d_id v) v (f_databases s) = Some m"
    "fsm_apply i w s = Some (None, publish CmdDatabaseUpsert (EvDatabase v) (s\<lparr>f_databases := m\<rparr>))"
    "fsm_ok (publish CmdDatabaseUpsert (EvDatabase v) (s\<lparr>f_databases := m\<rparr>))"
proof -
  obtain p where p: "enc_database v = Inr p" "dec_struct database_fields p database_zero = Inr v"
    using database_codec.enc_valid [OF v] database_codec.dec_enc [OF v] by blast
  have a: "fsm_apply i w s = upsert_with (Inr v) d_id f_databases (\<lambda>m s. s\<lparr>f_databases := m\<rparr>)
      ((\<lambda>r. publish CmdDatabaseUpsert (EvDatabase r))) s"
    using fsm_apply_encoded [OF w [unfolded p(1)] ts, of i s] p(2)
    by (simp add: apply_command_def unmarshal_def cmd_defs)
  moreover have "applied_ok (fsm_apply i w s)"
    unfolding a by (rule database_upsert_ok) (use ok v in auto)
  ultimately show ?thesis
    using that by (auto simp: upsert_with_def applied_ok_def split: option.splits)
qed

lemma apply_database_remove:
  assumes ok: "fsm_ok s" and ts: "int64_ok ts" and w: "encode CmdDatabaseRemove (enc_id k) [] ts = Inr w"
  shows "fsm_apply i w s = Some (None, publish CmdDatabaseRemove (EvId k) (s\<lparr>f_databases := mdel k (f_databases s)\<rparr>))" and "fsm_ok (publish CmdDatabaseRemove (EvId k) (s\<lparr>f_databases := mdel k (f_databases s)\<rparr>))"
proof -
  show "fsm_apply i w s = Some (None, publish CmdDatabaseRemove (EvId k) (s\<lparr>f_databases := mdel k (f_databases s)\<rparr>))"
    using fsm_apply_encoded [OF w [unfolded enc_id_def] ts, of i s]
    by (simp add: apply_command_def remove_with_def cmd_defs)
  show "fsm_ok (publish CmdDatabaseRemove (EvId k) (s\<lparr>f_databases := mdel k (f_databases s)\<rparr>))"
    using ok by (intro publish_ok del_ok)
qed

interpretation database_table: replicated_table
  "\<lambda>ts v. encode CmdDatabaseUpsert (enc_database v) [] ts" "\<lambda>ts k. encode CmdDatabaseRemove (enc_id k) [] ts"
  "d_id" "\<lambda>s. mget (f_databases s)" database_valid
proof unfold_locales
  fix v ts k w s i
  show "database_valid v \<Longrightarrow> \<exists>w. encode CmdDatabaseUpsert (enc_database v) [] ts = Inr w"
    by (metis database_codec.enc_valid encode_total)
  show "\<exists>w. encode CmdDatabaseRemove (enc_id k) [] ts = Inr w"
    by (simp add: enc_id_def encode_total)
  show "fsm_ok s \<Longrightarrow> mget (f_databases s) k = Some v \<Longrightarrow> d_id v = k \<and> database_valid v"
    by (simp add: fsm_ok_def table_ok_def)
  { assume "fsm_ok s" "int64_ok ts" "encode CmdDatabaseRemove (enc_id k) [] ts = Inr w"
    from apply_database_remove [OF this] show "\<exists>s'. fsm_apply i w s = Some (None, s') \<and> fsm_ok s'
        \<and> mget (f_databases s') = (mget (f_databases s))(k := None)"
      by (simp add: publish_def) }
  { assume "fsm_ok s" "int64_ok ts" "database_valid v" "encode CmdDatabaseUpsert (enc_database v) [] ts = Inr w"
    then obtain m where "mput (d_id v) v (f_databases s) = Some m"
      "fsm_apply i w s = Some (None, publish CmdDatabaseUpsert (EvDatabase v) (s\<lparr>f_databases := m\<rparr>))"
      "fsm_ok (publish CmdDatabaseUpsert (EvDatabase v) (s\<lparr>f_databases := m\<rparr>))"
      by (rule apply_database_upsert)
    then show "\<exists>s'. fsm_apply i w s = Some (None, s') \<and> fsm_ok s'
        \<and> mget (f_databases s') = (mget (f_databases s))(d_id v \<mapsto> v)"
      by (simp add: publish_def tbl.get_put) }
qed

lemma apply_token_upsert:
  assumes ok: "fsm_ok s" and ts: "int64_ok ts" and v: "token_valid v"
    and w: "encode CmdTokenUpsert (enc_token v) [] ts = Inr w"
  obtains m where "mput (tk_id v) v (f_tokens s) = Some m"
    "fsm_apply i w s = Some (None, s\<lparr>f_tokens := m\<rparr>)"
    "fsm_ok (s\<lparr>f_tokens := m\<rparr>)"
proof -
  obtain p where p: "enc_token v = Inr p" "dec_struct token_fields p token_zero = Inr v"
    using token_codec.enc_valid [OF v] token_codec.dec_enc [OF v] by blast
  have a: "fsm_apply i w s = upsert_with (Inr v) tk_id f_tokens (\<lambda>m s. s\<lparr>f_tokens := m\<rparr>)
      (\<lambda>_ s. s) s"
    using fsm_apply_encoded [OF w [unfolded p(1)] ts, of i s] p(2)
    by (simp add: apply_command_def unmarshal_def cmd_defs)
  moreover have "applied_ok (fsm_apply i w s)"
    unfolding a by (rule token_upsert_ok) (use ok v in auto)
  ultimately show ?thesis
    using that by (auto simp: upsert_with_def applied_ok_def split: option.splits)
qed

lemma apply_token_remove:
  assumes ok: "fsm_ok s" and ts: "int64_ok ts" and w: "encode CmdTokenRemove (enc_id k) [] ts = Inr w"
  shows "fsm_apply i w s = Some (None, s\<lparr>f_tokens := mdel k (f_tokens s)\<rparr>)" and "fsm_ok (s\<lparr>f_tokens := mdel k (f_tokens s)\<rparr>)"
proof -
  show "fsm_apply i w s = Some (None, s\<lparr>f_tokens := mdel k (f_tokens s)\<rparr>)"
    using fsm_apply_encoded [OF w [unfolded enc_id_def] ts, of i s]
    by (simp add: apply_command_def remove_with_def cmd_defs)
  show "fsm_ok (s\<lparr>f_tokens := mdel k (f_tokens s)\<rparr>)"
    using ok by (rule del_ok)
qed

interpretation token_table: replicated_table
  "\<lambda>ts v. encode CmdTokenUpsert (enc_token v) [] ts" "\<lambda>ts k. encode CmdTokenRemove (enc_id k) [] ts"
  "tk_id" "\<lambda>s. mget (f_tokens s)" token_valid
proof unfold_locales
  fix v ts k w s i
  show "token_valid v \<Longrightarrow> \<exists>w. encode CmdTokenUpsert (enc_token v) [] ts = Inr w"
    by (metis token_codec.enc_valid encode_total)
  show "\<exists>w. encode CmdTokenRemove (enc_id k) [] ts = Inr w"
    by (simp add: enc_id_def encode_total)
  show "fsm_ok s \<Longrightarrow> mget (f_tokens s) k = Some v \<Longrightarrow> tk_id v = k \<and> token_valid v"
    by (simp add: fsm_ok_def table_ok_def)
  { assume "fsm_ok s" "int64_ok ts" "encode CmdTokenRemove (enc_id k) [] ts = Inr w"
    from apply_token_remove [OF this] show "\<exists>s'. fsm_apply i w s = Some (None, s') \<and> fsm_ok s'
        \<and> mget (f_tokens s') = (mget (f_tokens s))(k := None)"
      by (simp add: publish_def) }
  { assume "fsm_ok s" "int64_ok ts" "token_valid v" "encode CmdTokenUpsert (enc_token v) [] ts = Inr w"
    then obtain m where "mput (tk_id v) v (f_tokens s) = Some m"
      "fsm_apply i w s = Some (None, s\<lparr>f_tokens := m\<rparr>)"
      "fsm_ok (s\<lparr>f_tokens := m\<rparr>)"
      by (rule apply_token_upsert)
    then show "\<exists>s'. fsm_apply i w s = Some (None, s') \<and> fsm_ok s'
        \<and> mget (f_tokens s') = (mget (f_tokens s))(tk_id v \<mapsto> v)"
      by (simp add: publish_def tbl.get_put) }
qed

end
