(* ===== verification/FsmLog.thy ===== *)
theory FsmLog
  imports FsmContract
begin

text \<open>
  Runs of the state machine (daemon/internal/raftfsm/fsm.go): replay of a log, the states a
  daemon can reach, at-most-once entries, snapshots and what stands for a compacted log,
  the event channels, and the side cache.
\<close>

lemma fsm_ok_maps:
  assumes "fsm_ok s"
  shows "map_ok (f_nodes s)" "map_ok (f_servers s)" "map_ok (f_groups s)" "map_ok (f_templates s)"
    "map_ok (f_databases s)" "map_ok (f_tokens s)" "map_ok (f_idem s)"
  using assms unfolding fsm_ok_def by (blast intro: table_ok_map_ok)+

section \<open>Replay\<close>

type_synonym log = "(u64 \<times> wire) list"

fun fsm_replay :: "log \<Rightarrow> fsm \<Rightarrow> fsm option" where
  "fsm_replay [] s = Some s"
| "fsm_replay ((i, w) # es) s =
     (case fsm_apply i w s of None \<Rightarrow> None | Some (e, s') \<Rightarrow> fsm_replay es s')"

definition log_ok :: "log \<Rightarrow> bool" where
  "log_ok es \<longleftrightarrow> (\<forall>w\<in>snd ` set es. wire_ok w)"

lemma log_ok_simps [simp]:
  "log_ok []" "log_ok (e # es) \<longleftrightarrow> wire_ok (snd e) \<and> log_ok es"
  "log_ok (as @ bs) \<longleftrightarrow> log_ok as \<and> log_ok bs"
  by (auto simp: log_ok_def)

lemma fsm_replay_append:
  "fsm_replay (as @ bs) s = Option.bind (fsm_replay as s) (fsm_replay bs)"
  by (induction as s rule: fsm_replay.induct) (auto split: option.splits)

lemma fsm_replay_ok [go_inv]:
  "fsm_ok s \<Longrightarrow> log_ok es \<Longrightarrow> \<exists>s'. fsm_replay es s = Some s' \<and> fsm_ok s'"
proof (induction es s rule: fsm_replay.induct)
  case (1 s)
  then show ?case by simp
next
  case (2 i w es s)
  have "applied_ok (fsm_apply i w s)" using 2 by (intro fsm_apply_ok) simp_all
  then obtain e s1 where "fsm_apply i w s = Some (e, s1)" "fsm_ok s1" by (rule applied_okE)
  with 2 show ?case by simp
qed

lemma fsm_replay_sim:
  "core s = core t \<Longrightarrow> rel_option (\<lambda>s t. core s = core t) (fsm_replay es s) (fsm_replay es t)"
proof (induction es s arbitrary: t rule: fsm_replay.induct)
  case (1 s)
  then show ?case by simp
next
  case (2 i w es s)
  have "sim (fsm_apply i w s) (fsm_apply i w t)" using 2(2) by (rule fsm_apply_sim)
  with 2(1) show ?case
    by (cases "fsm_apply i w s"; cases "fsm_apply i w t") (auto simp: sim_def)
qed

section \<open>Idempotency keys\<close>

text \<open>A recorded key keeps the log index it was first recorded with.\<close>

lemma fsm_apply_idem:
  assumes "fsm_apply i w s = Some (e, s')" and "mget (f_idem s) k = Some x"
  shows "mget (f_idem s') k = Some x"
proof (cases "decode w")
  case (Inl e)
  with assms show ?thesis by (simp add: fsm_apply_def)
next
  case (Inr c)
  have q: "quiet t (apply_command c t)" for t by (rule apply_command_quiet)
  show ?thesis
  proof (cases "c_idem c = [] \<or> mget (f_idem s) (c_idem c) \<noteq> None")
    case True
    with assms Inr q [of s] show ?thesis
      by (auto simp: fsm_apply_def quiet_def split: if_splits option.splits)
  next
    case False
    with assms Inr obtain m where m: "mput (c_idem c) (sint i) (f_idem s) = Some m"
      "apply_command c (s\<lparr>f_idem := m\<rparr>) = Some (e, s')"
      by (auto simp: fsm_apply_def split: option.splits)
    with q [of "s\<lparr>f_idem := m\<rparr>"] have "f_idem s' = m" by (auto simp: quiet_def)
    with m(1) False assms(2) show ?thesis by (auto simp: tbl.get_put)
  qed
qed

lemma fsm_replay_idem:
  "fsm_replay es s = Some s' \<Longrightarrow> mget (f_idem s) k = Some x \<Longrightarrow> mget (f_idem s') k = Some x"
  by (induction es s rule: fsm_replay.induct) (auto split: option.splits dest: fsm_apply_idem)

lemma fsm_apply_records_key:
  assumes "decode w = Inr c" and "c_idem c \<noteq> []" and "fsm_apply i w s = Some (e, s')"
  obtains x where "mget (f_idem s') (c_idem c) = Some x"
proof (cases "mget (f_idem s) (c_idem c)")
  case (Some x)
  with fsm_apply_idem [OF assms(3)] that show ?thesis by blast
next
  case None
  with assms obtain m where m: "mput (c_idem c) (sint i) (f_idem s) = Some m"
      "apply_command c (s\<lparr>f_idem := m\<rparr>) = Some (e, s')"
    by (auto simp: fsm_apply_def split: option.splits)
  with apply_command_quiet [of "s\<lparr>f_idem := m\<rparr>" c] have "f_idem s' = m"
    by (auto simp: quiet_def)
  with m(1) that show ?thesis by (simp add: tbl.get_put)
qed

lemma fsm_apply_duplicate:
  "decode w = Inr c \<Longrightarrow> c_idem c \<noteq> [] \<Longrightarrow> mget (f_idem s) (c_idem c) = Some x
    \<Longrightarrow> fsm_apply i w s = Some (None, s)"
  by (simp add: fsm_apply_def)

section \<open>Snapshots\<close>

lemma copy_map_id [simp]: "map_ok m \<Longrightarrow> copy_map m = m"
  by (auto simp: copy_map_def elim: map_okE)

lemma copy_map_props [simp]: "map_ok (copy_map m) \<longleftrightarrow> distinct (mkeys m)" "mget (copy_map m) = mget m"
  by (simp_all add: copy_map_def mkeys_def mget_def fun_eq_iff)

lemma dec_fld_cons:
  "dec_members fs ((k, j) # kvs) r =
     (case map_of fs (to_lower k) of None \<Rightarrow> dec_members fs kvs r
      | Some f \<Rightarrow> rbind (f j r) (dec_members fs kvs))"
  by simp

text \<open>What \<open>Persist\<close> writes of a table decodes to that table.\<close>

lemma snapshot_tables:
  assumes ok: "fsm_ok s"
  obtains a b c d e f g where
    "enc_map enc_node (f_nodes s) = Inr a" "dec_map (dec_ptr (dec_struct node_fields)) node_zero a NilMap = Inr (f_nodes s)"
    "enc_map enc_server (f_servers s) = Inr b" "dec_map (dec_ptr (dec_struct server_fields)) server_zero b NilMap = Inr (f_servers s)"
    "enc_map enc_group (f_groups s) = Inr c" "dec_map (dec_ptr (dec_struct group_fields)) group_zero c NilMap = Inr (f_groups s)"
    "enc_map enc_template (f_templates s) = Inr d" "dec_map (dec_ptr (dec_struct template_fields)) template_zero d NilMap = Inr (f_templates s)"
    "enc_map enc_database (f_databases s) = Inr e" "dec_map (dec_ptr (dec_struct database_fields)) database_zero e NilMap = Inr (f_databases s)"
    "enc_map enc_token (f_tokens s) = Inr f" "dec_map (dec_struct token_fields) token_zero f NilMap = Inr (f_tokens s)"
    "enc_map (\<lambda>i. Inr (JInt i)) (f_idem s) = Inr g" "dec_map dec_int 0 g NilMap = Inr (f_idem s)"
proof -
  have t: "table_ok n_id node_valid (f_nodes s)"
      "table_ok (\<lambda>v. sp_id (sv_spec v)) server_valid (f_servers s)"
      "table_ok g_id group_valid (f_groups s)" "table_ok t_id template_valid (f_templates s)"
      "table_ok d_id database_valid (f_databases s)" "table_ok tk_id token_valid (f_tokens s)"
    using ok unfolding fsm_ok_def by blast+
  have i: "\<forall>i\<in>snd ` set (entries (f_idem s)). int64_ok i" "distinct (mkeys (f_idem s))"
    using ok unfolding fsm_ok_def
    by (auto simp: mkeys_def mget_def elim!: map_okE dest: map_of_is_SomeI)
  note node_codec.enc_map_valid [OF table_ok_values(1) [OF t(1)]]
    server_codec.enc_map_valid [OF table_ok_values(1) [OF t(2)]]
    group_codec.enc_map_valid [OF table_ok_values(1) [OF t(3)]]
    template_codec.enc_map_valid [OF table_ok_values(1) [OF t(4)]]
    database_codec.enc_map_valid [OF table_ok_values(1) [OF t(5)]]
    token_codec.enc_map_valid [OF table_ok_values(1) [OF t(6)]]
    int_codec.enc_map_valid [OF i(1)]
  then obtain a b c d e f g where e:
    "enc_map enc_node (f_nodes s) = Inr a" "enc_map enc_server (f_servers s) = Inr b"
    "enc_map enc_group (f_groups s) = Inr c" "enc_map enc_template (f_templates s) = Inr d"
    "enc_map enc_database (f_databases s) = Inr e" "enc_map enc_token (f_tokens s) = Inr f"
    "enc_map (\<lambda>i. Inr (JInt i)) (f_idem s) = Inr g"
    by blast
  show ?thesis
    by (rule that [OF e(1) node_codec.dec_enc_ptr_map [OF table_ok_values [OF t(1)] e(1)]
      e(2) server_codec.dec_enc_ptr_map [OF table_ok_values [OF t(2)] e(2)]
      e(3) group_codec.dec_enc_ptr_map [OF table_ok_values [OF t(3)] e(3)]
      e(4) template_codec.dec_enc_ptr_map [OF table_ok_values [OF t(4)] e(4)]
      e(5) database_codec.dec_enc_ptr_map [OF table_ok_values [OF t(5)] e(5)]
      e(6) token_codec.dec_enc_map [OF table_ok_values [OF t(6)] e(6)]
      e(7) int_codec.dec_enc_map [OF i e(7)]])
qed

lemma snapshot_restore:
  assumes ok: "fsm_ok s" and now: "int64_ok now"
  obtains j where "enc_snapshot (take_snapshot now s) = Inr j"
    "\<And>t. fsm_restore (Some j) t = (None, s\<lparr>f_subscribers := f_subscribers t\<rparr>)"
proof -
  have c: "copy_map (f_nodes s) = f_nodes s" "copy_map (f_servers s) = f_servers s"
      "copy_map (f_groups s) = f_groups s" "copy_map (f_templates s) = f_templates s"
      "copy_map (f_databases s) = f_databases s" "copy_map (f_tokens s) = f_tokens s"
      "copy_map (f_idem s) = f_idem s"
    using fsm_ok_maps [OF ok] by simp_all
  obtain a b c d e f g where t:
    "enc_map enc_node (f_nodes s) = Inr a" "dec_map (dec_ptr (dec_struct node_fields)) node_zero a NilMap = Inr (f_nodes s)"
    "enc_map enc_server (f_servers s) = Inr b" "dec_map (dec_ptr (dec_struct server_fields)) server_zero b NilMap = Inr (f_servers s)"
    "enc_map enc_group (f_groups s) = Inr c" "dec_map (dec_ptr (dec_struct group_fields)) group_zero c NilMap = Inr (f_groups s)"
    "enc_map enc_template (f_templates s) = Inr d" "dec_map (dec_ptr (dec_struct template_fields)) template_zero d NilMap = Inr (f_templates s)"
    "enc_map enc_database (f_databases s) = Inr e" "dec_map (dec_ptr (dec_struct database_fields)) database_zero e NilMap = Inr (f_databases s)"
    "enc_map enc_token (f_tokens s) = Inr f" "dec_map (dec_struct token_fields) token_zero f NilMap = Inr (f_tokens s)"
    "enc_map (\<lambda>i. Inr (JInt i)) (f_idem s) = Inr g" "dec_map dec_int 0 g NilMap = Inr (f_idem s)"
    using ok by (rule snapshot_tables)
  let ?j = "JObj [(''nodes'', a), (''servers'', b), (''groups'', c), (''templates'', d),
    (''databases'', e), (''tokens'', f), (''idem'', g), (''taken'', JInt now)]"
  have "enc_snapshot (take_snapshot now s) = Inr ?j"
    by (simp add: enc_snapshot_def take_snapshot_def c enc_struct_def t del: enc_map.simps)
  moreover have "fsm_restore (Some ?j) r = (None, s\<lparr>f_subscribers := f_subscribers r\<rparr>)" for r
    by (simp add: fsm_restore_def snapshot_fields_def snapshot_zero_def fld_def now t
        del: dec_map.simps)
  ultimately show ?thesis by (rule that)
qed

section \<open>The states a daemon can reach\<close>

text \<open>
  A daemon's state machine starts empty; entries come off the log in the form JSON gives
  them, readers subscribe and receive at any time, and raft may restore a snapshot that a
  reachable state machine (this daemon's or the leader's) persisted.
\<close>

inductive fsm_reach :: "fsm \<Rightarrow> bool" where
  reach_new: "fsm_reach new_fsm"
| reach_apply: "fsm_reach s \<Longrightarrow> wire_ok w \<Longrightarrow> fsm_apply i w s = Some (e, s') \<Longrightarrow> fsm_reach s'"
| reach_subscribe: "fsm_reach s \<Longrightarrow> fsm_reach (subscribe n s)"
| reach_receive: "fsm_reach s \<Longrightarrow> receive i s = (ev, s') \<Longrightarrow> fsm_reach s'"
| reach_restore: "fsm_reach s \<Longrightarrow> fsm_reach t \<Longrightarrow> int64_ok now
    \<Longrightarrow> enc_snapshot (take_snapshot now t) = Inr j \<Longrightarrow> fsm_restore (Some j) s = (e, s')
    \<Longrightarrow> fsm_reach s'"

inductive_cases reach_newE: "fsm_reach new_fsm"

lemma fsm_ok_subscribers:
  "fsm_ok s \<Longrightarrow> fsm_ok t \<Longrightarrow> fsm_ok (t\<lparr>f_subscribers := f_subscribers s\<rparr>)"
  unfolding fsm_ok_def by simp

lemma fsm_reach_ok [go_inv]: "fsm_reach s \<Longrightarrow> fsm_ok s"
proof (induction rule: fsm_reach.induct)
  case reach_new
  show ?case by (rule new_fsm_ok)
next
  case (reach_apply s w i e s')
  then show ?case using fsm_apply_ok [of s w i] by (simp add: applied_ok_def)
next
  case (reach_subscribe s n)
  then show ?case by (intro subscribe_ok)
next
  case (reach_receive s i ev s')
  then show ?case using receive_ok [of s i] by simp
next
  case (reach_restore s t now j e s')
  from reach_restore(7,3) obtain j' where "enc_snapshot (take_snapshot now t) = Inr j'"
    "fsm_restore (Some j') s = (None, t\<lparr>f_subscribers := f_subscribers s\<rparr>)"
    using snapshot_restore by metis
  with reach_restore have "s' = t\<lparr>f_subscribers := f_subscribers s\<rparr>" by simp
  with reach_restore show ?case by (simp add: fsm_ok_subscribers)
qed

section \<open>Events\<close>

text \<open>
  One entry hands at most one event to the channels, the same one to each, and a failing
  entry none.
\<close>

definition one_event :: "fsm \<Rightarrow> applied \<Rightarrow> bool" where
  "one_event s r \<longleftrightarrow> (\<forall>e s'. r = Some (e, s') \<longrightarrow>
     f_subscribers s' = f_subscribers s
     \<or> e = None \<and> (\<exists>ev. f_subscribers s' = map (chan_send ev) (f_subscribers s)))"

lemma one_event_simps [simp]: "one_event s (Some (e, s))" "one_event s None"
  by (simp_all add: one_event_def)

lemma one_event_if: "one_event s x \<Longrightarrow> one_event s y \<Longrightarrow> one_event s (if b then x else y)"
  by simp

definition sends :: "fsm \<Rightarrow> fsm \<Rightarrow> bool" where
  "sends s s' \<longleftrightarrow> f_subscribers s' = f_subscribers s
     \<or> (\<exists>ev. f_subscribers s' = map (chan_send ev) (f_subscribers s))"

lemma upsert_with_event:
  "(\<And>r m. sends s (pub r (wr m s))) \<Longrightarrow> one_event s (upsert_with d key rd wr pub s)"
  by (auto simp: upsert_with_def one_event_def sends_def split: sum.splits option.splits)

lemma remove_with_event:
  "(\<And>i. sends s (pub i (del i s))) \<Longrightarrow> one_event s (remove_with p del pub s)"
  by (auto simp: remove_with_def one_event_def sends_def split: sum.splits)

lemma adjust_server_event: "one_event s (adjust_server kind i g s)"
  by (auto simp: adjust_server_def one_event_def publish_def split: option.splits)

lemma sum_case_event:
  "(\<And>q. one_event s (f q)) \<Longrightarrow> one_event s (case d of Inl e \<Rightarrow> Some (Some e, s) | Inr q \<Rightarrow> f q)"
  by (simp split: sum.splits)

lemma sends_publish: "f_subscribers t = f_subscribers s \<Longrightarrow> sends s (publish k p t)"
  by (auto simp: sends_def publish_def)

lemma apply_command_event: "one_event s (apply_command c s)"
  unfolding apply_command_def Let_def
  by (intro one_event_if upsert_with_event remove_with_event adjust_server_event sum_case_event)
    (simp_all add: sends_publish, simp_all add: sends_def)

lemma fsm_apply_event: "one_event s (fsm_apply i w s)"
proof -
  have "one_event s (apply_command c (s\<lparr>f_idem := m\<rparr>))" for c m
    using apply_command_event [of "s\<lparr>f_idem := m\<rparr>" c] by (simp add: one_event_def)
  then show ?thesis
    by (auto simp: fsm_apply_def apply_command_event split: sum.splits option.splits)
qed

section \<open>Snapshots that lack a table\<close>

lemma dec_members_keeps:
  assumes "dec_members fs kvs r = Inr r'" and "\<And>k j. (k, j) \<in> set kvs \<Longrightarrow> to_lower k \<noteq> nm"
    and "\<And>n f j r r'. (n, f) \<in> set fs \<Longrightarrow> n \<noteq> nm \<Longrightarrow> f j r = Inr r' \<Longrightarrow> g r' = g r"
  shows "g r' = g r"
  using assms(1,2)
proof (induction kvs arbitrary: r)
  case Nil
  then show ?case by simp
next
  case (Cons kv kvs)
  obtain k j where kv: "kv = (k, j)" by (cases kv)
  show ?case
  proof (cases "map_of fs (to_lower k)")
    case None
    with Cons kv show ?thesis by (auto simp: list.set_intros)
  next
    case (Some f)
    with Cons.prems(1) kv obtain r1 where r1: "f j r = Inr r1" "dec_members fs kvs r1 = Inr r'"
      by (auto simp: rbind_eq_Inr)
    have "to_lower k \<noteq> nm" using Cons.prems(2) kv by auto
    then have "g r1 = g r" using assms(3) [OF map_of_SomeD [OF Some] _ r1(1)] by simp
    moreover have "g r' = g r1" using Cons.IH [OF r1(2)] Cons.prems(2) by auto
    ultimately show ?thesis by simp
  qed
qed

lemma restore_without_servers:
  assumes "fsm_restore (Some (JObj kvs)) s = (None, s')"
    and "\<And>k j. (k, j) \<in> set kvs \<Longrightarrow> to_lower k \<noteq> ''servers''"
  shows "f_servers s' = NilMap"
proof -
  obtain sn where sn: "dec_members snapshot_fields kvs snapshot_zero = Inr sn"
    "f_servers s' = sn_servers sn"
    using assms(1) by (auto simp: fsm_restore_def split: sum.splits)
  have "sn_servers sn = sn_servers snapshot_zero"
    by (rule dec_members_keeps [OF sn(1) assms(2)])
      (auto simp: snapshot_fields_def fld_def rbind_eq_Inr)
  with sn(2) show ?thesis by (simp add: snapshot_zero_def)
qed

section \<open>The side cache\<close>

lemma flush_cache_outcome:
  "\<exists>e d'. flush_cache os now dir s d = (Some e, d') \<and> d' (dir @ ''/fsm.snap'') = d (dir @ ''/fsm.snap'')"
  by (auto simp: flush_cache_def persist_file_def file_close_def Let_def split: sum.splits)

end
