(* ===== verification/Quorum.thy ===== *)
theory Quorum
  imports Prelude
begin

text \<open>
  pkg/quorum/quorum.go: the quorum size of a cluster and the test against it. \<open>int\<close> values
  stand for Go's \<open>int\<close>s: the result never leaves the range of the argument.
\<close>

definition quorum_size :: "int \<Rightarrow> int" where
  "quorum_size n = (if n \<le> 0 then 1 else n div 2 + 1)"

definition has_quorum :: "int \<Rightarrow> int \<Rightarrow> bool" where
  "has_quorum n reachable \<longleftrightarrow> reachable \<ge> quorum_size n"

lemma quorum_size_bounds: "0 < n \<Longrightarrow> 1 \<le> quorum_size n \<and> quorum_size n \<le> n"
  by (auto simp: quorum_size_def)

lemma quorum_size_majority: "n < 2 * quorum_size n"
  by (auto simp: quorum_size_def)

lemma quorum_size_least: "0 < n \<Longrightarrow> n < 2 * q \<Longrightarrow> quorum_size n \<le> q"
  by (auto simp: quorum_size_def)

section \<open>The interface of a quorum system\<close>

text \<open>
  What consensus needs of a quorum predicate over a member set: quorums consist of
  members, any two share one, and a larger set of members is a quorum too.
\<close>

locale quorum_system =
  fixes quorum :: "'a set \<Rightarrow> 'a set \<Rightarrow> bool"
  assumes members: "quorum M S \<Longrightarrow> S \<subseteq> M"
    and intersect: "finite M \<Longrightarrow> quorum M S \<Longrightarrow> quorum M T \<Longrightarrow> S \<inter> T \<noteq> {}"
    and mono: "finite M \<Longrightarrow> quorum M S \<Longrightarrow> S \<subseteq> T \<Longrightarrow> T \<subseteq> M \<Longrightarrow> quorum M T"
begin

text \<open>With one vote per member, two values cannot both have a quorum of votes.\<close>

lemma one_winner:
  assumes "finite M" and "quorum M {m\<in>M. vote m = a}" and "quorum M {m\<in>M. vote m = b}"
  shows "a = b"
  using intersect [OF assms] by auto

text \<open>A network split into two sides leaves a quorum on one side at most.\<close>

lemma no_split_brain:
  assumes "finite M" and "A \<inter> B = {}"
  shows "\<not> (quorum M A \<and> quorum M B)"
  using intersect [OF assms(1)] assms(2) by blast

lemma all_members: "finite M \<Longrightarrow> quorum M S \<Longrightarrow> quorum M M"
  by (rule mono [OF _ _ members]) auto

end

definition majority :: "'a set \<Rightarrow> 'a set \<Rightarrow> bool" where
  "majority M S \<longleftrightarrow> S \<subseteq> M \<and> has_quorum (int (card M)) (int (card S))"

lemma majority_intersect:
  assumes "finite M" and "majority M S" and "majority M T"
  shows "S \<inter> T \<noteq> {}"
proof
  assume disj: "S \<inter> T = {}"
  have sub: "S \<subseteq> M" "T \<subseteq> M" using assms by (auto simp: majority_def)
  then have fin: "finite S" "finite T" using assms(1) by (auto intro: finite_subset)
  have "card S + card T = card (S \<union> T)" using fin disj by (simp add: card_Un_disjoint)
  also have "\<dots> \<le> card M" using assms(1) sub by (intro card_mono) auto
  finally show False
    using assms(2,3) quorum_size_majority [of "int (card M)"]
    by (simp add: majority_def has_quorum_def)
qed

interpretation maj: quorum_system majority
proof unfold_locales
  fix M S T :: "'a set"
  show "majority M S \<Longrightarrow> S \<subseteq> M" by (simp add: majority_def)
  show "finite M \<Longrightarrow> majority M S \<Longrightarrow> majority M T \<Longrightarrow> S \<inter> T \<noteq> {}"
    by (rule majority_intersect)
  show "majority M T" if "finite M" "majority M S" "S \<subseteq> T" "T \<subseteq> M"
  proof -
    have "card S \<le> card T" using that by (intro card_mono) (auto intro: finite_subset)
    with that show ?thesis by (simp add: majority_def has_quorum_def)
  qed
qed

end
