(* ===== verification/Cluster.thy ===== *)
theory Cluster
  imports FsmLog Quorum
begin

text \<open>
  daemon/internal/cluster (cluster.go, quorum_guard.go): what the daemon's services reach
  the replicated state through. The raft library, the clock, the random source and the
  order in which Go ranges over maps are an environment, consulted once per call and
  indexed by the number of calls made so far; before each call it may commit entries of
  other proposers, so every interleaving of the services is covered. A service is an
  operation on the world; \<open>None\<close> is a crash of the process.
\<close>

section \<open>The environment and the world\<close>

record raft_server =
  rs_id :: string
  rs_address :: string
  rs_suffrage :: nat

text \<open>The fate of one proposal: whether it commits, and what the caller is told.\<close>

record raft_answer =
  ra_commit :: bool
  ra_err :: err

record env =
  e_others :: "nat \<Rightarrow> wire list"
  e_leads :: "nat \<Rightarrow> bool"
  e_raft :: "nat \<Rightarrow> raft_answer"
  e_config :: "nat \<Rightarrow> raft_server list result"
  e_leader :: "nat \<Rightarrow> string \<times> string"
  e_iter :: "nat \<Rightarrow> order"
  e_now :: "nat \<Rightarrow> time"
  e_rand :: "nat \<Rightarrow> u8 list"

text \<open>\<open>w_sent\<close> records the data handed to \<open>raft.Apply\<close>, in order.\<close>

record world =
  w_fsm :: fsm
  w_index :: nat
  w_step :: nat
  w_sent :: "wire list"

type_synonym 'a op = "env \<Rightarrow> world \<Rightarrow> ('a \<times> world) option"

definition ret :: "'a \<Rightarrow> 'a op" where
  "ret x E W = Some (x, W)"

definition andthen :: "'a op \<Rightarrow> ('a \<Rightarrow> 'b op) \<Rightarrow> 'b op" where
  "andthen m f E W = (case m E W of None \<Rightarrow> None | Some (x, W') \<Rightarrow> f x E W')"

fun for_each :: "'a list \<Rightarrow> ('a \<Rightarrow> unit op) \<Rightarrow> unit op" where
  "for_each [] f = ret ()"
| "for_each (x # xs) f = andthen (f x) (\<lambda>_. for_each xs f)"

lemma for_each_step: "f x E W = Some ((), W1) \<Longrightarrow> for_each (x # xs) f E W = for_each xs f E W1"
  by (simp add: andthen_def)

lemma andthen_step: "m E W = Some (x, W1) \<Longrightarrow> andthen m f E W = f x E W1"
  by (simp add: andthen_def)

lemma andthen_ret: "m E W = Some (x, W1) \<Longrightarrow> andthen m (\<lambda>_. ret y) E W = Some (y, W1)"
  by (simp add: andthen_def ret_def)

fun commit_all :: "wire list \<Rightarrow> world \<Rightarrow> world option" where
  "commit_all [] W = Some W"
| "commit_all (w # ws) W =
     (case fsm_apply (word_of_nat (Suc (w_index W))) w (w_fsm W) of
        None \<Rightarrow> None
      | Some (e, s) \<Rightarrow> commit_all ws (W\<lparr>w_fsm := s, w_index := Suc (w_index W)\<rparr>))"

definition sync :: "nat op" where
  "sync E W = map_option (\<lambda>W'. (w_step W, W'\<lparr>w_step := Suc (w_step W)\<rparr>))
     (commit_all (e_others E (w_step W)) W)"

definition read_fsm :: "(order \<Rightarrow> fsm \<Rightarrow> 'a) \<Rightarrow> 'a op" where
  "read_fsm f = andthen sync (\<lambda>n E W. Some (f (e_iter E n) (w_fsm W), W))"

definition time_now :: "time op" where
  "time_now = andthen sync (\<lambda>n E W. Some (e_now E n, W))"

text \<open>\<open>rand.Read\<close> into a buffer of \<open>k\<close> zero bytes, its error ignored.\<close>

definition rand_read :: "nat \<Rightarrow> u8 list op" where
  "rand_read k = andthen sync (\<lambda>n E W. Some (take k (e_rand E n @ replicate k 0), W))"

text \<open>\<open>time.Now().UnixNano()\<close>.\<close>

definition unix_nano :: "time \<Rightarrow> int" where
  "unix_nano t = wrap64 (t - 62135596800 * second)"

definition now_unix_nano :: "int op" where
  "now_unix_nano = andthen time_now (\<lambda>t. ret (unix_nano t))"

section \<open>Cluster\<close>

definition is_leader :: "bool op" where
  "is_leader = andthen sync (\<lambda>n E W. Some (e_leads E n, W))"

text \<open>\<open>LeaderWithID\<close> gives the address and the id of the leader.\<close>

definition leader_addr :: "string op" where
  "leader_addr = andthen sync (\<lambda>n E W. Some (fst (e_leader E n), W))"

definition leader_id :: "string op" where
  "leader_id = andthen sync (\<lambda>n E W. Some (snd (e_leader E n), W))"

definition raft_apply :: "wire \<Rightarrow> err op" where
  "raft_apply w = andthen sync (\<lambda>n E W.
     map_option (\<lambda>W'. (ra_err (e_raft E n), W'))
       (commit_all (if ra_commit (e_raft E n) then [w] else []) (W\<lparr>w_sent := w_sent W @ [w]\<rparr>)))"

text \<open>\<open>Cluster.Apply\<close>. The response of the state machine is not looked at.\<close>

definition cluster_apply :: "wire \<Rightarrow> err op" where
  "cluster_apply w =
     andthen is_leader (\<lambda>l. if \<not> l then ret (Some ErrNotLeader) else raft_apply w)"

text \<open>Calls of \<open>Apply\<close> on \<open>data, _ := Encode(...)\<close>: a failed \<open>Encode\<close> gives empty data.\<close>

definition data_or_nil :: "wire result \<Rightarrow> wire" where
  "data_or_nil r = (case r of Inl _ \<Rightarrow> None | Inr w \<Rightarrow> w)"

text \<open>\<open>AddVoter\<close> and \<open>RemoveServer\<close> ask raft for a membership change.\<close>

definition raft_member_change :: "err op" where
  "raft_member_change = andthen sync (\<lambda>n E W. Some (ra_err (e_raft E n), W))"

definition add_voter :: "string \<Rightarrow> string \<Rightarrow> err op" where
  "add_voter i addr =
     andthen is_leader (\<lambda>l. if \<not> l then ret (Some ErrNotLeader) else raft_member_change)"

definition remove_server :: "string \<Rightarrow> err op" where
  "remove_server i =
     andthen is_leader (\<lambda>l. if \<not> l then ret (Some ErrNotLeader) else raft_member_change)"

record member =
  m_id :: string
  m_address :: string
  m_voter :: bool

definition members :: "member list result op" where
  "members = andthen sync (\<lambda>n E W. Some
     (case e_config E n of
        Inl e \<Rightarrow> Inl e
      | Inr ss \<Rightarrow> Inr (map (\<lambda>s. \<lparr>m_id = rs_id s, m_address = rs_address s, m_voter = (rs_suffrage s = 0)\<rparr>) ss), W))"

definition cluster_quorum :: "int op" where
  "cluster_quorum = andthen members (\<lambda>m. ret
     (case m of Inl _ \<Rightarrow> 0 | Inr ms \<Rightarrow> quorum_size (int (length ms))))"

definition join_existing :: "(string \<Rightarrow> string \<Rightarrow> err op) option \<Rightarrow> string \<Rightarrow> string \<Rightarrow> err op" where
  "join_existing hook addr token =
     (if addr = [] then ret (Some (Errorf ''empty join address''))
      else case hook of
             None \<Rightarrow> ret (Some (Errorf ''cluster join hook not wired''))
           | Some h \<Rightarrow> h addr token)"

section \<open>The quorum guard\<close>

definition below_quorum :: "int \<Rightarrow> bool op" where
  "below_quorum up = andthen members (\<lambda>m.
     case m of
       Inl _ \<Rightarrow> ret True
     | Inr ms \<Rightarrow> andthen cluster_quorum (\<lambda>q. ret (up < q \<or> int (length ms) < q)))"

record guard_reply =
  gr_status :: nat
  gr_quorum :: int
  gr_members :: nat

definition mutating :: "string \<Rightarrow> bool" where
  "mutating m \<longleftrightarrow> m = ''POST'' \<or> m = ''PUT'' \<or> m = ''DELETE'' \<or> m = ''PATCH''"

text \<open>\<open>Inl\<close> is the guard's own answer, \<open>Inr\<close> what the wrapped handler does.\<close>

definition quorum_guard :: "string \<Rightarrow> string \<Rightarrow> int op \<Rightarrow> 'a op \<Rightarrow> (guard_reply + 'a) op" where
  "quorum_guard method path up_count next_h =
     (let serve = andthen next_h (\<lambda>x. ret (Inr x)) in
      if mutating method \<and> \<not> has_prefix path ''/healthz'' \<and> \<not> has_prefix path ''/readyz'' then
        andthen up_count (\<lambda>up. andthen (below_quorum up) (\<lambda>below.
          if below then
            andthen cluster_quorum (\<lambda>q. andthen members (\<lambda>ms.
              ret (Inl \<lparr>gr_status = 503, gr_quorum = q,
                gr_members = (case ms of Inl _ \<Rightarrow> 0 | Inr l \<Rightarrow> length l)\<rparr>)))
          else serve))
      else serve)"

text \<open>The count of nodes the guard is given: those the state machine holds as up.\<close>

definition up_nodes :: "int op" where
  "up_nodes = read_fsm (\<lambda>ord s. int (length (filter (\<lambda>n. n_state n = NodeUp) (fsm_nodes ord s))))"

section \<open>Total correctness of operations\<close>

text \<open>From every world with \<open>P\<close> the operation returns and establishes \<open>Q\<close>.\<close>

definition does :: "env \<Rightarrow> (world \<Rightarrow> bool) \<Rightarrow> 'a op \<Rightarrow> ('a \<Rightarrow> world \<Rightarrow> bool) \<Rightarrow> bool" where
  "does E P m Q \<longleftrightarrow> (\<forall>W. P W \<longrightarrow> (\<exists>x W'. m E W = Some (x, W') \<and> Q x W'))"

lemma does_ret: "(\<And>W. P W \<Longrightarrow> Q x W) \<Longrightarrow> does E P (ret x) Q"
  by (auto simp: does_def ret_def)

lemma does_andthen:
  assumes "does E P m R" and "\<And>x. does E (R x) (f x) Q"
  shows "does E P (andthen m f) Q"
  unfolding does_def
proof (intro allI impI)
  fix W assume "P W"
  then obtain x W' where m: "m E W = Some (x, W')" and "R x W'"
    using assms(1) by (auto simp: does_def)
  then obtain y W'' where "f x E W' = Some (y, W'')" "Q y W''"
    using assms(2) [of x] unfolding does_def by blast
  with m show "\<exists>y W''. andthen m f E W = Some (y, W'') \<and> Q y W''"
    by (simp add: andthen_def)
qed

lemma does_if:
  "(b \<Longrightarrow> does E P m Q) \<Longrightarrow> (\<not> b \<Longrightarrow> does E P m' Q) \<Longrightarrow> does E P (if b then m else m') Q"
  by simp

lemma does_conseq:
  "does E P' m Q' \<Longrightarrow> (\<And>W. P W \<Longrightarrow> P' W) \<Longrightarrow> (\<And>x W. Q' x W \<Longrightarrow> Q x W) \<Longrightarrow> does E P m Q"
  unfolding does_def by blast

text \<open>A fact about the value just read may be used for the rest of the operation.\<close>

lemma does_fact: "(B \<Longrightarrow> does E P m Q) \<Longrightarrow> does E (\<lambda>W. P W \<and> B) m Q"
  unfolding does_def by blast

lemma does_for_each:
  assumes "\<And>x. x \<in> set xs \<Longrightarrow> does E I (f x) (\<lambda>_. I)"
  shows "does E I (for_each xs f) (\<lambda>_. I)"
  using assms
proof (induction xs)
  case Nil
  then show ?case by (simp add: does_ret)
next
  case (Cons x xs)
  then show ?case by (auto intro: does_andthen)
qed

text \<open>
  What is assumed of the environment: other proposers' entries are JSON, map orders permute.
  What every operation keeps: the state machine's invariant, and a predicate \<open>L\<close> on the
  entries this daemon proposes.
\<close>

definition env_ok :: "env \<Rightarrow> bool" where
  "env_ok E \<longleftrightarrow> (\<forall>n. \<forall>w\<in>set (e_others E n). wire_ok w) \<and> (\<forall>n. permutes (e_iter E n))"

definition world_ok :: "(wire \<Rightarrow> bool) \<Rightarrow> world \<Rightarrow> bool" where
  "world_ok L W \<longleftrightarrow> fsm_ok (w_fsm W) \<and> (\<forall>w\<in>set (w_sent W). L w)"

lemma commit_all_ok:
  "fsm_ok (w_fsm W) \<Longrightarrow> \<forall>w\<in>set ws. wire_ok w \<Longrightarrow>
    \<exists>W'. commit_all ws W = Some W' \<and> fsm_ok (w_fsm W') \<and> w_sent W' = w_sent W
      \<and> w_step W' = w_step W"
proof (induction ws arbitrary: W)
  case Nil
  then show ?case by simp
next
  case (Cons w ws)
  then have "applied_ok (fsm_apply (word_of_nat (Suc (w_index W))) w (w_fsm W))"
    by (intro fsm_apply_ok) simp_all
  then obtain e s where a: "fsm_apply (word_of_nat (Suc (w_index W))) w (w_fsm W) = Some (e, s)"
    "fsm_ok s" by (rule applied_okE)
  have "\<exists>W'. commit_all ws (W\<lparr>w_fsm := s, w_index := Suc (w_index W)\<rparr>) = Some W'
      \<and> fsm_ok (w_fsm W') \<and> w_sent W' = w_sent W \<and> w_step W' = w_step W"
    using Cons.IH [of "W\<lparr>w_fsm := s, w_index := Suc (w_index W)\<rparr>"] a(2) Cons.prems(2) by simp
  with a(1) show ?case by simp
qed

lemma does_sync: "env_ok E \<Longrightarrow> does E (world_ok L) sync (\<lambda>_. world_ok L)"
  unfolding does_def
proof (intro allI impI)
  fix W assume E: "env_ok E" and W: "world_ok L W"
  then obtain W' where "commit_all (e_others E (w_step W)) W = Some W'" "fsm_ok (w_fsm W')"
    "w_sent W' = w_sent W"
    using commit_all_ok [of W "e_others E (w_step W)"] by (auto simp: env_ok_def world_ok_def)
  with W show "\<exists>x W'. sync E W = Some (x, W') \<and> world_ok L W'"
    by (simp add: sync_def world_ok_def)
qed

lemma does_query:
  assumes "env_ok E" and "\<And>n W. world_ok L W \<Longrightarrow> Q (g E n W) W"
  shows "does E (world_ok L) (andthen sync (\<lambda>n E W. Some (g E n W, W))) Q"
  by (rule does_andthen [OF does_sync [OF assms(1)]]) (simp add: does_def assms(2))

lemma does_read:
  assumes "env_ok E" and "\<And>ord W. world_ok L W \<Longrightarrow> permutes ord \<Longrightarrow> Q (f ord (w_fsm W)) W"
  shows "does E (world_ok L) (read_fsm f) Q"
  unfolding read_fsm_def
  by (rule does_query [OF assms(1)]) (use assms in \<open>simp add: env_ok_def\<close>)

lemma does_is_leader: "env_ok E \<Longrightarrow> does E (world_ok L) is_leader (\<lambda>_. world_ok L)"
  unfolding is_leader_def by (rule does_query)

lemma does_time_now: "env_ok E \<Longrightarrow> does E (world_ok L) time_now (\<lambda>_. world_ok L)"
  unfolding time_now_def by (rule does_query)

lemma does_rand_read:
  "env_ok E \<Longrightarrow> does E (world_ok L) (rand_read k) (\<lambda>bs W. world_ok L W \<and> length bs = k)"
  unfolding rand_read_def by (rule does_query) simp_all

lemma does_unix_nano:
  assumes E: "env_ok E"
  shows "does E (world_ok L) now_unix_nano (\<lambda>ts W. world_ok L W \<and> int64_ok ts)"
  unfolding now_unix_nano_def
  by (rule does_andthen [OF does_time_now [OF E]], rule does_ret) (simp add: unix_nano_def wrap64_range)

lemma does_members: "env_ok E \<Longrightarrow> does E (world_ok L) members (\<lambda>_. world_ok L)"
  unfolding members_def by (rule does_query)

lemma does_raft_apply:
  assumes E: "env_ok E" and w: "wire_ok w" "L w"
  shows "does E (world_ok L) (raft_apply w) (\<lambda>_. world_ok L)"
  unfolding raft_apply_def
proof (rule does_andthen [OF does_sync [OF E]])
  fix n
  show "does E (world_ok L) (\<lambda>E W. map_option (\<lambda>W'. (ra_err (e_raft E n), W'))
      (commit_all (if ra_commit (e_raft E n) then [w] else []) (W\<lparr>w_sent := w_sent W @ [w]\<rparr>)))
      (\<lambda>_. world_ok L)"
    unfolding does_def
  proof (intro allI impI)
    fix W :: world assume W: "world_ok L W"
    let ?W = "W\<lparr>w_sent := w_sent W @ [w]\<rparr>" and ?ws = "if ra_commit (e_raft E n) then [w] else []"
    obtain W' where "commit_all ?ws ?W = Some W'" "fsm_ok (w_fsm W')" "w_sent W' = w_sent W @ [w]"
      using commit_all_ok [of ?W ?ws] W w by (auto simp: world_ok_def)
    with W w show "\<exists>x W'. map_option (\<lambda>W'. (ra_err (e_raft E n), W')) (commit_all ?ws ?W) = Some (x, W')
        \<and> world_ok L W'"
      by (auto simp: world_ok_def)
  qed
qed

lemma does_cluster_apply:
  assumes E: "env_ok E" and w: "wire_ok w" "L w"
  shows "does E (world_ok L) (cluster_apply w) (\<lambda>_. world_ok L)"
  unfolding cluster_apply_def
  by (intro does_andthen [OF does_is_leader [OF E]] does_if does_raft_apply does_ret assms) simp

lemma data_wire_ok: "(\<And>j. p = Inr j \<Longrightarrow> json_ok j) \<Longrightarrow> wire_ok (data_or_nil (encode t p idem ts))"
  by (cases "encode t p idem ts") (auto simp: data_or_nil_def wire_ok_def [of None] intro: encode_wire_ok)

end
