(* ===== verification/Sha256.thy ===== *)
theory Sha256
  imports GoStrings
begin

text \<open>
  \<open>crypto/sha256\<close> as the API uses it: the SHA-256 digest (FIPS 180-4) of a byte string, on
  words. The properties of the API need nothing of it but its length, so nothing here is
  assumed about collisions.
\<close>

definition sha256_k :: "u32 list" where
  "sha256_k = [
     1116352408, 1899447441, 3049323471, 3921009573, 961987163, 1508970993, 2453635748, 2870763221,
     3624381080, 310598401, 607225278, 1426881987, 1925078388, 2162078206, 2614888103, 3248222580,
     3835390401, 4022224774, 264347078, 604807628, 770255983, 1249150122, 1555081692, 1996064986,
     2554220882, 2821834349, 2952996808, 3210313671, 3336571891, 3584528711, 113926993, 338241895,
     666307205, 773529912, 1294757372, 1396182291, 1695183700, 1986661051, 2177026350, 2456956037,
     2730485921, 2820302411, 3259730800, 3345764771, 3516065817, 3600352804, 4094571909, 275423344,
     430227734, 506948616, 659060556, 883997877, 958139571, 1322822218, 1537002063, 1747873779,
     1955562222, 2024104815, 2227730452, 2361852424, 2428436474, 2756734187, 3204031479, 3329325298]"

definition sha256_init :: "u32 list" where
  "sha256_init = [1779033703, 3144134277, 1013904242, 2773480762, 1359893119, 2600822924, 528734635, 1541459225]"

text \<open>Big-endian words and bytes.\<close>

definition be_bytes :: "nat \<Rightarrow> nat \<Rightarrow> u8 list" where
  "be_bytes n x = map (\<lambda>i. word_of_nat (x div 256 ^ (n - 1 - i))) [0..<n]"

fun be_words :: "u8 list \<Rightarrow> u32 list" where
  "be_words (a # b # c # d # bs) =
     (push_bit 24 (ucast a) OR push_bit 16 (ucast b) OR push_bit 8 (ucast c) OR ucast d) # be_words bs"
| "be_words bs = []"

definition sha256_pad :: "u8 list \<Rightarrow> u8 list" where
  "sha256_pad m = m @ [0x80] @ replicate ((119 - length m mod 64) mod 64) 0 @ be_bytes 8 (8 * length m)"

definition extend_schedule :: "u32 list \<Rightarrow> nat \<Rightarrow> u32 list" where
  "extend_schedule ws t =
     (let x = ws ! (t - 15); y = ws ! (t - 2);
          s0 = word_rotr 7 x XOR word_rotr 18 x XOR drop_bit 3 x;
          s1 = word_rotr 17 y XOR word_rotr 19 y XOR drop_bit 10 y
      in ws @ [ws ! (t - 16) + s0 + ws ! (t - 7) + s1])"

definition sha256_round :: "u32 list \<Rightarrow> u32 \<times> u32 \<Rightarrow> u32 list" where
  "sha256_round st kw =
     (case st of
        [a, b, c, d, e, f, g, h] \<Rightarrow>
          (let s1 = word_rotr 6 e XOR word_rotr 11 e XOR word_rotr 25 e;
               ch = (e AND f) XOR (NOT e AND g);
               t1 = h + s1 + ch + fst kw + snd kw;
               s0 = word_rotr 2 a XOR word_rotr 13 a XOR word_rotr 22 a;
               maj = (a AND b) XOR (a AND c) XOR (b AND c)
           in [t1 + s0 + maj, a, b, c, d + t1, e, f, g])
      | _ \<Rightarrow> st)"

definition sha256_block :: "u32 list \<Rightarrow> u32 list \<Rightarrow> u32 list" where
  "sha256_block st ws =
     map2 (+) st (foldl sha256_round st (zip sha256_k (foldl extend_schedule ws [16..<64])))"

fun sha256_blocks :: "u32 list \<Rightarrow> u32 list \<Rightarrow> u32 list" where
  "sha256_blocks st [] = st"
| "sha256_blocks st (w # ws) = sha256_blocks (sha256_block st (take 16 (w # ws))) (drop 15 ws)"

definition sha256 :: "u8 list \<Rightarrow> u8 list" where
  "sha256 m = concat (map (\<lambda>w. be_bytes 4 (unat w)) (sha256_blocks sha256_init (be_words (sha256_pad m))))"

section \<open>The digest has 32 bytes\<close>

lemma length_be_bytes [simp]: "length (be_bytes n x) = n"
  by (simp add: be_bytes_def)

lemma length_sha256_round: "length st = 8 \<Longrightarrow> length (sha256_round st kw) = 8"
  by (auto simp: sha256_round_def Let_def split: list.splits)

lemma length_sha256_rounds: "length st = 8 \<Longrightarrow> length (foldl sha256_round st kws) = 8"
  by (induction kws arbitrary: st) (simp_all add: length_sha256_round)

lemma length_sha256_block: "length st = 8 \<Longrightarrow> length (sha256_block st ws) = 8"
  by (simp add: sha256_block_def length_sha256_rounds)

lemma length_sha256_blocks: "length st = 8 \<Longrightarrow> length (sha256_blocks st ws) = 8"
  by (induction st ws rule: sha256_blocks.induct) (simp_all add: length_sha256_block)

lemma length_sha256 [simp]: "length (sha256 m) = 32"
proof -
  have "length (concat (map (\<lambda>w. be_bytes 4 (unat w)) ws)) = 4 * length ws" for ws :: "u32 list"
    by (induction ws) simp_all
  moreover have "length (sha256_blocks sha256_init ws) = 8" for ws
    by (rule length_sha256_blocks) (simp add: sha256_init_def)
  ultimately show ?thesis unfolding sha256_def by simp
qed

end
