(* ===== verification/GoPath.thy ===== *)
theory GoPath
  imports GoStrings
begin

text \<open>
  The lexical path functions of \<open>path\<close> and \<open>path/filepath\<close> (on Unix the same): \<open>Clean\<close>,
  \<open>Join\<close>, \<open>Base\<close> and \<open>Rel\<close>. A cleaned path is the list of its elements.
\<close>

section \<open>Clean\<close>

text \<open>
  One element at a time, the kept ones in reverse: empty elements and \<open>.\<close> are dropped, \<open>..\<close>
  takes back the element before it, and at the front is dropped from a rooted path and kept
  in a relative one.
\<close>

fun clean_elems :: "bool \<Rightarrow> string list \<Rightarrow> string list \<Rightarrow> string list" where
  "clean_elems rooted [] acc = rev acc"
| "clean_elems rooted (e # es) acc =
     (if e = [] \<or> e = ''.'' then clean_elems rooted es acc
      else if e = ''..'' then
        (case acc of
           [] \<Rightarrow> clean_elems rooted es (if rooted then [] else [''..''])
         | a # acc' \<Rightarrow> clean_elems rooted es (if a = ''..'' then ''..'' # acc else acc'))
      else clean_elems rooted es (e # acc))"

definition rooted :: "string \<Rightarrow> bool" where
  "rooted p \<longleftrightarrow> has_prefix p ''/''"

definition elems :: "string \<Rightarrow> string list" where
  "elems p = clean_elems (rooted p) (split CHR ''/'' p) []"

definition path_clean :: "string \<Rightarrow> string" where
  "path_clean p =
     (if p = [] then ''.''
      else if rooted p then ''/'' @ join ''/'' (elems p)
      else if elems p = [] then ''.''
      else join ''/'' (elems p))"

text \<open>\<open>Join\<close> ignores empty arguments and cleans the rest joined by slashes.\<close>

definition path_join :: "string list \<Rightarrow> string" where
  "path_join ps = (let qs = filter (\<lambda>p. p \<noteq> []) ps in if qs = [] then [] else path_clean (join ''/'' qs))"

text \<open>\<open>Base\<close>: the last element, after trailing slashes are removed.\<close>

definition path_base :: "string \<Rightarrow> string" where
  "path_base p =
     (if p = [] then ''.''
      else let q = rev (dropWhile (\<lambda>c. c = CHR ''/'') (rev p))
           in if q = [] then ''/'' else rev (takeWhile (\<lambda>c. c \<noteq> CHR ''/'') (rev q)))"

text \<open>\<open>Dir\<close>: what is left of the last slash.\<close>

definition path_dir :: "string \<Rightarrow> string" where
  "path_dir p = path_clean (rev (dropWhile (\<lambda>c. c \<noteq> CHR ''/'') (rev p)))"

text \<open>\<open>Rel(base, targ)\<close>, on the elements of the cleaned paths: the common ones are dropped, each one
  left of the base is climbed out of, which a \<open>..\<close> in it makes impossible.\<close>

fun rel_elems :: "string list \<Rightarrow> string list \<Rightarrow> string list option" where
  "rel_elems (b # bs) (t # ts) =
     (if b = t then rel_elems bs ts
      else if b = ''..'' then None else Some (map (\<lambda>_. ''..'') (b # bs) @ t # ts))"
| "rel_elems (b # bs) [] = (if b = ''..'' then None else Some (map (\<lambda>_. ''..'') (b # bs)))"
| "rel_elems [] ts = Some ts"

definition path_rel :: "string \<Rightarrow> string \<Rightarrow> string result" where
  "path_rel base targ =
     (let fail = Inl (Errorf (''Rel: can't make '' @ targ @ '' relative to '' @ base)) in
      if rooted (path_clean base) \<noteq> rooted (path_clean targ) then fail
      else case rel_elems (elems base) (elems targ) of
             None \<Rightarrow> fail
           | Some es \<Rightarrow> Inr (if es = [] then ''.'' else join ''/'' es))"

section \<open>Cleaned elements\<close>

definition plain :: "string \<Rightarrow> bool" where
  "plain e \<longleftrightarrow> e \<noteq> [] \<and> e \<noteq> ''.'' \<and> e \<noteq> ''..'' \<and> CHR ''/'' \<notin> set e"

lemma plainD: "plain e \<Longrightarrow> e \<noteq> [] \<and> e \<noteq> ''.'' \<and> e \<noteq> ''..'' \<and> CHR ''/'' \<notin> set e"
  by (simp add: plain_def)

lemma clean_elems_plain:
  "\<forall>e\<in>set es. CHR ''/'' \<notin> set e \<Longrightarrow> \<forall>e\<in>set acc. plain e \<Longrightarrow> \<forall>e\<in>set (clean_elems True es acc). plain e"
proof (induction es arbitrary: acc)
  case Nil
  then show ?case by simp
next
  case (Cons e es)
  have es: "\<forall>e\<in>set es. CHR ''/'' \<notin> set e" using Cons.prems(1) by simp
  note IH = Cons.IH [OF es]
  consider "e = [] \<or> e = ''.''" | "e = ''..''" | "e \<noteq> []" "e \<noteq> ''.''" "e \<noteq> ''..''" by blast
  then show ?case
  proof cases
    case 1
    with IH [OF Cons.prems(2)] show ?thesis by auto
  next
    case 2
    show ?thesis
    proof (cases acc)
      case Nil
      with 2 IH [of "[]"] show ?thesis by simp
    next
      case (Cons a acc')
      with Cons.prems(2) plainD [of a] have "a \<noteq> ''..''" "\<forall>x\<in>set acc'. plain x" by auto
      with 2 Cons IH [of acc'] show ?thesis by simp
    qed
  next
    case 3
    with Cons.prems have "\<forall>x\<in>set (e # acc). plain x" by (simp add: plain_def)
    with 3 IH [of "e # acc"] show ?thesis by simp
  qed
qed

lemma clean_elems_id: "\<forall>e\<in>set es. plain e \<Longrightarrow> clean_elems r es acc = rev acc @ es"
  by (induction es arbitrary: acc) (auto simp: plain_def)

text \<open>The elements of a cleaned rooted path are names: no \<open>..\<close> is left to climb with.\<close>

lemma elems_plain: "rooted p \<Longrightarrow> \<forall>e\<in>set (elems p). plain e"
  unfolding elems_def by (simp, rule clean_elems_plain) (auto dest: split_pieces)

lemma split_rooted: "split CHR ''/'' (CHR ''/'' # s) = [] # split CHR ''/'' s"
  by simp

lemma elems_join:
  assumes "\<forall>e\<in>set es. plain e"
  shows "elems (''/'' @ join ''/'' es) = es"
proof -
  have "split CHR ''/'' (join ''/'' es) = (if es = [] then [[]] else es)"
    using assms split_join [of es "CHR ''/''"] by (auto simp: plain_def)
  with assms clean_elems_id [of es True "[]"] show ?thesis
    by (simp add: elems_def rooted_def)
qed

lemma path_clean_rooted: "rooted p \<Longrightarrow> path_clean p = ''/'' @ join ''/'' (elems p)"
  by (auto simp: path_clean_def rooted_def)

text \<open>Cleaning is idempotent on rooted paths.\<close>

lemma path_clean_idem: "rooted p \<Longrightarrow> path_clean (path_clean p) = path_clean p"
proof -
  assume r: "rooted p"
  have "rooted (path_clean p)" using path_clean_rooted [OF r] by (simp add: rooted_def)
  moreover have "elems (path_clean p) = elems p"
    unfolding path_clean_rooted [OF r] by (rule elems_join) (rule elems_plain [OF r])
  ultimately show ?thesis using path_clean_rooted [OF r] path_clean_rooted by simp
qed

section \<open>Joining below a base\<close>

lemma clean_elems_append:
  "clean_elems r (xs @ ys) acc = clean_elems r ys (rev (clean_elems r xs acc))"
  by (cases r) (induction xs arbitrary: acc; simp split: list.split)+

lemma split_append: "split c (a @ c # b) = split c a @ split c b"
proof (induction a)
  case Nil
  then show ?case by simp
next
  case (Cons x a)
  show ?case
  proof (cases "split c a")
    case Nil
    then show ?thesis by simp
  next
    case (Cons p ps)
    with Cons.IH show ?thesis by simp
  qed
qed

lemma clean_elems_skip: "clean_elems r ([] # es) acc = clean_elems r es acc"
  by simp

lemma elems_below:
  assumes "rooted base" and "\<forall>e\<in>set es. plain e"
  shows "elems (base @ ''/'' @ ''/'' @ join ''/'' es) = elems base @ es"
proof -
  have r: "rooted (base @ t)" for t using assms(1) by (cases base) (simp_all add: rooted_def)
  have "split CHR ''/'' (join ''/'' es) = (if es = [] then [[]] else es)"
    using assms(2) split_join [of es "CHR ''/''"] by (auto simp: plain_def)
  with clean_elems_id [OF assms(2), of True "rev (elems base)"] show ?thesis
    by (simp add: elems_def r assms(1) split_append clean_elems_append)
qed

text \<open>\<open>Join(base, Clean("/" + p))\<close> lies below the base, at the cleaned elements of \<open>p\<close>.\<close>

definition below :: "string \<Rightarrow> string \<Rightarrow> bool" where
  "below base p \<longleftrightarrow> rooted p \<and> take (length (elems base)) (elems p) = elems base"

lemma clean_slash: "path_clean (''/'' @ p) = ''/'' @ join ''/'' (elems (''/'' @ p))"
  by (rule path_clean_rooted) (simp add: rooted_def)

lemma join_below:
  assumes "rooted base"
  shows "elems (path_join [base, path_clean (''/'' @ p)]) = elems base @ elems (''/'' @ p)"
    and "rooted (path_join [base, path_clean (''/'' @ p)])"
    and "path_join [base, path_clean (''/'' @ p)] = ''/'' @ join ''/'' (elems base @ elems (''/'' @ p))"
proof -
  let ?es = "elems (''/'' @ p)"
  have pl: "\<forall>e\<in>set ?es. plain e" by (rule elems_plain) (simp add: rooted_def)
  have ne: "base \<noteq> []" using assms by (cases base) (simp_all add: rooted_def)
  have j: "path_join [base, path_clean (''/'' @ p)] = path_clean (base @ ''/'' @ ''/'' @ join ''/'' ?es)"
    unfolding clean_slash using ne by (simp add: path_join_def)
  have r: "rooted (base @ ''/'' @ ''/'' @ join ''/'' ?es)"
    using assms by (cases base) (simp_all add: rooted_def)
  have "\<forall>e\<in>set (elems base @ ?es). plain e" using pl elems_plain [OF assms] by auto
  then show "elems (path_join [base, path_clean (''/'' @ p)]) = elems base @ ?es"
    unfolding j path_clean_rooted [OF r] elems_below [OF assms pl] by (rule elems_join)
  show "rooted (path_join [base, path_clean (''/'' @ p)])"
    unfolding j path_clean_rooted [OF r] by (simp add: rooted_def)
  show "path_join [base, path_clean (''/'' @ p)] = ''/'' @ join ''/'' (elems base @ ?es)"
    unfolding j path_clean_rooted [OF r] elems_below [OF assms pl] ..
qed

lemma rel_elems_prefix: "rel_elems bs (bs @ es) = Some es"
  by (induction bs) simp_all

lemma path_rel_below:
  assumes "rooted base" and "rooted p" and "elems p = elems base @ es"
  shows "path_rel base p = Inr (if es = [] then ''.'' else join ''/'' es)"
proof -
  have "rooted (path_clean base)" "rooted (path_clean p)"
    using assms(1,2) by (simp_all add: path_clean_rooted rooted_def)
  then show ?thesis by (simp add: path_rel_def assms(3) rel_elems_prefix)
qed

lemma has_prefix_join: "CHR ''/'' \<notin> set p \<Longrightarrow> has_prefix (join ''/'' (e # es)) p \<longleftrightarrow> has_prefix e p"
proof -
  assume p: "CHR ''/'' \<notin> set p"
  have "has_prefix (e @ CHR ''/'' # t) p \<longleftrightarrow> has_prefix e p" for t
    using p by (induction e p rule: has_prefix.induct) auto
  then show ?thesis by (cases es) simp_all
qed

lemma path_dir_below:
  assumes "\<forall>e\<in>set es. plain e" and "es \<noteq> []"
  shows "path_dir (''/'' @ join ''/'' es) = ''/'' @ join ''/'' (butlast es)"
proof -
  obtain ds e where es: "es = ds @ [e]" using assms(2) by (metis rev_exhaust)
  with assms have e: "CHR ''/'' \<notin> set e" and ds: "\<forall>d\<in>set ds. plain d" by (auto simp: plain_def)
  have drop: "rev (dropWhile (\<lambda>c. c \<noteq> CHR ''/'') (rev (x @ CHR ''/'' # e))) = x @ ''/''" for x
    using e by (simp add: dropWhile_append)
  have jn: "join ''/'' (ds @ [e]) = (if ds = [] then e else join ''/'' ds @ ''/'' @ e)"
    by (induction ds rule: induct_list012) auto
  show ?thesis
  proof (cases "ds = []")
    case True
    with drop [of "[]"] es show ?thesis
      by (simp add: path_dir_def path_clean_def rooted_def elems_def)
  next
    case False
    have "path_dir (''/'' @ join ''/'' es) = path_clean (''/'' @ join ''/'' ds @ ''/'')"
      using drop [of "''/'' @ join ''/'' ds"] False by (simp add: path_dir_def es jn)
    moreover have "elems (''/'' @ join ''/'' ds @ ''/'') = ds"
    proof -
      have "split CHR ''/'' (join ''/'' ds) = ds"
        using ds False split_join [of ds "CHR ''/''"] by (auto simp: plain_def)
      with clean_elems_id [OF ds, of True "[]"] show ?thesis
        by (simp add: elems_def rooted_def split_append clean_elems_append)
    qed
    ultimately show ?thesis
      using es path_clean_rooted [of "''/'' @ join ''/'' ds @ ''/''"] by (simp add: rooted_def)
  qed
qed

section \<open>Names without two dots\<close>

lemma clean_elems_no_dots:
  "''..'' \<notin> set es \<Longrightarrow> clean_elems r es acc = rev acc @ filter (\<lambda>e. e \<noteq> [] \<and> e \<noteq> ''.'') es"
  by (induction es arbitrary: acc) auto

lemma split_piece_of: "p \<in> set (split c s) \<Longrightarrow> contains s p"
proof (induction s arbitrary: p)
  case Nil
  then show ?case by simp
next
  case (Cons x xs)
  have hd: "has_prefix s (hd (split c s))" for s
    by (induction s) (auto split: list.splits)
  show ?case
  proof (cases "p = hd (split c (x # xs))")
    case True
    with hd [of "x # xs"] show ?thesis by simp
  next
    case False
    with Cons.prems have "p \<in> set (split c xs)" by (auto split: if_splits list.splits)
    with Cons.IH show ?thesis by simp
  qed
qed

text \<open>\<open>Join(base, name)\<close> for a name in which no element is \<open>..\<close> lies below the base.\<close>

lemma join_names_below:
  assumes "rooted base" and nd: "''..'' \<notin> set (split CHR ''/'' name)" and "name \<noteq> []"
  shows "path_join [base, name] = ''/'' @ join ''/'' (elems base @ elems (''/'' @ name))"
    and "elems (path_join [base, name]) = elems base @ elems (''/'' @ name)"
proof -
  have ne: "base \<noteq> []" using assms(1) by (cases base) (simp_all add: rooted_def)
  have r: "rooted (base @ t)" for t using assms(1) by (cases base) (simp_all add: rooted_def)
  have e: "elems (base @ ''/'' @ name) = elems base @ elems (''/'' @ name)"
    using nd r [of "''/'' @ name"] assms(1)
    by (simp add: elems_def rooted_def split_append clean_elems_append clean_elems_no_dots)
  show j: "path_join [base, name] = ''/'' @ join ''/'' (elems base @ elems (''/'' @ name))"
    using ne assms(3) path_clean_rooted [OF r [of "''/'' @ name"]] e by (simp add: path_join_def)
  show "elems (path_join [base, name]) = elems base @ elems (''/'' @ name)"
    unfolding j
    by (rule elems_join) (use elems_plain [OF assms(1)] elems_plain [of "''/'' @ name"] in \<open>auto simp: rooted_def\<close>)
qed

lemma join_name_below:
  assumes "rooted base" and "\<not> contains name ''..''" and "name \<noteq> []"
  shows "path_join [base, name] = ''/'' @ join ''/'' (elems base @ elems (''/'' @ name))"
    and "elems (path_join [base, name]) = elems base @ elems (''/'' @ name)"
proof -
  have nd: "''..'' \<notin> set (split CHR ''/'' name)" using assms(2) split_piece_of by blast
  show "path_join [base, name] = ''/'' @ join ''/'' (elems base @ elems (''/'' @ name))"
    and "elems (path_join [base, name]) = elems base @ elems (''/'' @ name)"
    using join_names_below [OF assms(1) nd assms(3)] by simp_all
qed

text \<open>Joining plain names: the elements are those of the base and the names.\<close>

lemma join_plain:
  assumes "rooted base" and "plain a"
  shows "path_join [base, a] = ''/'' @ join ''/'' (elems base @ [a])"
    and "elems (path_join [base, a]) = elems base @ [a]"
    and "plain b \<Longrightarrow> path_join [base, a, b] = ''/'' @ join ''/'' (elems base @ [a, b])"
    and "plain b \<Longrightarrow> elems (path_join [base, a, b]) = elems base @ [a, b]"
proof -
  have a: "a \<noteq> []" "CHR ''/'' \<notin> set a" "a \<noteq> ''..''" using plainD [OF assms(2)] by simp_all
  have ea: "elems (''/'' @ a) = [a]" using elems_join [of "[a]"] assms(2) by simp
  have sa: "''..'' \<notin> set (split CHR ''/'' a)" using a by (simp add: split_no_sep)
  show "path_join [base, a] = ''/'' @ join ''/'' (elems base @ [a])"
    and "elems (path_join [base, a]) = elems base @ [a]"
    using join_names_below [OF assms(1) sa a(1)] unfolding ea by simp_all
  assume b: "plain b"
  have ne: "base \<noteq> []" using assms(1) by (cases base) (simp_all add: rooted_def)
  have j: "path_join [base, a, b] = path_join [base, a @ ''/'' @ b]"
    using ne a(1) plainD [OF b] by (simp add: path_join_def)
  have sb: "''..'' \<notin> set (split CHR ''/'' (a @ ''/'' @ b))"
    using a plainD [OF b] by (auto simp: split_append_sep split_no_sep)
  have eb: "elems (''/'' @ a @ ''/'' @ b) = [a, b]" using elems_join [of "[a, b]"] assms(2) b by simp
  show "path_join [base, a, b] = ''/'' @ join ''/'' (elems base @ [a, b])"
    and "elems (path_join [base, a, b]) = elems base @ [a, b]"
    unfolding j using join_names_below [OF assms(1) sb] a(1) unfolding eb by simp_all
qed

lemma join_plain_rooted: "rooted base \<Longrightarrow> plain a \<Longrightarrow> rooted (path_join [base, a])"
  using join_plain(1) [of base a] by (simp add: rooted_def)

lemma below_refl: "rooted p \<Longrightarrow> below p p"
  by (simp add: below_def)

lemma plain_elems: "plain e \<Longrightarrow> elems (''/'' @ e) = [e]"
  using elems_join [of "[e]"] by simp

text \<open>The directory of a path below the base is below the base, or the one the base is in.\<close>

lemma dir_below:
  assumes "rooted base" and "path_clean base = base" and "base \<noteq> ''/''"
    and "p = ''/'' @ join ''/'' (elems base @ es)" and "\<forall>e\<in>set es. plain e"
  shows "below base (path_dir p) \<or> path_dir p = path_dir base"
proof (cases "es = []")
  case True
  with assms(2,4) path_clean_rooted [OF assms(1)] show ?thesis by simp
next
  case False
  have base: "base = ''/'' @ join ''/'' (elems base)"
    using path_clean_rooted [OF assms(1)] assms(2) by simp
  have pl: "\<forall>e\<in>set (elems base @ es). plain e" using assms(5) elems_plain [OF assms(1)] by auto
  have dir: "path_dir p = ''/'' @ join ''/'' (elems base @ butlast es)"
    unfolding assms(4) using False path_dir_below [OF pl] by (simp add: butlast_append)
  have "\<forall>e\<in>set (elems base @ butlast es). plain e" using pl by (auto dest: in_set_butlastD)
  from elems_join [OF this] have "elems (path_dir p) = elems base @ butlast es" unfolding dir .
  then show ?thesis using dir by (simp add: below_def rooted_def)
qed

lemma joined_below:
  assumes "rooted base" and "p = ''/'' @ join ''/'' (elems base @ es)" and "\<forall>e\<in>set es. plain e"
  shows "below base p"
proof -
  have "\<forall>e\<in>set (elems base @ es). plain e" using assms(3) elems_plain [OF assms(1)] by auto
  from elems_join [OF this] show ?thesis by (simp add: below_def rooted_def assms(2))
qed

text \<open>What \<open>Rel\<close> gives for a path below a base leads to the same place below another.\<close>

lemma join_relative:
  assumes "rooted base" and "\<forall>e\<in>set es. plain e"
  shows "path_join [base, if es = [] then ''.'' else join ''/'' es] = ''/'' @ join ''/'' (elems base @ es)"
proof (cases "es = []")
  case True
  have "''..'' \<notin> set (split CHR ''/'' ''.'')" by simp
  moreover have "elems (''/'' @ ''.'') = []" by (simp add: elems_def rooted_def)
  ultimately show ?thesis using join_names_below(1) [OF assms(1), of "''.''"] True by simp
next
  case False
  have sp: "split CHR ''/'' (join ''/'' es) = es"
    using assms(2) False by (intro split_join) (auto simp: plain_def)
  have "''..'' \<notin> set (split CHR ''/'' (join ''/'' es))" using assms(2) unfolding sp by (auto simp: plain_def)
  moreover have "join ''/'' es \<noteq> []" using assms(2) False by (cases es rule: remdups_adj.cases) (auto simp: plain_def)
  ultimately show ?thesis
    using join_names_below(1) [OF assms(1), of "join ''/'' es"] elems_join [OF assms(2)] False by simp
qed

end
