(* ===== verification/Http.thy ===== *)
theory Http
  imports Cluster Sha256 GoPath
begin

text \<open>
  What the API uses of \<open>net/http\<close>: requests, replies and the request multiplexer. A request's
  body is the first JSON value it holds (\<open>None\<close>: none can be read), its path is unescaped and
  holds no escapes. A handler is an operation of the daemon; a reply that cannot be encoded
  has its status and no body.
\<close>

section \<open>Requests and replies\<close>

record http_request =
  hr_method :: string
  hr_path :: string
  hr_authz :: string
  hr_query :: "string \<Rightarrow> string"
  hr_body :: wire

datatype reply_body = NoBody | JsonBody json | ErrText string | ErrOf go_error | Stream string | RedirectTo string

record response =
  rp_status :: nat
  rp_body :: reply_body

definition reply :: "nat \<Rightarrow> reply_body \<Rightarrow> response" where
  "reply status b = \<lparr>rp_status = status, rp_body = b\<rparr>"

definition write_json :: "nat \<Rightarrow> json result \<Rightarrow> response" where
  "write_json status r = reply status (case r of Inl _ \<Rightarrow> NoBody | Inr j \<Rightarrow> JsonBody j)"

text \<open>\<open>httpError\<close> with a text, and with \<open>err.Error()\<close>.\<close>

definition http_error :: "nat \<Rightarrow> string \<Rightarrow> response" where
  "http_error status msg = reply status (ErrText msg)"

definition error_reply :: "nat \<Rightarrow> go_error \<Rightarrow> response" where
  "error_reply status e = reply status (ErrOf e)"

type_synonym handler = "http_request \<Rightarrow> response op"

text \<open>\<open>json.NewDecoder(r.Body).Decode(&body)\<close> into a zero struct.\<close>

definition decode_body :: "'r fields \<Rightarrow> 'r \<Rightarrow> http_request \<Rightarrow> 'r result" where
  "decode_body fs zero r = (case hr_body r of None \<Rightarrow> Inl ErrJson | Some j \<Rightarrow> dec_struct fs j zero)"

text \<open>A slice in a reply (never a nil one where the code replies with it).\<close>

fun enc_list_elems :: "('v \<Rightarrow> json result) \<Rightarrow> 'v list \<Rightarrow> json list result" where
  "enc_list_elems enc [] = Inr []"
| "enc_list_elems enc (v # vs) = rbind (enc v) (\<lambda>j. rbind (enc_list_elems enc vs) (\<lambda>js. Inr (j # js)))"

definition enc_list :: "('v \<Rightarrow> json result) \<Rightarrow> 'v list \<Rightarrow> json result" where
  "enc_list enc vs = rbind (enc_list_elems enc vs) (\<lambda>js. Inr (JArr js))"

section \<open>The multiplexer\<close>

text \<open>Registering a pattern twice panics.\<close>

type_synonym mux = "(string \<times> handler) list"

fun register_all :: "(string \<times> 'h) list \<Rightarrow> (string \<times> 'h) list \<Rightarrow> (string \<times> 'h) list option" where
  "register_all [] m = Some m"
| "register_all ((p, h) # rs) m = (if p \<in> fst ` set m then None else register_all rs (m @ [(p, h)]))"

lemma register_all_distinct: "register_all rs m = Some m' \<Longrightarrow> distinct (map fst m) \<Longrightarrow> m' = m @ rs \<and> distinct (map fst m')"
proof (induction rs m rule: register_all.induct)
  case (1 m)
  then show ?case by simp
next
  case (2 p h rs m)
  then have p: "p \<notin> fst ` set m" and r: "register_all rs (m @ [(p, h)]) = Some m'"
    by (simp_all split: if_splits)
  have "distinct (map fst (m @ [(p, h)]))" using p 2(3) by simp
  from 2(1) [OF p r this] show ?case by (metis append.assoc append_Cons append_Nil)
qed

lemma register_all_twice: "\<not> distinct (map fst rs) \<Longrightarrow> register_all rs [] = None"
proof (rule ccontr)
  assume "\<not> distinct (map fst rs)" "register_all rs [] \<noteq> None"
  with register_all_distinct [of rs "[]"] show False by auto
qed

text \<open>A pattern that ends in a slash matches everything below it, the longest one first.\<close>

definition pattern_matches :: "string \<Rightarrow> string \<Rightarrow> bool" where
  "pattern_matches pat path \<longleftrightarrow> pat = path \<or> (pat \<noteq> [] \<and> last pat = CHR ''/'' \<and> has_prefix path pat)"

fun best_match :: "(string \<times> 'h) list \<Rightarrow> string \<Rightarrow> (string \<times> 'h) option" where
  "best_match [] path = None"
| "best_match ((p, h) # m) path =
     (case best_match m path of
        None \<Rightarrow> if pattern_matches p path then Some (p, h) else None
      | Some (q, g) \<Rightarrow>
          if pattern_matches p path \<and> length p > length q then Some (p, h) else Some (q, g))"

text \<open>\<open>cleanPath\<close>: rooted and clean, a trailing slash kept.\<close>

definition clean_path :: "string \<Rightarrow> string" where
  "clean_path p =
     (if p = [] then ''/''
      else let q = (if hd p = CHR ''/'' then p else CHR ''/'' # p); np = path_clean q
           in if last q = CHR ''/'' \<and> np \<noteq> ''/'' then np @ ''/'' else np)"

text \<open>
  A path that is not clean is redirected to its clean form, except for CONNECT, and a path
  that only lacks the slash of a pattern to the path with the slash.
\<close>

definition serve_mux :: "mux \<Rightarrow> handler" where
  "serve_mux m r =
     (let p = hr_path r in
      if hr_method r \<noteq> ''CONNECT'' \<and> clean_path p \<noteq> p then ret (reply 301 (RedirectTo (clean_path p)))
      else if p \<notin> fst ` set m \<and> (p = [] \<or> last p \<noteq> CHR ''/'') \<and> p @ ''/'' \<in> fst ` set m
      then ret (reply 301 (RedirectTo (p @ ''/'')))
      else case best_match m p of
             None \<Rightarrow> ret (reply 404 (Stream ''404 page not found''))
           | Some (_, h) \<Rightarrow> h r)"

lemma best_match_in: "best_match m path = Some (p, h) \<Longrightarrow> (p, h) \<in> set m \<and> pattern_matches p path"
  by (induction m arbitrary: p h) (fastforce split: option.splits if_splits)+

lemma pattern_matches_prefix: "pattern_matches p path \<Longrightarrow> has_prefix p q \<Longrightarrow> has_prefix path q"
  by (auto simp: pattern_matches_def intro: has_prefix_trans)

end
