(* ===== verification/Auth.thy ===== *)
theory Auth
  imports Http
begin

text \<open>
  daemon/internal/api: bearer tokens (server.go, rbac.go, token_helpers.go, ids.go). A token is
  kept under the first 8 bytes of the digest of its text; \<open>withAuth\<close> looks it up by them,
  \<open>RBACMiddleware\<close> searches the stored full digest. The package declares \<open>hasScope\<close> twice, so
  that it does not compile as it stands: both are modelled, each with its caller.
\<close>

section \<open>Tokens and identifiers\<close>

definition generate_secure_token :: "string op" where
  "generate_secure_token = andthen (rand_read 32) (\<lambda>b. ret (''aether_'' @ hex_encode b))"

definition token_id :: "string \<Rightarrow> string" where
  "token_id raw = hex_encode (take 8 (sha256 (bytes_of raw)))"

definition token_hash :: "string \<Rightarrow> string" where
  "token_hash raw = hex_encode (sha256 (bytes_of raw))"

definition split_path :: "string \<Rightarrow> string list" where
  "split_path p = filter (\<lambda>s. s \<noteq> []) (split CHR ''/'' p)"

definition prefix_id :: "string \<Rightarrow> string op" where
  "prefix_id prefix = andthen (rand_read 8) (\<lambda>b. ret (prefix @ ''_'' @ hex_encode b))"

definition new_server_id :: "string op" where "new_server_id = prefix_id ''srv''"
definition new_database_id :: "string op" where "new_database_id = prefix_id ''db''"
definition new_token_id :: "string op" where "new_token_id = prefix_id ''tok''"

section \<open>withAuth\<close>

definition scope_for_path :: "string \<Rightarrow> string \<Rightarrow> string" where
  "scope_for_path method path =
     (if has_prefix path ''/api/v1/cluster/nodes'' \<or> has_prefix path ''/api/v1/cluster/leader''
      then ''read:cluster''
      else if has_prefix path ''/api/v1/cluster/servers''
      then (if method = ''GET'' then ''read:servers'' else ''write:servers'')
      else if has_prefix path ''/api/v1/databases''
      then (if method = ''GET'' then ''read:databases'' else ''write:databases'')
      else if has_prefix path ''/api/v1/templates'' \<or> has_prefix path ''/api/v1/groups''
      then (if method = ''GET'' then ''read:cluster'' else ''write:cluster'')
      else [])"

fun has_scope :: "string list \<Rightarrow> string \<Rightarrow> bool" where
  "has_scope [] want = False"
| "has_scope (s # ss) want = (if s = want \<or> s = ''admin:*'' then True else has_scope ss want)"

lemma has_scope_iff: "has_scope ss want \<longleftrightarrow> want \<in> set ss \<or> ''admin:*'' \<in> set ss"
  by (induction ss) auto

definition with_auth :: "handler \<Rightarrow> handler" where
  "with_auth next_h r =
     (if has_prefix (hr_path r) ''/healthz'' \<or> has_prefix (hr_path r) ''/readyz'' then next_h r
      else if \<not> has_prefix (hr_path r) ''/api/'' then next_h r
      else if \<not> has_prefix (hr_authz r) ''Bearer '' then ret (http_error 401 ''missing bearer token'')
      else
        (let raw = trim_prefix (hr_authz r) ''Bearer '' in
         andthen (read_fsm (\<lambda>_. fsm_token (token_id raw))) (\<lambda>t.
           case t of
             None \<Rightarrow> ret (http_error 401 ''invalid token'')
           | Some tok \<Rightarrow>
               andthen (if time_is_zero (tk_expires_at tok) then ret False
                        else andthen time_now (\<lambda>now. ret (time_after now (tk_expires_at tok)))) (\<lambda>expired.
               if expired then ret (http_error 401 ''token expired'')
               else let required = scope_for_path (hr_method r) (hr_path r) in
                 if required \<noteq> [] \<and> \<not> has_scope (tk_scopes tok) required
                 then ret (http_error 403 (''missing scope: '' @ required))
                 else next_h r))))"

section \<open>RBACMiddleware\<close>

fun has_scope_rbac :: "string list \<Rightarrow> string \<Rightarrow> bool" where
  "has_scope_rbac [] required = False"
| "has_scope_rbac (s # ss) required = (if s = ''admin'' \<or> s = required then True else has_scope_rbac ss required)"

text \<open>The loop variable whose address is taken is per iteration from Go 1.22 on.\<close>

definition rbac_middleware :: "string \<Rightarrow> handler \<Rightarrow> handler" where
  "rbac_middleware required next_h r =
     (if hr_path r = ''/healthz'' \<or> hr_path r = ''/readyz'' then next_h r
      else if \<not> has_prefix (hr_path r) ''/api/'' then next_h r
      else if hr_authz r = [] then ret (http_error 401 ''authorization header missing'')
      else
        (case split CHR '' '' (hr_authz r) of
           [scheme, raw] \<Rightarrow>
             if to_lower scheme \<noteq> ''bearer''
             then ret (http_error 401 ''invalid authorization header format'')
             else andthen (read_fsm fsm_tokens) (\<lambda>tokens.
               case find (\<lambda>t. tk_hash t = token_hash raw) tokens of
                 None \<Rightarrow> ret (http_error 401 ''unauthorized: invalid token'')
               | Some tok \<Rightarrow>
                   andthen (if time_is_zero (tk_expires_at tok) then ret False
                            else andthen time_now (\<lambda>now. ret (time_after now (tk_expires_at tok)))) (\<lambda>expired.
                   if expired then ret (http_error 401 ''unauthorized: token expired'')
                   else if required \<noteq> [] \<and> \<not> has_scope_rbac (tk_scopes tok) required
                   then ret (http_error 403 ''forbidden: insufficient permissions'')
                   else next_h r))
         | _ \<Rightarrow> ret (http_error 401 ''invalid authorization header format'')))"

section \<open>The token endpoints\<close>

record token_body =
  tb_description :: string
  tb_scopes :: "string list"
  tb_expires_in :: int

definition token_body_fields :: "token_body fields" where
  "token_body_fields =
     [fld ''description'' dec_string tb_description tb_description_update,
      fld ''scopes'' dec_strings tb_scopes tb_scopes_update,
      fld ''expires_in'' dec_int tb_expires_in tb_expires_in_update]"

definition token_body_zero :: token_body where
  "token_body_zero = \<lparr>tb_description = [], tb_scopes = [], tb_expires_in = 0\<rparr>"

text \<open>\<open>time.Now().Add(time.Duration(n) * time.Second)\<close>: the product wraps.\<close>

definition expiry :: "int \<Rightarrow> time \<Rightarrow> time" where
  "expiry n now = time_add now (wrap64 (n * second))"

definition handle_tokens :: handler where
  "handle_tokens r =
     (if hr_method r = ''GET'' then
        andthen (read_fsm fsm_tokens) (\<lambda>tokens.
          ret (write_json 200 (enc_struct [(''tokens'', enc_list enc_token tokens)])))
      else if hr_method r = ''POST'' then
        (case decode_body token_body_fields token_body_zero r of
           Inl _ \<Rightarrow> ret (http_error 400 ''invalid body'')
         | Inr body \<Rightarrow>
             andthen generate_secure_token (\<lambda>raw.
             andthen (if tb_expires_in body > 0 then andthen time_now (\<lambda>now. ret (expiry (tb_expires_in body) now))
                      else ret 0) (\<lambda>expires_at.
             andthen time_now (\<lambda>created_at.
               let tok = \<lparr>tk_id = token_id raw, tk_hash = token_hash raw, tk_description = tb_description body,
                     tk_scopes = tb_scopes body, tk_created_at = created_at, tk_expires_at = expires_at,
                     tk_last_used_at = 0\<rparr> in
               andthen now_unix_nano (\<lambda>ts.
                 case encode CmdTokenUpsert (enc_token tok) [] ts of
                   Inl e \<Rightarrow> ret (error_reply 500 e)
                 | Inr w \<Rightarrow> andthen (cluster_apply w) (\<lambda>e.
                     case e of
                       Some e' \<Rightarrow> ret (error_reply 500 e')
                     | None \<Rightarrow> ret (write_json 201 (enc_struct
                         [(''metadata'', enc_token tok), (''token'', Inr (JStr raw))]))))))))
      else ret (http_error 405 ''method not allowed''))"

definition handle_one_token :: handler where
  "handle_one_token r =
     (let i = trim_prefix (hr_path r) ''/api/v1/tokens/'' in
      if i = [] then ret (http_error 404 ''not found'')
      else if hr_method r \<noteq> ''DELETE'' then ret (http_error 405 ''method not allowed'')
      else andthen now_unix_nano (\<lambda>ts.
        case encode CmdTokenRemove (enc_id i) [] ts of
          Inl e \<Rightarrow> ret (error_reply 500 e)
        | Inr w \<Rightarrow> andthen (cluster_apply w) (\<lambda>e.
            case e of
              Some e' \<Rightarrow> ret (error_reply 500 e')
            | None \<Rightarrow> ret (write_json 200 (enc_struct [(''ok'', Inr (JBool True))])))))"

definition rbac_routes :: "(string \<times> handler) list" where
  "rbac_routes = [(''/api/v1/tokens'', handle_tokens), (''/api/v1/tokens/'', handle_one_token)]"

end
