(* ===== verification/Scheduler.thy ===== *)
theory Scheduler
  imports Cluster
begin

text \<open>
  daemon/internal/scheduler (scheduler.go, ids.go): placement, failover and group
  autoscaling, as operations of the daemon that leads. Errors the code discards with
  \<open>_ =\<close> are discarded here; log lines are left out.
\<close>

section \<open>Identifiers and options\<close>

definition new_id :: "string \<Rightarrow> string op" where
  "new_id prefix = andthen (rand_read 8) (\<lambda>bs. ret (prefix @ ''_'' @ hex_encode bs))"

definition short_id :: "string op" where
  "short_id = andthen (rand_read 3) (\<lambda>bs. ret (hex_encode bs))"

record sched_opts =
  so_deadline :: duration
  so_grace :: duration

definition sched_new :: "sched_opts \<Rightarrow> sched_opts" where
  "sched_new o1 =
     (let o2 = (if so_deadline o1 = 0 then o1\<lparr>so_deadline := 1000 * millisecond\<rparr> else o1)
      in if so_grace o2 = 0 then o2\<lparr>so_grace := 2 * second\<rparr> else o2)"

section \<open>Placement\<close>

definition pick_from :: "node list \<Rightarrow> server_spec \<Rightarrow> string \<Rightarrow> node result" where
  "pick_from nodes spec exclude =
     (let candidates = filter (\<lambda>n. \<not> (n_state n \<noteq> NodeUp \<or> n_id n = exclude)
            \<and> \<not> free_memory_mb (n_resources n) < sp_memory_mb spec) nodes
      in case sort_slice (\<lambda>x y. free_memory_mb (n_resources x) > free_memory_mb (n_resources y)) candidates of
           [] \<Rightarrow> Inl ErrNoHost
         | n # _ \<Rightarrow> Inr n)"

definition pick_host :: "server_spec \<Rightarrow> string \<Rightarrow> node result op" where
  "pick_host spec exclude = read_fsm (\<lambda>ord s. pick_from (fsm_nodes ord s) spec exclude)"

section \<open>Writes\<close>

definition apply_node :: "node \<Rightarrow> err op" where
  "apply_node n = andthen now_unix_nano (\<lambda>ts.
     case encode CmdNodeUpsert (enc_node n) [] ts of
       Inl e \<Rightarrow> ret (Some e)
     | Inr w \<Rightarrow> cluster_apply w)"

text \<open>\<open>data, _ := Encode(CmdServerUpsert, srv, ...)\<close> and \<open>Apply\<close>, at four call sites.\<close>

definition apply_server :: "server \<Rightarrow> err op" where
  "apply_server v = andthen now_unix_nano (\<lambda>ts.
     cluster_apply (data_or_nil (encode CmdServerUpsert (enc_server v) [] ts)))"

definition mark_node_down :: "string \<Rightarrow> unit op" where
  "mark_node_down i = andthen (read_fsm (\<lambda>_. fsm_node i)) (\<lambda>r.
     case r of
       None \<Rightarrow> ret ()
     | Some n \<Rightarrow> andthen (apply_node (n\<lparr>n_state := NodeDown\<rparr>)) (\<lambda>_. ret ()))"

definition stop_server :: "string \<Rightarrow> err op" where
  "stop_server i = andthen (read_fsm (\<lambda>_. fsm_server i)) (\<lambda>r.
     case r of
       None \<Rightarrow> ret (Some ErrServerMissing)
     | Some v \<Rightarrow> apply_server (v\<lparr>sv_state := ServerStopping\<rparr>))"

section \<open>Failover\<close>

definition evacuate_one :: "string \<Rightarrow> server \<Rightarrow> unit op" where
  "evacuate_one dead v =
     (if \<not> sp_ha_required (sv_spec v) then
        andthen (apply_server (v\<lparr>sv_state := ServerOrphaned\<rparr>)) (\<lambda>_. ret ())
      else
        andthen (pick_host (sv_spec v) dead) (\<lambda>r.
          case r of
            Inl e \<Rightarrow> ret ()
          | Inr target \<Rightarrow>
              andthen (apply_server (v\<lparr>sv_node_id := n_id target, sv_state := ServerStarting,
                sv_container_id := [], sv_host_port := 0\<rparr>)) (\<lambda>_. ret ())))"

definition evacuate :: "string \<Rightarrow> unit op" where
  "evacuate dead = andthen (read_fsm (\<lambda>ord. servers_on_node ord dead)) (\<lambda>orphans.
     for_each orphans (evacuate_one dead))"

section \<open>Autoscaling\<close>

text \<open>The spec of a new instance.\<close>

definition spawned :: "group_rec \<Rightarrow> template \<Rightarrow> string \<Rightarrow> string \<Rightarrow> server_spec" where
  "spawned g tpl i sfx = server_spec_zero\<lparr>sp_id := i, sp_name := g_name g @ ''-'' @ sfx,
     sp_template_id := t_id tpl, sp_group_id := g_id g, sp_image := t_image tpl,
     sp_memory_mb := 2048, sp_cpu_quota := f64_one, sp_minecraft_port := 25565,
     sp_ha_required := g_ha_required g\<rparr>"

definition spawn_group_instance :: "group_rec \<Rightarrow> err op" where
  "spawn_group_instance g = andthen (read_fsm (\<lambda>_. fsm_template (g_template_id g))) (\<lambda>r.
     case r of
       None \<Rightarrow> ret (Some ErrTemplateMissing)
     | Some tpl \<Rightarrow>
         andthen (new_id ''srv'') (\<lambda>i. andthen short_id (\<lambda>sfx.
           let spec = spawned g tpl i sfx
           in andthen (pick_host spec []) (\<lambda>h.
                case h of
                  Inl e \<Rightarrow> ret (Some e)
                | Inr host \<Rightarrow> apply_server (server_zero\<lparr>sv_spec := spec, sv_node_id := n_id host,
                    sv_state := ServerStarting\<rparr>)))))"

definition group_members :: "server list \<Rightarrow> group_rec \<Rightarrow> server list" where
  "group_members servers g =
     filter (\<lambda>v. sp_group_id (sv_spec v) \<noteq> [] \<and> sp_group_id (sv_spec v) = g_id g) servers"

definition autoscale :: "server list \<Rightarrow> group_rec \<Rightarrow> unit op" where
  "autoscale servers g =
     (let current = group_members servers g; len = int (length current) in
      if len < g_min_instances g then
        for_each (replicate (nat (g_min_instances g - len)) ())
          (\<lambda>_. andthen (spawn_group_instance g) (\<lambda>_. ret ()))
      else if g_max_instances g > 0 \<and> len > g_max_instances g then
        for_each (take (nat (len - g_max_instances g))
            (sort_slice (\<lambda>x y. sv_player_count x < sv_player_count y) current))
          (\<lambda>v. andthen (stop_server (sp_id (sv_spec v))) (\<lambda>_. ret ()))
      else ret ())"

section \<open>The tick\<close>

definition check_node :: "sched_opts \<Rightarrow> time \<Rightarrow> node \<Rightarrow> unit op" where
  "check_node opts now n =
     (let deadline = wrap64 (so_deadline opts + so_grace opts);
          age = time_sub now (n_last_heartbeat n) in
      if n_state n = NodeDown then ret ()
      else if age > deadline then
        andthen (mark_node_down (n_id n)) (\<lambda>_. evacuate (n_id n))
      else if age > so_deadline opts \<and> n_state n \<noteq> NodeSuspect then
        andthen (apply_node (n\<lparr>n_state := NodeSuspect\<rparr>)) (\<lambda>_. ret ())
      else ret ())"

definition tick :: "sched_opts \<Rightarrow> unit op" where
  "tick opts = andthen time_now (\<lambda>now.
     andthen (read_fsm fsm_nodes) (\<lambda>nodes.
     andthen (for_each nodes (check_node opts now)) (\<lambda>_.
     andthen (read_fsm fsm_servers) (\<lambda>servers.
     andthen (read_fsm fsm_groups) (\<lambda>groups.
     for_each groups (autoscale servers))))))"

text \<open>What \<open>Run\<close> does at each beat of its ticker.\<close>

definition sched_beat :: "sched_opts \<Rightarrow> unit op" where
  "sched_beat opts = andthen is_leader (\<lambda>l. if \<not> l then ret () else tick opts)"

end
