(* ===== verification/Rest.thy ===== *)
theory Rest
  imports Auth Scheduler
begin

text \<open>
  daemon/internal/api/rest.go: the routes of the cluster, server and database endpoints. The
  docker controller is what the handlers see of it: its \<open>Exec\<close> and the chunks \<open>StreamLogs\<close>
  writes; \<open>None\<close> is a daemon without one.
\<close>

record docker_api =
  dk_exec :: "string \<Rightarrow> string \<Rightarrow> (string \<times> int) result op"
  dk_logs :: "string \<Rightarrow> bool \<Rightarrow> u32 \<Rightarrow> string list op"

definition not_allowed :: "response op" where
  "not_allowed = ret (http_error 405 ''method not allowed'')"

definition flag_reply :: "string \<Rightarrow> response" where
  "flag_reply name = write_json 200 (enc_struct [(name, Inr (JBool True))])"

text \<open>The common end of a handler: report the error of \<open>Apply\<close>, or answer.\<close>

definition finish :: "err \<Rightarrow> response \<Rightarrow> response op" where
  "finish e ok = ret (case e of Some e' \<Rightarrow> error_reply 500 e' | None \<Rightarrow> ok)"

section \<open>Health and cluster\<close>

definition handle_healthz :: handler where
  "handle_healthz r = ret (reply 200 NoBody)"

definition handle_readyz :: handler where
  "handle_readyz r = andthen leader_addr (\<lambda>a. ret (reply (if a = [] then 503 else 200) NoBody))"

definition handle_nodes :: handler where
  "handle_nodes r = andthen (read_fsm fsm_nodes) (\<lambda>ns.
     ret (write_json 200 (enc_struct [(''nodes'', enc_list enc_node ns)])))"

definition handle_leader :: handler where
  "handle_leader r = andthen leader_id (\<lambda>i. andthen leader_addr (\<lambda>a.
     ret (write_json 200 (enc_struct [(''leader_address'', Inr (JStr a)), (''leader_id'', Inr (JStr i))]))))"

section \<open>Servers\<close>

definition split_server_path :: "string \<Rightarrow> string \<times> string" where
  "split_server_path p =
     (let rest = trim_prefix p ''/api/v1/cluster/servers/'' in
      if rest = [] then ([], [])
      else case index_byte rest CHR ''/'' of
             Some i \<Rightarrow> (take i rest, drop (Suc i) rest)
           | None \<Rightarrow> (rest, []))"

record start_body =
  st_template_id :: string
  st_group_id :: string
  st_name :: string
  st_memory_mb :: u64
  st_cpu_quota :: f64
  st_env :: "(string \<times> string) list"
  st_ha :: bool

definition start_body_fields :: "start_body fields" where
  "start_body_fields =
     [fld ''template_id'' dec_string st_template_id st_template_id_update,
      fld ''group_id'' dec_string st_group_id st_group_id_update,
      fld ''name'' dec_string st_name st_name_update,
      fld ''memory_mb'' dec_uint st_memory_mb st_memory_mb_update,
      fld ''cpu_quota'' dec_f64 st_cpu_quota st_cpu_quota_update,
      fld ''env'' dec_env st_env st_env_update,
      fld ''ha_required'' dec_bool st_ha st_ha_update]"

definition start_body_zero :: start_body where
  "start_body_zero = \<lparr>st_template_id = [], st_group_id = [], st_name = [], st_memory_mb = 0,
     st_cpu_quota = 0, st_env = [], st_ha = False\<rparr>"

text \<open>The spec of a new server.\<close>

definition started_spec :: "start_body \<Rightarrow> template \<Rightarrow> string \<Rightarrow> server_spec" where
  "started_spec body tpl i =
     \<lparr>sp_id = i, sp_name = st_name body, sp_template_id = t_id tpl, sp_group_id = st_group_id body,
      sp_image = t_image tpl, sp_memory_mb = (if st_memory_mb body = 0 then 2048 else st_memory_mb body),
      sp_cpu_quota = (if f64_is_zero (st_cpu_quota body) then f64_one else st_cpu_quota body),
      sp_env = st_env body, sp_minecraft_port = 25565, sp_ha_required = st_ha body\<rparr>"

definition handle_start_server :: handler where
  "handle_start_server r =
     (case decode_body start_body_fields start_body_zero r of
        Inl e \<Rightarrow> ret (error_reply 400 e)
      | Inr body \<Rightarrow>
          andthen (read_fsm (\<lambda>_. fsm_template (st_template_id body))) (\<lambda>t.
            case t of
              None \<Rightarrow> ret (http_error 400 ''unknown template'')
            | Some tpl \<Rightarrow>
                andthen new_server_id (\<lambda>i.
                  let spec = started_spec body tpl i in
                  andthen (pick_host spec []) (\<lambda>h.
                    case h of
                      Inl e \<Rightarrow> ret (error_reply 503 e)
                    | Inr host \<Rightarrow>
                        (let srv = server_zero\<lparr>sv_spec := spec, sv_node_id := n_id host, sv_state := ServerStarting\<rparr>
                         in andthen (apply_server srv) (\<lambda>e. finish e (write_json 201 (enc_server srv))))))))"

definition handle_one_server :: "string \<Rightarrow> handler" where
  "handle_one_server i r =
     (if hr_method r = ''GET'' then
        andthen (read_fsm (\<lambda>_. fsm_server i)) (\<lambda>v.
          ret (case v of None \<Rightarrow> http_error 404 ''not found'' | Some srv \<Rightarrow> write_json 200 (enc_server srv)))
      else if hr_method r = ''DELETE'' then
        andthen now_unix_nano (\<lambda>ts.
          andthen (cluster_apply (data_or_nil (encode CmdServerRemove (enc_id i) [] ts))) (\<lambda>e.
            finish e (flag_reply ''deleted'')))
      else not_allowed)"

text \<open>Stop and restart write the record they read with another state. The method is not looked at.\<close>

definition write_state :: "server_state \<Rightarrow> string \<Rightarrow> string \<Rightarrow> response op" where
  "write_state st done_flag i =
     andthen (read_fsm (\<lambda>_. fsm_server i)) (\<lambda>v.
       case v of
         None \<Rightarrow> ret (http_error 404 ''not found'')
       | Some srv \<Rightarrow> andthen (apply_server (srv\<lparr>sv_state := st\<rparr>)) (\<lambda>e. finish e (flag_reply done_flag)))"

definition handle_stop_server :: "string \<Rightarrow> handler" where
  "handle_stop_server i r = write_state ServerStopping ''stopped'' i"

definition handle_restart_server :: "string \<Rightarrow> handler" where
  "handle_restart_server i r = write_state ServerStarting ''restarting'' i"

text \<open>One chunk as the \<open>sseWriter\<close> frames it.\<close>

definition sse_chunk :: "string \<Rightarrow> string" where
  "sse_chunk b = ''data: '' @ b @ [CHR 0x0A, CHR 0x0A]"

definition handle_logs :: "docker_api option \<Rightarrow> string \<Rightarrow> handler" where
  "handle_logs docker i r =
     andthen (read_fsm (\<lambda>_. fsm_server i)) (\<lambda>v.
       case v of
         None \<Rightarrow> ret (http_error 404 ''not found'')
       | Some _ \<Rightarrow>
           (case docker of
              None \<Rightarrow> ret (reply 200 (Stream (sse_chunk ''docker controller disabled'')))
            | Some d \<Rightarrow> andthen (dk_logs d i True 200) (\<lambda>chunks.
                ret (reply 200 (Stream (concat (map sse_chunk chunks)))))))"

definition exec_fields :: "string fields" where
  "exec_fields = [fld ''command'' dec_string (\<lambda>s. s) (\<lambda>f. f)]"

definition handle_exec :: "docker_api option \<Rightarrow> string \<Rightarrow> handler" where
  "handle_exec docker i r =
     (case decode_body exec_fields [] r of
        Inl e \<Rightarrow> ret (error_reply 400 e)
      | Inr command \<Rightarrow>
          (case docker of
             None \<Rightarrow> ret (http_error 503 ''docker not available'')
           | Some d \<Rightarrow> andthen (dk_exec d i command) (\<lambda>res.
               ret (case res of
                 Inl e \<Rightarrow> error_reply 500 e
               | Inr (out, status) \<Rightarrow> write_json 200 (enc_struct
                   [(''exit_code'', Inr (JInt status)), (''output'', Inr (JStr out))])))))"

definition handle_servers :: handler where
  "handle_servers r =
     (if hr_method r = ''GET'' then
        andthen (read_fsm fsm_servers) (\<lambda>vs.
          ret (write_json 200 (enc_struct [(''servers'', enc_list enc_server vs)])))
      else if hr_method r = ''POST'' then handle_start_server r
      else not_allowed)"

definition handle_server_path :: "docker_api option \<Rightarrow> handler" where
  "handle_server_path docker r =
     (case split_server_path (hr_path r) of (i, action) \<Rightarrow>
        if i = [] then ret (http_error 404 ''not found'')
        else if action = [] then handle_one_server i r
        else if action = ''stop'' then handle_stop_server i r
        else if action = ''restart'' then handle_restart_server i r
        else if action = ''logs'' then handle_logs docker i r
        else if action = ''exec'' then handle_exec docker i r
        else ret (http_error 404 ''unknown action''))"

section \<open>Databases, templates, groups\<close>

record database_body =
  bd_name :: string
  bd_engine :: string
  bd_owner :: string

definition database_body_fields :: "database_body fields" where
  "database_body_fields =
     [fld ''name'' dec_string bd_name bd_name_update,
      fld ''engine'' dec_string bd_engine bd_engine_update,
      fld ''owner_user'' dec_string bd_owner bd_owner_update]"

definition handle_create_database :: handler where
  "handle_create_database r =
     (case decode_body database_body_fields \<lparr>bd_name = [], bd_engine = [], bd_owner = []\<rparr> r of
        Inl e \<Rightarrow> ret (error_reply 400 e)
      | Inr body \<Rightarrow>
          if bd_name body = [] then ret (http_error 400 ''name required'')
          else andthen new_database_id (\<lambda>i. andthen leader_addr (\<lambda>host. andthen time_now (\<lambda>now.
            let db = database_zero\<lparr>d_id := i, d_name := bd_name body, d_engine := bd_engine body,
                  d_username := bd_owner body, d_host := host, d_port := 3306, d_created_at := now\<rparr> in
            andthen now_unix_nano (\<lambda>ts.
              andthen (cluster_apply (data_or_nil (encode CmdDatabaseUpsert (enc_database db) [] ts))) (\<lambda>e.
                finish e (write_json 201 (enc_database db))))))))"

definition handle_databases :: handler where
  "handle_databases r =
     (if hr_method r = ''GET'' then
        andthen (read_fsm fsm_databases) (\<lambda>ds.
          ret (write_json 200 (enc_struct [(''databases'', enc_list enc_database ds)])))
      else if hr_method r = ''POST'' then handle_create_database r
      else not_allowed)"

text \<open>Deleting a database answers that it is done, and does nothing.\<close>

definition handle_database_path :: handler where
  "handle_database_path r =
     (let i = trim_prefix (hr_path r) ''/api/v1/databases/'' in
      if i = [] then ret (http_error 404 ''not found'')
      else if hr_method r \<noteq> ''DELETE'' then not_allowed
      else ret (flag_reply ''ok''))"

definition handle_templates :: handler where
  "handle_templates r = ret (write_json 200 (enc_struct [(''templates'', Inr (JArr []))]))"

definition handle_groups :: handler where
  "handle_groups r = andthen (read_fsm fsm_groups) (\<lambda>gs.
     ret (write_json 200 (enc_struct [(''groups'', enc_list enc_group gs)])))"

section \<open>Strict bodies\<close>

text \<open>
  \<open>decodeJSON\<close>: unknown members are refused. A body over its limit of 4 MiB cannot be read and
  counts as none.
\<close>

definition decode_strict :: "'r fields \<Rightarrow> 'r \<Rightarrow> http_request \<Rightarrow> 'r result" where
  "decode_strict fs zero r =
     (case hr_body r of
        Some (JObj kvs) \<Rightarrow>
          if list_all (\<lambda>(k, _). map_of fs (to_lower k) \<noteq> None) kvs then dec_struct fs (JObj kvs) zero
          else Inl ErrJson
      | _ \<Rightarrow> decode_body fs zero r)"

end
