(* ===== verification/GoUrl.thy ===== *)
theory GoUrl
  imports GoStrings "HOL-Library.Char_ord" "HOL-Library.List_Lexorder"
begin

text \<open>
  What the clients use of Go's \<open>net/url\<close>: escaping and unescaping, query strings, and parsing and
  printing the part of an address after a fixed host. Texts are byte strings, as elsewhere.
\<close>

section \<open>Escapes\<close>

definition unreserved :: "char \<Rightarrow> bool" where
  "unreserved c \<longleftrightarrow> 65 \<le> code c \<and> code c \<le> 90 \<or> 97 \<le> code c \<and> code c \<le> 122 \<or> 48 \<le> code c \<and> code c \<le> 57
     \<or> c \<in> set ''-_.~''"

definition percent :: "char \<Rightarrow> string" where
  "percent c = CHR ''%'' # map (\<lambda>d. if 97 \<le> code d then char_of (code d - 32) else d)
     [hex_digit (code c div 16), hex_digit (code c mod 16)]"

definition query_escape_char :: "char \<Rightarrow> string" where
  "query_escape_char c = (if unreserved c then [c] else if code c = 32 then ''+'' else percent c)"

definition query_escape :: "string \<Rightarrow> string" where
  "query_escape s = concat (map query_escape_char s)"

definition hex_value :: "char \<Rightarrow> nat option" where
  "hex_value c =
     (let n = code c in
      if 48 \<le> n \<and> n \<le> 57 then Some (n - 48)
      else if 97 \<le> n \<and> n \<le> 102 then Some (n - 87)
      else if 65 \<le> n \<and> n \<le> 70 then Some (n - 55)
      else None)"

text \<open>\<open>QueryUnescape\<close> turns a plus into a blank, the other modes do not.\<close>

fun unescape :: "bool \<Rightarrow> string \<Rightarrow> string option" where
  "unescape sp [] = Some []"
| "unescape sp (c # s) =
     (if c = CHR ''%'' then
        (case s of
           a # b # t \<Rightarrow>
             (case (hex_value a, hex_value b) of
                (Some x, Some y) \<Rightarrow> map_option (\<lambda>u. char_of (16 * x + y) # u) (unescape sp t)
              | _ \<Rightarrow> None)
         | _ \<Rightarrow> None)
      else map_option (\<lambda>u. (if sp \<and> c = CHR ''+'' then CHR '' '' else c) # u) (unescape sp s))"

section \<open>Query strings\<close>

text \<open>\<open>url.Values\<close> as the list of its pairs; \<open>Encode\<close> sorts the keys, \<open>Set\<close> replaces all of a key.\<close>

type_synonym url_values = "(string \<times> string) list"

definition values_set :: "string \<Rightarrow> string \<Rightarrow> url_values \<Rightarrow> url_values" where
  "values_set k v vs = filter (\<lambda>p. fst p \<noteq> k) vs @ [(k, v)]"

definition encode_pair :: "string \<times> string \<Rightarrow> string" where
  "encode_pair p = query_escape (fst p) @ ''='' @ query_escape (snd p)"

definition values_encode :: "url_values \<Rightarrow> string" where
  "values_encode vs = join ''&'' (map encode_pair (sort_key fst vs))"

definition parse_pair :: "string \<Rightarrow> (string \<times> string) option" where
  "parse_pair s =
     (if s = [] \<or> CHR '';'' \<in> set s then None
      else let (k, v) = (case index_byte s CHR ''='' of None \<Rightarrow> (s, []) | Some i \<Rightarrow> (take i s, drop (Suc i) s))
        in (case (unescape True k, unescape True v) of (Some k', Some v') \<Rightarrow> Some (k', v') | _ \<Rightarrow> None))"

definition parse_query :: "string \<Rightarrow> url_values" where
  "parse_query s = List.map_filter parse_pair (split CHR ''&'' s)"

section \<open>Addresses on a fixed host\<close>

record url =
  ur_path :: string
  ur_raw_path :: string
  ur_query :: string
  ur_force_query :: bool
  ur_fragment :: string
  ur_raw_fragment :: string

text \<open>The characters each part is printed with as they are; \<open>valid_encoded\<close> leaves a few more alone.\<close>

definition path_safe :: "char \<Rightarrow> bool" where
  "path_safe c \<longleftrightarrow> unreserved c \<or> c \<in> set ''$&+,/:;=@''"

definition fragment_safe :: "char \<Rightarrow> bool" where
  "fragment_safe c \<longleftrightarrow> unreserved c \<or> c \<in> set ''$&+,/:;=?@!()*''"

definition escape_with :: "(char \<Rightarrow> bool) \<Rightarrow> string \<Rightarrow> string" where
  "escape_with safe s = concat (map (\<lambda>c. if safe c then [c] else percent c) s)"

definition valid_encoded :: "(char \<Rightarrow> bool) \<Rightarrow> string \<Rightarrow> bool" where
  "valid_encoded safe s \<longleftrightarrow> list_all (\<lambda>c. c \<in> set ''!$&()*+,;=:@[]%'' \<or> code c = 39 \<or> safe c) s"

definition cut :: "string \<Rightarrow> char \<Rightarrow> string \<times> string" where
  "cut s c = (case index_byte s c of None \<Rightarrow> (s, []) | Some i \<Rightarrow> (take i s, drop (Suc i) s))"

text \<open>
  \<open>url.Parse\<close> of a constant scheme and host followed by \<open>tail\<close>, which begins with a slash: no
  control characters before the fragment, and every percent sign starts an escape.
\<close>

definition url_parse :: "string \<Rightarrow> url option" where
  "url_parse tail =
     (let (u, frag) = cut tail CHR ''#'' in
      if list_ex (\<lambda>c. code c < 32 \<or> code c = 127) u then None
      else
        let force = (u \<noteq> [] \<and> last u = CHR ''?'' \<and> CHR ''?'' \<notin> set (butlast u));
            (p, q) = cut u CHR ''?'' in
        case (unescape False p, unescape False frag) of
          (Some path, Some fragment) \<Rightarrow>
            Some \<lparr>ur_path = path, ur_raw_path = (if escape_with path_safe path = p then [] else p),
              ur_query = q, ur_force_query = force, ur_fragment = fragment,
              ur_raw_fragment = (if escape_with fragment_safe fragment = frag then [] else frag)\<rparr>
        | _ \<Rightarrow> None)"

definition printed :: "(char \<Rightarrow> bool) \<Rightarrow> string \<Rightarrow> string \<Rightarrow> string" where
  "printed safe raw s =
     (if raw \<noteq> [] \<and> valid_encoded safe raw \<and> unescape False raw = Some s then raw else escape_with safe s)"

definition url_string :: "string \<Rightarrow> url \<Rightarrow> string" where
  "url_string host u =
     host @ printed path_safe (ur_raw_path u) (ur_path u)
     @ (if ur_force_query u \<or> ur_query u \<noteq> [] then CHR ''?'' # ur_query u else [])
     @ (if ur_fragment u \<noteq> [] then CHR ''#'' # printed fragment_safe (ur_raw_fragment u) (ur_fragment u) else [])"

section \<open>Round trips\<close>

lemma code_less: "code c < 256"
  unfolding code_def using of_char_mod_256 [of c] by (metis mod_less_divisor zero_less_numeral)

lemma hex_value_percent:
  assumes "n < 16"
  shows "hex_value (if 97 \<le> code (hex_digit n) then char_of (code (hex_digit n) - 32) else hex_digit n) = Some n"
proof -
  from hex_cases [OF assms] show ?thesis by (auto simp: hex_value_def hex_digit_def code_def)
qed

lemma unescape_percent [simp]: "unescape sp (percent c @ s) = map_option (\<lambda>u. c # u) (unescape sp s)"
proof -
  have "code c div 16 < 16" using code_less [of c] by simp
  moreover have "char_of (16 * (code c div 16) + code c mod 16) = c" by (simp add: code_def)
  ultimately show ?thesis by (simp add: percent_def hex_value_percent)
qed

lemma unreserved_plain: "unreserved c \<Longrightarrow> c \<noteq> CHR ''%'' \<and> c \<noteq> CHR ''+'' \<and> c \<noteq> CHR ''&'' \<and> c \<noteq> CHR ''='' \<and> c \<noteq> CHR '';''"
  by (auto simp: unreserved_def code_def)

lemma char_of_space: "char_of (32 :: nat) = CHR '' ''"
  by (simp add: char_of_eq_iff)

lemma unescape_query_char: "unescape True (query_escape_char c @ s) = map_option (\<lambda>u. c # u) (unescape True s)"
proof -
  have "code c = 32 \<Longrightarrow> c = CHR '' ''" by (metis (mono_tags) char_of_char code_def char_of_space)
  then show ?thesis using unreserved_plain [of c] by (auto simp: query_escape_char_def)
qed

lemma unescape_query [simp]: "unescape True (query_escape s) = Some s"
proof -
  have "unescape True (concat (map query_escape_char s) @ []) = Some s"
    by (induction s) (simp_all add: unescape_query_char)
  then show ?thesis by (simp add: query_escape_def)
qed

text \<open>An escaped text holds none of the characters that divide a query string.\<close>

lemma percent_digit:
  assumes "n < 16"
  shows "unreserved (if 97 \<le> code (hex_digit n) then char_of (code (hex_digit n) - 32) else hex_digit n)"
proof -
  from hex_cases [OF assms] show ?thesis by (auto simp: unreserved_def hex_digit_def code_def)
qed

lemma percent_chars: "d \<in> set (percent c) \<Longrightarrow> d = CHR ''%'' \<or> unreserved d"
proof -
  have "code c div 16 < 16" using code_less [of c] by simp
  then show "d \<in> set (percent c) \<Longrightarrow> d = CHR ''%'' \<or> unreserved d"
    using percent_digit [of "code c div 16"] percent_digit [of "code c mod 16"] by (auto simp: percent_def)
qed

lemma query_escape_chars: "d \<in> set (query_escape s) \<Longrightarrow> d = CHR ''%'' \<or> d = CHR ''+'' \<or> unreserved d"
  using percent_chars by (auto simp: query_escape_def query_escape_char_def split: if_splits)

lemma query_escape_clean:
  "CHR ''&'' \<notin> set (query_escape s)" "CHR ''='' \<notin> set (query_escape s)" "CHR '';'' \<notin> set (query_escape s)"
  using query_escape_chars unreserved_plain by (blast, blast, blast)

lemma index_byte_first: "c \<notin> set a \<Longrightarrow> index_byte (a @ c # b) c = Some (length a)"
  by (induction a) auto

lemma parse_encode_pair: "parse_pair (encode_pair p) = Some p"
proof -
  have "index_byte (encode_pair p) CHR ''='' = Some (length (query_escape (fst p)))"
    unfolding encode_pair_def using index_byte_first [OF query_escape_clean(2)] by simp
  moreover have "CHR '';'' \<notin> set (encode_pair p)" "encode_pair p \<noteq> []"
    using query_escape_clean(3) by (auto simp: encode_pair_def)
  ultimately show ?thesis by (simp add: parse_pair_def) (simp add: encode_pair_def)
qed

lemma parse_values_encode: "parse_query (values_encode vs) = sort_key fst vs"
proof (cases "vs = []")
  case True
  then show ?thesis by (simp add: values_encode_def parse_query_def parse_pair_def map_filter_def)
next
  case False
  have "split CHR ''&'' (values_encode vs) = map encode_pair (sort_key fst vs)"
    unfolding values_encode_def
  proof (rule split_join)
    show "map encode_pair (sort_key fst vs) \<noteq> []" using False by (metis length_0_conv length_map length_sort)
    show "\<forall>p\<in>set (map encode_pair (sort_key fst vs)). CHR ''&'' \<notin> set p"
      using query_escape_clean(1) by (auto simp: encode_pair_def)
  qed
  then show ?thesis by (simp add: parse_query_def map_filter_def parse_encode_pair o_def)
qed

lemma values_encode_clean: "CHR ''#'' \<notin> set (values_encode vs)" "CHR ''?'' \<notin> set (values_encode vs)"
proof -
  have u: "unreserved c \<Longrightarrow> c \<noteq> CHR ''#'' \<and> c \<noteq> CHR ''?''" for c by (auto simp: unreserved_def code_def)
  have pc: "d \<in> set (encode_pair p) \<Longrightarrow> d \<noteq> CHR ''#'' \<and> d \<noteq> CHR ''?''" for d p
    using query_escape_chars [of d] u [of d] by (auto simp: encode_pair_def)
  have j: "d \<in> set (join ''&'' ss) \<Longrightarrow> d = CHR ''&'' \<or> (\<exists>s\<in>set ss. d \<in> set s)" for d ss
    by (induction "''&''" ss rule: join.induct) auto
  show "CHR ''#'' \<notin> set (values_encode vs)" "CHR ''?'' \<notin> set (values_encode vs)"
    unfolding values_encode_def by (auto dest!: j pc)
qed

end
