(* ===== verification/RestMore.thy ===== *)
theory RestMore
  imports Rest GoUrl
begin

text \<open>
  daemon/internal/api: the port endpoints (firewall.go), the mod browser (mods.go) and the SQL
  workbench endpoints (workbench_handler.go), and the table of all routes. The workbench and
  the HTTP client are what the handlers see of them.
\<close>

section \<open>Ports\<close>

record port_rule =
  pr_server_id :: string
  pr_container_ip :: string
  pr_host_port :: u32
  pr_protocol :: string
  pr_open :: bool
  pr_description :: string

definition enc_port_rule :: "port_rule \<Rightarrow> json result" where
  "enc_port_rule r = enc_struct
     [(''server_id'', Inr (JStr (pr_server_id r))), (''container_ip'', Inr (JStr (pr_container_ip r))),
      (''host_port'', Inr (enc_uint (pr_host_port r))), (''protocol'', Inr (JStr (pr_protocol r))),
      (''open'', Inr (JBool (pr_open r))), (''description'', Inr (JStr (pr_description r)))]"

definition build_port_rules :: "server list \<Rightarrow> port_rule list" where
  "build_port_rules servers =
     map (\<lambda>s. \<lparr>pr_server_id = sp_id (sv_spec s), pr_container_ip = [], pr_host_port = sv_host_port s,
            pr_protocol = ''tcp'', pr_open = True, pr_description = sp_name (sv_spec s) @ '' (Minecraft)''\<rparr>)
       (filter (\<lambda>s. sv_host_port s \<noteq> 0) servers)"

record port_body =
  pb_server_id :: string
  pb_port :: u32
  pb_protocol :: string
  pb_description :: string

definition port_body_zero :: port_body where
  "port_body_zero = \<lparr>pb_server_id = [], pb_port = 0, pb_protocol = [], pb_description = []\<rparr>"

definition open_body_fields :: "port_body fields" where
  "open_body_fields =
     [fld ''server_id'' dec_string pb_server_id pb_server_id_update,
      fld ''port'' dec_uint pb_port pb_port_update,
      fld ''protocol'' dec_string pb_protocol pb_protocol_update,
      fld ''description'' dec_string pb_description pb_description_update]"

definition server_port_fields :: "port_body fields" where
  "server_port_fields =
     [fld ''port'' dec_uint pb_port pb_port_update,
      fld ''protocol'' dec_string pb_protocol pb_protocol_update]"

definition bad_port :: "u32 \<Rightarrow> bool" where
  "bad_port p \<longleftrightarrow> p = 0 \<or> p > 65535"

definition default_protocol :: "string \<Rightarrow> string" where
  "default_protocol p = (if p = [] then ''tcp'' else p)"

definition handle_open_port :: handler where
  "handle_open_port r =
     (case decode_body open_body_fields port_body_zero r of
        Inl e \<Rightarrow> ret (error_reply 400 e)
      | Inr body \<Rightarrow>
          if bad_port (pb_port body) then ret (http_error 400 ''invalid port number'')
          else ret (write_json 201 (enc_port_rule
            \<lparr>pr_server_id = pb_server_id body, pr_container_ip = [], pr_host_port = pb_port body,
             pr_protocol = default_protocol (pb_protocol body), pr_open = True,
             pr_description = pb_description body\<rparr>)))"

text \<open>
  Opening and closing a port of a server differ in one member of the answer, whose members are
  sorted by name.
\<close>

definition handle_server_port :: "(string \<times> json result) list \<Rightarrow> string \<Rightarrow> handler" where
  "handle_server_port flags i r =
     (if hr_method r \<noteq> ''POST'' then not_allowed
      else case decode_body server_port_fields port_body_zero r of
        Inl e \<Rightarrow> ret (error_reply 400 e)
      | Inr body \<Rightarrow>
          if bad_port (pb_port body) then ret (http_error 400 ''invalid port number'')
          else andthen (read_fsm (\<lambda>_. fsm_server i)) (\<lambda>v.
            ret (case v of
              None \<Rightarrow> http_error 404 ''server not found''
            | Some _ \<Rightarrow> write_json 200 (enc_struct
                (flags @ [(''port'', Inr (enc_uint (pb_port body))),
                   (''protocol'', Inr (JStr (default_protocol (pb_protocol body)))),
                   (''server_id'', Inr (JStr i))])))))"

definition handle_open_port_for_server :: "string \<Rightarrow> handler" where
  "handle_open_port_for_server = handle_server_port [(''ok'', Inr (JBool True)), (''open'', Inr (JBool True))]"

definition handle_close_port_for_server :: "string \<Rightarrow> handler" where
  "handle_close_port_for_server = handle_server_port [(''closed'', Inr (JBool True)), (''ok'', Inr (JBool True))]"

definition handle_flush_server_ports :: "string \<Rightarrow> handler" where
  "handle_flush_server_ports i r = andthen (read_fsm (\<lambda>_. fsm_server i)) (\<lambda>v.
     ret (case v of
       None \<Rightarrow> http_error 404 ''server not found''
     | Some _ \<Rightarrow> write_json 200 (enc_struct [(''flushed'', Inr (JStr i)), (''ok'', Inr (JBool True))])))"

definition handle_ports :: handler where
  "handle_ports r =
     (if hr_method r = ''GET'' then
        andthen (read_fsm fsm_servers) (\<lambda>vs.
          ret (write_json 200 (enc_struct [(''rules'', enc_list enc_port_rule (build_port_rules vs))])))
      else if hr_method r = ''POST'' then handle_open_port r
      else not_allowed)"

definition handle_port_path :: handler where
  "handle_port_path r =
     (let parts = split_n 2 CHR ''/'' (trim_prefix (hr_path r) ''/api/v1/firewall/ports/'');
          i = hd parts; action = (case tl parts of [] \<Rightarrow> [] | a # _ \<Rightarrow> a) in
      if i = [] then ret (http_error 404 ''not found'')
      else if action = ''open'' then handle_open_port_for_server i r
      else if action = ''close'' then handle_close_port_for_server i r
      else if action = [] then
        (if hr_method r = ''DELETE'' then handle_flush_server_ports i r else not_allowed)
      else ret (http_error 404 ''unknown action''))"

definition firewall_routes :: "(string \<times> handler) list" where
  "firewall_routes = [(''/api/v1/firewall/ports'', handle_ports), (''/api/v1/firewall/ports/'', handle_port_path)]"

section \<open>Mods\<close>

text \<open>A category list in an answer of Modrinth may be absent or null, and is then sent on as null.\<close>

record mod_info =
  mi_id :: string
  mi_name :: string
  mi_summary :: string
  mi_downloads :: u64
  mi_icon_url :: string
  mi_project_url :: string
  mi_source :: string
  mi_categories :: "string list option"

definition enc_mod_info :: "mod_info \<Rightarrow> json result" where
  "enc_mod_info m = enc_struct
     [(''id'', Inr (JStr (mi_id m))), (''name'', Inr (JStr (mi_name m))),
      (''summary'', Inr (JStr (mi_summary m))), (''downloads'', Inr (enc_uint (mi_downloads m))),
      (''icon_url'', Inr (JStr (mi_icon_url m))), (''project_url'', Inr (JStr (mi_project_url m))),
      (''source'', Inr (JStr (mi_source m))),
      (''categories'', Inr (case mi_categories m of None \<Rightarrow> JNull | Some cs \<Rightarrow> JArr (map JStr cs)))]"

text \<open>\<open>url.QueryEscape\<close>: letters, digits and \<open>-_.~\<close> stay, a space becomes \<open>+\<close>.\<close>

definition modrinth_url :: "string \<Rightarrow> string \<Rightarrow> string" where
  "modrinth_url query loader = ''https://api.modrinth.com/v2/search?query='' @ query_escape query
     @ (if loader = [] then []
        else ''&facets=[['' @ [CHR 0x22] @ ''categories:'' @ loader @ [CHR 0x22] @ '']]'')"

text \<open>One hit of the search, and the list of them (a struct of zero values each to begin with).\<close>

fun dec_opt_strings :: "string list option dec" where
  "dec_opt_strings JNull v = Inr None"
| "dec_opt_strings (JArr js) v = map_sum id Some (dec_string_list js)"
| "dec_opt_strings j v = Inl ErrJson"

definition mod_zero :: mod_info where
  "mod_zero = \<lparr>mi_id = [], mi_name = [], mi_summary = [], mi_downloads = 0, mi_icon_url = [],
     mi_project_url = [], mi_source = [], mi_categories = None\<rparr>"

definition hit_fields :: "mod_info fields" where
  "hit_fields =
     [fld ''project_id'' dec_string mi_id mi_id_update,
      fld ''title'' dec_string mi_name mi_name_update,
      fld ''description'' dec_string mi_summary mi_summary_update,
      fld ''downloads'' dec_uint mi_downloads mi_downloads_update,
      fld ''icon_url'' dec_string mi_icon_url mi_icon_url_update,
      fld ''categories'' dec_opt_strings mi_categories mi_categories_update]"

fun dec_hits :: "json list \<Rightarrow> mod_info list result" where
  "dec_hits [] = Inr []"
| "dec_hits (j # js) =
     rbind (dec_struct hit_fields j mod_zero) (\<lambda>m. rbind (dec_hits js) (\<lambda>ms. Inr (m # ms)))"

fun dec_hit_list :: "mod_info list dec" where
  "dec_hit_list JNull v = Inr []"
| "dec_hit_list (JArr js) v = dec_hits js"
| "dec_hit_list j v = Inl ErrJson"

definition search_fields :: "mod_info list fields" where
  "search_fields = [fld ''hits'' dec_hit_list (\<lambda>ms. ms) (\<lambda>f. f)]"

definition search_modrinth ::
  "(string \<Rightarrow> (nat \<times> wire) result op) \<Rightarrow> string \<Rightarrow> string \<Rightarrow> mod_info list result op" where
  "search_modrinth http_get query loader =
     andthen (http_get (modrinth_url query loader)) (\<lambda>resp. ret
       (case resp of
          Inl e \<Rightarrow> Inl e
        | Inr (status, body) \<Rightarrow>
            if status \<noteq> 200 then Inl (Errorf (''modrinth error: '' @ itoa (int status)))
            else rbind (case body of None \<Rightarrow> Inl ErrJson | Some j \<Rightarrow> dec_struct search_fields j []) (\<lambda>hits.
              Inr (map (\<lambda>h. h\<lparr>mi_project_url := ''https://modrinth.com/mod/'' @ mi_id h,
                mi_source := ''modrinth''\<rparr>) hits))))"

definition search_curseforge :: "string \<Rightarrow> string \<Rightarrow> mod_info list result op" where
  "search_curseforge query loader = ret (Inl (Errorf ''curseforge requires api key''))"

definition fallback_candidates :: "mod_info list" where
  "fallback_candidates =
     [\<lparr>mi_id = ''lithium'', mi_name = ''Lithium'',
       mi_summary = ''Lithium is a general-purpose optimization mod for Minecraft which works to improve physics, chunk loading, and entity AI.'',
       mi_downloads = 15000000, mi_icon_url = ''https://cdn.modrinth.com/data/gvQqUTnZ/icon.png'',
       mi_project_url = ''https://modrinth.com/mod/lithium'', mi_source = ''modrinth'',
       mi_categories = Some [''fabric'', ''optimization'']\<rparr>,
      \<lparr>mi_id = ''sodium'', mi_name = ''Sodium'',
       mi_summary = ''A modern rendering engine replacement for Minecraft which greatly improves frame rates and reduces stuttering.'',
       mi_downloads = 25000000, mi_icon_url = ''https://cdn.modrinth.com/data/AANobbMI/icon.png'',
       mi_project_url = ''https://modrinth.com/mod/sodium'', mi_source = ''modrinth'',
       mi_categories = Some [''fabric'', ''optimization'']\<rparr>,
      \<lparr>mi_id = ''viaversion'', mi_name = ''ViaVersion'',
       mi_summary = ''Allows newer client versions to connect to older server versions.'',
       mi_downloads = 8000000, mi_icon_url = ''https://cdn.modrinth.com/data/lhN1T123/icon.png'',
       mi_project_url = ''https://modrinth.com/mod/viaversion'', mi_source = ''modrinth'',
       mi_categories = Some [''spigot'', ''paper'', ''velocity'']\<rparr>]"

definition get_fallback_mods :: "string \<Rightarrow> string \<Rightarrow> string \<Rightarrow> mod_info list" where
  "get_fallback_mods query source loader =
     filter (\<lambda>c. query = [] \<or> contains (to_lower (mi_name c)) (to_lower query)
       \<or> contains (to_lower (mi_summary c)) (to_lower query)) fallback_candidates"

definition handle_mod_search :: "(string \<Rightarrow> (nat \<times> wire) result op) \<Rightarrow> handler" where
  "handle_mod_search http_get r =
     (if hr_method r \<noteq> ''GET'' then not_allowed
      else
        (let query = hr_query r ''q''; s0 = hr_query r ''source''; loader = hr_query r ''loader'';
             source = (if s0 = [] then ''modrinth'' else s0) in
         andthen (if source = ''curseforge'' then search_curseforge query loader
                  else search_modrinth http_get query loader) (\<lambda>res.
           let results = (case res of Inl _ \<Rightarrow> get_fallback_mods query source loader | Inr ms \<Rightarrow> ms)
           in ret (write_json 200 (enc_struct [(''mods'', enc_list enc_mod_info results)])))))"

record install_body =
  in_server_id :: string
  in_mod_id :: string
  in_source :: string

definition install_fields :: "install_body fields" where
  "install_fields =
     [fld ''server_id'' dec_string in_server_id in_server_id_update,
      fld ''mod_id'' dec_string in_mod_id in_mod_id_update,
      fld ''source'' dec_string in_source in_source_update]"

definition handle_mod_install :: handler where
  "handle_mod_install r =
     (if hr_method r \<noteq> ''POST'' then not_allowed
      else case decode_body install_fields \<lparr>in_server_id = [], in_mod_id = [], in_source = []\<rparr> r of
        Inl _ \<Rightarrow> ret (http_error 400 ''invalid body'')
      | Inr body \<Rightarrow>
          if in_server_id body = [] \<or> in_mod_id body = []
          then ret (http_error 400 ''server_id and mod_id are required'')
          else andthen (read_fsm (\<lambda>_. fsm_server (in_server_id body))) (\<lambda>v.
            ret (case v of
              None \<Rightarrow> http_error 404 ''server not found''
            | Some _ \<Rightarrow> write_json 200 (enc_struct
                [(''mod_id'', Inr (JStr (in_mod_id body))), (''ok'', Inr (JBool True)),
                 (''path'', Inr (JStr (''/data/mods/'' @ in_mod_id body @ ''.jar''))),
                 (''server_id'', Inr (JStr (in_server_id body))), (''status'', Inr (JStr ''installed''))]))))"

definition mod_routes :: "(string \<Rightarrow> (nat \<times> wire) result op) \<Rightarrow> (string \<times> handler) list" where
  "mod_routes http_get =
     [(''/api/v1/mods/search'', handle_mod_search http_get), (''/api/v1/mods/install'', handle_mod_install)]"

section \<open>The workbench\<close>

text \<open>What the handlers call: the database's id, name and user, then the question.\<close>

record workbench_api =
  wb_tables :: "database \<Rightarrow> string list result op"
  wb_describe :: "database \<Rightarrow> string \<Rightarrow> json list result op"
  wb_query :: "database \<Rightarrow> string \<Rightarrow> u32 \<Rightarrow> json result op"

record db_info =
  dbi_id :: string
  dbi_name :: string
  dbi_username :: string

definition db_info_to_types :: "db_info \<Rightarrow> database" where
  "db_info_to_types d = database_zero\<lparr>d_id := dbi_id d, d_name := dbi_name d, d_username := dbi_username d\<rparr>"

definition handle_list_tables :: "workbench_api \<Rightarrow> db_info \<Rightarrow> handler" where
  "handle_list_tables wb db r =
     (if hr_method r \<noteq> ''GET'' then not_allowed
      else andthen (wb_tables wb (db_info_to_types db)) (\<lambda>res. ret
        (case res of
           Inl e \<Rightarrow> error_reply 500 e
         | Inr ts \<Rightarrow> write_json 200 (enc_struct [(''tables'', Inr (JArr (map JStr ts)))]))))"

definition handle_describe_table :: "workbench_api \<Rightarrow> db_info \<Rightarrow> string \<Rightarrow> handler" where
  "handle_describe_table wb db table r =
     (if hr_method r \<noteq> ''GET'' then not_allowed
      else andthen (wb_describe wb (db_info_to_types db) table) (\<lambda>res. ret
        (case res of
           Inl e \<Rightarrow> error_reply 500 e
         | Inr cols \<Rightarrow> write_json 200 (enc_struct [(''columns'', Inr (JArr cols))]))))"

record query_body =
  qb_sql :: string
  qb_row_limit :: u32

definition query_fields :: "query_body fields" where
  "query_fields =
     [fld ''sql'' dec_string qb_sql qb_sql_update, fld ''row_limit'' dec_uint qb_row_limit qb_row_limit_update]"

definition handle_workbench_query :: "workbench_api \<Rightarrow> db_info \<Rightarrow> handler" where
  "handle_workbench_query wb db r =
     (if hr_method r \<noteq> ''POST'' then not_allowed
      else case decode_strict query_fields \<lparr>qb_sql = [], qb_row_limit = 0\<rparr> r of
        Inl e \<Rightarrow> ret (error_reply 400 e)
      | Inr body \<Rightarrow>
          if qb_sql body = [] then ret (http_error 400 ''sql is required'')
          else andthen (wb_query wb (db_info_to_types db) (qb_sql body) (qb_row_limit body)) (\<lambda>res. ret
            (case res of Inl e \<Rightarrow> error_reply 400 e | Inr j \<Rightarrow> write_json 200 (Inr j))))"

definition handle_workbench_path :: "workbench_api \<Rightarrow> handler" where
  "handle_workbench_path wb r =
     (let parts = split_n 3 CHR ''/'' (trim_prefix (hr_path r) ''/api/v1/databases/''); i = hd parts in
      if i = [] then ret (http_error 404 ''not found'')
      else andthen (read_fsm fsm_databases) (\<lambda>dbs.
        case find (\<lambda>d. d_id d = i) dbs of
          None \<Rightarrow> ret (http_error 404 ''database not found'')
        | Some d \<Rightarrow>
            (let db = \<lparr>dbi_id = d_id d, dbi_name = d_name d, dbi_username = d_username d\<rparr> in
             case tl parts of
               [] \<Rightarrow> if hr_method r = ''DELETE'' then ret (flag_reply ''ok'') else not_allowed
             | sub # deeper \<Rightarrow>
                 if sub = [] then (if hr_method r = ''DELETE'' then ret (flag_reply ''ok'') else not_allowed)
                 else if sub = ''tables'' then
                   (case deeper of
                      t # _ \<Rightarrow> if t \<noteq> [] then handle_describe_table wb db t r else handle_list_tables wb db r
                    | [] \<Rightarrow> handle_list_tables wb db r)
                 else if sub = ''query'' then handle_workbench_query wb db r
                 else ret (http_error 404 ''unknown resource''))))"

definition workbench_routes :: "workbench_api \<Rightarrow> (string \<times> handler) list" where
  "workbench_routes wb = [(''/api/v1/databases/'', handle_workbench_path wb)]"

section \<open>All routes\<close>

record api_opts =
  ao_docker :: "docker_api option"
  ao_workbench :: "workbench_api option"
  ao_http_get :: "string \<Rightarrow> (nat \<times> wire) result op"

definition rest_routes :: "api_opts \<Rightarrow> (string \<times> handler) list" where
  "rest_routes opts =
     [(''/healthz'', handle_healthz),
      (''/readyz'', handle_readyz),
      (''/api/v1/cluster/nodes'', handle_nodes),
      (''/api/v1/cluster/leader'', handle_leader),
      (''/api/v1/cluster/servers'', handle_servers),
      (''/api/v1/cluster/servers/'', handle_server_path (ao_docker opts)),
      (''/api/v1/databases'', handle_databases),
      (''/api/v1/databases/'', handle_database_path),
      (''/api/v1/templates'', handle_templates),
      (''/api/v1/groups'', handle_groups)]"

definition all_routes :: "api_opts \<Rightarrow> (string \<times> handler) list" where
  "all_routes opts = rest_routes opts @ firewall_routes @ mod_routes (ao_http_get opts) @ rbac_routes
     @ (case ao_workbench opts of None \<Rightarrow> [] | Some wb \<Rightarrow> workbench_routes wb)"

text \<open>\<open>Serve\<close> builds the multiplexer, which may panic, and puts \<open>withAuth\<close> around it.\<close>

definition api_handler :: "api_opts \<Rightarrow> handler option" where
  "api_handler opts = map_option (\<lambda>m. with_auth (serve_mux m)) (register_all (all_routes opts) [])"

end
