(* ===== verification/SchedulerProps.thy ===== *)
theory SchedulerProps
  imports Scheduler
begin

text \<open>
  Lemmas about the scheduler: what placement guarantees, that every operation returns in
  every environment and proposes only entries of the scheduler's kind, and what one write
  does in a calm environment (this daemon leads, its proposals commit, nobody else writes).
\<close>

section \<open>Placement\<close>

definition eligible :: "server_spec \<Rightarrow> string \<Rightarrow> node \<Rightarrow> bool" where
  "eligible spec exclude n \<longleftrightarrow> n_state n = NodeUp \<and> n_id n \<noteq> exclude
     \<and> sp_memory_mb spec \<le> free_memory_mb (n_resources n)"

lemma pick_from_eligible:
  "pick_from nodes spec x =
     (case sort_slice (\<lambda>x y. free_memory_mb (n_resources x) > free_memory_mb (n_resources y))
        (filter (eligible spec x) nodes) of [] \<Rightarrow> Inl ErrNoHost | n # _ \<Rightarrow> Inr n)"
proof -
  have "(\<lambda>n. \<not> (n_state n \<noteq> NodeUp \<or> n_id n = x)
      \<and> \<not> free_memory_mb (n_resources n) < sp_memory_mb spec) = eligible spec x"
    by (auto simp: eligible_def fun_eq_iff not_less)
  then show ?thesis by (simp add: pick_from_def)
qed

lemma pick_from_Inr:
  assumes "pick_from nodes spec x = Inr n"
  shows "n \<in> set nodes" and "eligible spec x n"
    and "\<And>m. m \<in> set nodes \<Longrightarrow> eligible spec x m
      \<Longrightarrow> free_memory_mb (n_resources m) \<le> free_memory_mb (n_resources n)"
proof -
  let ?lt = "\<lambda>x y. free_memory_mb (n_resources x) > free_memory_mb (n_resources y)"
  obtain ns where ns: "sort_slice ?lt (filter (eligible spec x) nodes) = n # ns"
    using assms by (auto simp: pick_from_eligible split: list.splits)
  then have "n \<in> set (filter (eligible spec x) nodes)" by (metis list.set_intros(1) set_sort_slice)
  then show "n \<in> set nodes" and "eligible spec x n" by simp_all
  have sw: "strict_weak ?lt" by (rule strict_weak_key(2))
  show "free_memory_mb (n_resources m) \<le> free_memory_mb (n_resources n)"
    if "m \<in> set nodes" "eligible spec x m" for m
    using sort_slice_hd_le [OF sw ns, of m] that by (simp add: not_less)
qed

lemma pick_from_Inl:
  "pick_from nodes spec x = Inl e \<longleftrightarrow> e = ErrNoHost \<and> (\<forall>n\<in>set nodes. \<not> eligible spec x n)"
proof -
  let ?lt = "\<lambda>x y. free_memory_mb (n_resources x) > free_memory_mb (n_resources y)"
  have "sort_slice ?lt xs = [] \<longleftrightarrow> xs = []" for xs
    by (metis length_0_conv length_sort_slice)
  from this [of "filter (eligible spec x) nodes"] show ?thesis
    by (cases "sort_slice ?lt (filter (eligible spec x) nodes)")
      (auto simp: pick_from_eligible filter_empty_conv)
qed

section \<open>Any environment\<close>

definition node_entry :: "(node \<Rightarrow> bool) \<Rightarrow> wire \<Rightarrow> bool" where
  "node_entry P w \<longleftrightarrow> (\<exists>n ts. encode CmdNodeUpsert (enc_node n) [] ts = Inr w \<and> node_valid n \<and> P n)"

definition server_entry :: "(server \<Rightarrow> bool) \<Rightarrow> wire \<Rightarrow> bool" where
  "server_entry P w \<longleftrightarrow>
     (\<exists>v ts. encode CmdServerUpsert (enc_server v) [] ts = Inr w \<and> server_valid v \<and> P v)"

lemma server_entry_mono: "server_entry P w \<Longrightarrow> (\<And>v. P v \<Longrightarrow> Q v) \<Longrightarrow> server_entry Q w"
  unfolding server_entry_def by blast

lemma encode_server:
  assumes "server_valid v"
  obtains w where "encode CmdServerUpsert (enc_server v) [] ts = Inr w"
    "data_or_nil (encode CmdServerUpsert (enc_server v) [] ts) = w" "wire_ok w"
proof -
  obtain w where w: "encode CmdServerUpsert (enc_server v) [] ts = Inr w"
    using server_table.up_encodes [OF assms] by blast
  then have "wire_ok w" by (rule encode_wire_ok) (rule json_ok_server)
  with w that show ?thesis by (simp add: data_or_nil_def)
qed

lemma does_apply_server:
  assumes E: "env_ok E" and v: "server_valid v" "P v" and L: "\<And>w. server_entry P w \<Longrightarrow> L w"
  shows "does E (world_ok L) (apply_server v) (\<lambda>_. world_ok L)"
  unfolding apply_server_def
proof (rule does_andthen [OF does_unix_nano [OF E]])
  fix ts
  obtain w where w: "encode CmdServerUpsert (enc_server v) [] ts = Inr w"
    "data_or_nil (encode CmdServerUpsert (enc_server v) [] ts) = w" "wire_ok w"
    using v(1) by (rule encode_server)
  from w(1) v have "L w" by (intro L) (auto simp: server_entry_def)
  show "does E (\<lambda>W. world_ok L W \<and> int64_ok ts)
      (cluster_apply (data_or_nil (encode CmdServerUpsert (enc_server v) [] ts))) (\<lambda>_. world_ok L)"
    unfolding w(2) by (intro does_fact does_cluster_apply E w(3) \<open>L w\<close>)
qed

lemma does_apply_node:
  assumes E: "env_ok E" and v: "node_valid n" "P n" and L: "\<And>w. node_entry P w \<Longrightarrow> L w"
  shows "does E (world_ok L) (apply_node n) (\<lambda>_. world_ok L)"
  unfolding apply_node_def
proof (rule does_andthen [OF does_unix_nano [OF E]])
  fix ts
  obtain w where w: "encode CmdNodeUpsert (enc_node n) [] ts = Inr w"
    using node_table.up_encodes [OF v(1)] by blast
  then have "wire_ok w" by (rule encode_wire_ok) (rule json_ok_node)
  moreover from w(1) v have "L w" by (intro L) (auto simp: node_entry_def)
  ultimately show "does E (\<lambda>W. world_ok L W \<and> int64_ok ts)
      (case encode CmdNodeUpsert (enc_node n) [] ts of Inl e \<Rightarrow> ret (Some e) | Inr w \<Rightarrow> cluster_apply w)
      (\<lambda>_. world_ok L)"
    unfolding w sum.case using E by (intro does_fact does_cluster_apply)
qed

lemma does_pick_host:
  assumes E: "env_ok E"
  shows "does E (world_ok L) (pick_host spec x)
    (\<lambda>r W. world_ok L W \<and> (\<forall>n. r = Inr n \<longrightarrow> eligible spec x n))"
  unfolding pick_host_def using E by (rule does_read) (auto dest: pick_from_Inr)

lemma fsm_values_valid:
  assumes "fsm_ok s" and "permutes ord"
  shows "v \<in> set (fsm_nodes ord s) \<Longrightarrow> node_valid v \<and> mget (f_nodes s) (n_id v) = Some v"
    and "u \<in> set (fsm_servers ord s) \<Longrightarrow> server_valid u \<and> mget (f_servers s) (sp_id (sv_spec u)) = Some u"
    and "u \<in> set (servers_on_node ord d s) \<Longrightarrow> server_valid u \<and> sv_node_id u = d
      \<and> mget (f_servers s) (sp_id (sv_spec u)) = Some u"
    and "g \<in> set (fsm_groups ord s) \<Longrightarrow> group_valid g \<and> mget (f_groups s) (g_id g) = Some g"
    and "fsm_node k s = Some v \<Longrightarrow> node_valid v"
    and "fsm_server k s = Some u \<Longrightarrow> server_valid u"
  using assms(2) node_table.get_ok [OF assms(1)] server_table.get_ok [OF assms(1)]
    group_table.get_ok [OF assms(1)]
  by (auto simp: fsm_nodes_def fsm_servers_def servers_on_node_def fsm_groups_def set_mvalues
      fsm_node_def fsm_server_def)

lemma valid_updates [simp]:
  "node_valid (n\<lparr>n_state := x\<rparr>) = node_valid n"
  "server_valid (v\<lparr>sv_state := x\<rparr>) = server_valid v"
  "server_valid (v\<lparr>sv_node_id := i\<rparr>) = server_valid v"
  "server_valid (v\<lparr>sv_container_id := i\<rparr>) = server_valid v"
  "server_valid (v\<lparr>sv_host_port := p\<rparr>) = server_valid v"
  by (simp_all add: node_valid_def server_valid_def)

lemma does_discard:
  "does E P m (\<lambda>_. P) \<Longrightarrow> does E P (andthen m (\<lambda>_. ret ())) (\<lambda>_. P)"
  by (erule does_andthen) (simp add: does_ret)

lemma does_mark_node_down:
  assumes E: "env_ok E" and L: "\<And>w. node_entry (\<lambda>n. n_state n = NodeDown) w \<Longrightarrow> L w"
  shows "does E (world_ok L) (mark_node_down i) (\<lambda>_. world_ok L)"
  unfolding mark_node_down_def
proof (rule does_andthen [OF does_read [OF E, where Q = "\<lambda>r W. world_ok L W \<and> (\<forall>n. r = Some n \<longrightarrow> node_valid n)"]])
  fix W ord assume "world_ok L W" "permutes ord"
  then show "world_ok L W \<and> (\<forall>n. fsm_node i (w_fsm W) = Some n \<longrightarrow> node_valid n)"
    using fsm_values_valid(5) by (auto simp: world_ok_def)
next
  fix r
  have "does E (world_ok L) (andthen (apply_node (n\<lparr>n_state := NodeDown\<rparr>)) (\<lambda>_. ret ()))
      (\<lambda>_. world_ok L)" if "node_valid n" for n
    by (rule does_discard, rule does_apply_node [OF E _ _ L]) (use that in simp_all)
  then show "does E (\<lambda>W. world_ok L W \<and> (\<forall>n. r = Some n \<longrightarrow> node_valid n))
      (case r of None \<Rightarrow> ret ()
       | Some n \<Rightarrow> andthen (apply_node (n\<lparr>n_state := NodeDown\<rparr>)) (\<lambda>_. ret ())) (\<lambda>_. world_ok L)"
    by (intro does_fact) (auto intro!: does_ret split: option.splits)
qed

text \<open>The entries failover of the node \<open>dead\<close> may propose.\<close>

definition failover_server :: "string \<Rightarrow> server \<Rightarrow> bool" where
  "failover_server dead v \<longleftrightarrow>
     (if sp_ha_required (sv_spec v)
      then sv_state v = ServerStarting \<and> sv_node_id v \<noteq> dead \<and> sv_container_id v = [] \<and> sv_host_port v = 0
      else sv_state v = ServerOrphaned \<and> sv_node_id v = dead)"

lemma does_evacuate_one:
  assumes E: "env_ok E" and v: "server_valid v" "sv_node_id v = dead"
    and L: "\<And>w. server_entry (failover_server dead) w \<Longrightarrow> L w"
  shows "does E (world_ok L) (evacuate_one dead v) (\<lambda>_. world_ok L)"
proof (cases "sp_ha_required (sv_spec v)")
  case False
  then have "failover_server dead (v\<lparr>sv_state := ServerOrphaned\<rparr>)" using v by (simp add: failover_server_def)
  with False v show ?thesis
    by (auto simp: evacuate_one_def intro!: does_discard does_apply_server [OF E, where P = "failover_server dead"] L)
next
  case True
  have *: "does E (world_ok L) (case r of Inl e \<Rightarrow> ret () | Inr target \<Rightarrow>
      andthen (apply_server (v\<lparr>sv_node_id := n_id target, sv_state := ServerStarting,
        sv_container_id := [], sv_host_port := 0\<rparr>)) (\<lambda>_. ret ())) (\<lambda>_. world_ok L)"
    if "\<forall>n. r = Inr n \<longrightarrow> eligible (sv_spec v) dead n" for r
  proof (cases r)
    case (Inr target)
    with that True v have "failover_server dead (v\<lparr>sv_node_id := n_id target, sv_state := ServerStarting,
        sv_container_id := [], sv_host_port := 0\<rparr>)"
      by (simp add: failover_server_def eligible_def)
    with Inr v show ?thesis by (auto intro!: does_discard does_apply_server [OF E, where P = "failover_server dead"] L)
  qed (simp add: does_ret)
  show ?thesis
    using True unfolding evacuate_one_def
    by (simp, intro does_andthen [OF does_pick_host [OF E]] does_fact *)
qed

lemma does_evacuate:
  assumes E: "env_ok E" and L: "\<And>w. server_entry (failover_server dead) w \<Longrightarrow> L w"
  shows "does E (world_ok L) (evacuate dead) (\<lambda>_. world_ok L)"
  unfolding evacuate_def
proof (rule does_andthen [OF does_read [OF E, where Q = "\<lambda>vs W. world_ok L W
    \<and> (\<forall>v\<in>set vs. server_valid v \<and> sv_node_id v = dead)"]])
  fix W ord assume "world_ok L W" "permutes ord"
  then show "world_ok L W \<and> (\<forall>v\<in>set (servers_on_node ord dead (w_fsm W)).
      server_valid v \<and> sv_node_id v = dead)"
    using fsm_values_valid(3) by (auto simp: world_ok_def)
next
  fix vs :: "server list"
  show "does E (\<lambda>W. world_ok L W \<and> (\<forall>v\<in>set vs. server_valid v \<and> sv_node_id v = dead))
      (for_each vs (evacuate_one dead)) (\<lambda>_. world_ok L)"
    by (rule does_fact, rule does_for_each, rule does_evacuate_one [OF E _ _ L]) auto
qed

text \<open>The entries autoscaling may propose: a new instance or a stop.\<close>

definition scaling_server :: "server \<Rightarrow> bool" where
  "scaling_server v \<longleftrightarrow> sv_state v = ServerStopping
     \<or> sv_state v = ServerStarting \<and> sp_group_id (sv_spec v) \<noteq> [] \<and> sp_memory_mb (sv_spec v) = 2048"

definition sched_entry :: "wire \<Rightarrow> bool" where
  "sched_entry w \<longleftrightarrow> node_entry (\<lambda>n. n_state n = NodeDown \<or> n_state n = NodeSuspect) w
     \<or> server_entry (\<lambda>v. (\<exists>dead. failover_server dead v)
         \<or> sv_state v = ServerStopping \<or> sv_state v = ServerStarting) w"

lemma does_stop_server:
  assumes E: "env_ok E" and L: "\<And>w. server_entry (\<lambda>v. sv_state v = ServerStopping) w \<Longrightarrow> L w"
  shows "does E (world_ok L) (stop_server i) (\<lambda>_. world_ok L)"
  unfolding stop_server_def
proof (rule does_andthen [OF does_read [OF E, where Q = "\<lambda>r W. world_ok L W \<and> (\<forall>v. r = Some v \<longrightarrow> server_valid v)"]])
  fix W ord assume "world_ok L W" "permutes ord"
  then show "world_ok L W \<and> (\<forall>v. fsm_server i (w_fsm W) = Some v \<longrightarrow> server_valid v)"
    using fsm_values_valid(6) by (auto simp: world_ok_def)
next
  fix r
  show "does E (\<lambda>W. world_ok L W \<and> (\<forall>v. r = Some v \<longrightarrow> server_valid v))
      (case r of None \<Rightarrow> ret (Some ErrServerMissing)
       | Some v \<Rightarrow> apply_server (v\<lparr>sv_state := ServerStopping\<rparr>)) (\<lambda>_. world_ok L)"
    by (intro does_fact)
      (auto intro!: does_ret does_apply_server [OF E, where P = "\<lambda>v. sv_state v = ServerStopping"] L
        split: option.splits)
qed

lemma does_new_id:
  assumes E: "env_ok E"
  shows "does E (world_ok L) (new_id p) (\<lambda>_. world_ok L)"
  unfolding new_id_def by (rule does_andthen [OF does_rand_read [OF E]], rule does_ret) simp

lemma does_short_id:
  assumes E: "env_ok E"
  shows "does E (world_ok L) short_id (\<lambda>_. world_ok L)"
  unfolding short_id_def by (rule does_andthen [OF does_rand_read [OF E]], rule does_ret) simp

lemma does_spawn:
  assumes E: "env_ok E" and L: "\<And>w. server_entry (\<lambda>v. sv_state v = ServerStarting) w \<Longrightarrow> L w"
  shows "does E (world_ok L) (spawn_group_instance g) (\<lambda>_. world_ok L)"
  unfolding spawn_group_instance_def
proof (rule does_andthen [OF does_read [OF E, where Q = "\<lambda>_. world_ok L"]])
  fix r :: "template option"
  show "does E (world_ok L) (case r of None \<Rightarrow> ret (Some ErrTemplateMissing)
     | Some tpl \<Rightarrow>
         andthen (new_id ''srv'') (\<lambda>i. andthen short_id (\<lambda>sfx.
           let spec = spawned g tpl i sfx
           in andthen (pick_host spec []) (\<lambda>h.
                case h of
                  Inl e \<Rightarrow> ret (Some e)
                | Inr host \<Rightarrow> apply_server (server_zero\<lparr>sv_spec := spec, sv_node_id := n_id host,
                    sv_state := ServerStarting\<rparr>))))) (\<lambda>_. world_ok L)"
    unfolding Let_def
    by (auto split: option.splits sum.splits intro!: does_ret does_andthen [OF does_new_id [OF E]]
        does_andthen [OF does_short_id [OF E]] does_andthen [OF does_pick_host [OF E]] does_fact
        does_apply_server [OF E, where P = "\<lambda>v. sv_state v = ServerStarting"] L)
      (simp add: spawned_def server_valid_def server_spec_valid_def zero_defs)
qed

lemma does_autoscale:
  assumes E: "env_ok E" and L: "\<And>w. sched_entry w \<Longrightarrow> L w"
  shows "does E (world_ok L) (autoscale servers g) (\<lambda>_. world_ok L)"
proof -
  have "L w" if "server_entry (\<lambda>v. sv_state v = ServerStopping) w
      \<or> server_entry (\<lambda>v. sv_state v = ServerStarting) w" for w
    using that by (intro L) (auto simp: sched_entry_def server_entry_def)
  then show ?thesis
    unfolding autoscale_def Let_def
    by (intro does_if does_for_each does_discard does_stop_server does_spawn does_ret E) auto
qed

lemma does_check_node:
  assumes E: "env_ok E" and L: "\<And>w. sched_entry w \<Longrightarrow> L w" and n: "node_valid n"
  shows "does E (world_ok L) (check_node opts now n) (\<lambda>_. world_ok L)"
proof -
  have down: "L w" if "node_entry (\<lambda>n. n_state n = NodeDown) w" for w
    using that by (intro L) (auto simp: sched_entry_def node_entry_def)
  have suspect: "L w" if "node_entry (\<lambda>n. n_state n = NodeSuspect) w" for w
    using that by (intro L) (auto simp: sched_entry_def node_entry_def)
  have fail: "L w" if "server_entry (failover_server (n_id n)) w" for w
    using that by (intro L) (auto simp: sched_entry_def server_entry_def)
  show ?thesis
    unfolding check_node_def Let_def
    by (intro does_if does_andthen [OF does_mark_node_down [OF E down]] does_evacuate [OF E fail]
        does_discard does_apply_node [OF E _ _ suspect] does_ret) (use n in simp_all)
qed

lemma does_tick:
  assumes E: "env_ok E" and L: "\<And>w. sched_entry w \<Longrightarrow> L w"
  shows "does E (world_ok L) (tick opts) (\<lambda>_. world_ok L)"
  unfolding tick_def
proof (rule does_andthen [OF does_time_now [OF E]],
    rule does_andthen [OF does_read [OF E, where Q = "\<lambda>ns W. world_ok L W \<and> (\<forall>n\<in>set ns. node_valid n)"]])
  fix W ord assume "world_ok L W" "permutes ord"
  then show "world_ok L W \<and> (\<forall>n\<in>set (fsm_nodes ord (w_fsm W)). node_valid n)"
    using fsm_values_valid(1) by (auto simp: world_ok_def)
next
  fix now and ns :: "node list"
  show "does E (\<lambda>W. world_ok L W \<and> (\<forall>n\<in>set ns. node_valid n))
      (andthen (for_each ns (check_node opts now)) (\<lambda>_. andthen (read_fsm fsm_servers) (\<lambda>servers.
        andthen (read_fsm fsm_groups) (\<lambda>groups. for_each groups (autoscale servers))))) (\<lambda>_. world_ok L)"
  proof (intro does_fact)
    assume ns: "\<forall>n\<in>set ns. node_valid n"
    have nodes: "does E (world_ok L) (for_each ns (check_node opts now)) (\<lambda>_. world_ok L)"
      by (rule does_for_each, rule does_check_node [OF E L]) (use ns in auto)
    have groups: "does E (world_ok L) (andthen (read_fsm fsm_groups) (\<lambda>gs. for_each gs (autoscale vs)))
        (\<lambda>_. world_ok L)" for vs
      by (rule does_andthen [OF does_read [OF E]], assumption, rule does_for_each,
          rule does_autoscale [OF E L])
    show "does E (world_ok L) (andthen (for_each ns (check_node opts now)) (\<lambda>_.
        andthen (read_fsm fsm_servers) (\<lambda>servers.
        andthen (read_fsm fsm_groups) (\<lambda>groups. for_each groups (autoscale servers))))) (\<lambda>_. world_ok L)"
      by (rule does_andthen [OF nodes], rule does_andthen [OF does_read [OF E]], assumption, rule groups)
  qed
qed

lemma does_sched_beat:
  assumes E: "env_ok E" and L: "\<And>w. sched_entry w \<Longrightarrow> L w"
  shows "does E (world_ok L) (sched_beat opts) (\<lambda>_. world_ok L)"
  unfolding sched_beat_def
  by (intro does_andthen [OF does_is_leader [OF E]] does_if does_ret does_tick [OF E L]) simp

section \<open>A calm environment\<close>

definition calm :: "env \<Rightarrow> bool" where
  "calm E \<longleftrightarrow> (\<forall>n. e_others E n = [] \<and> e_leads E n \<and> ra_commit (e_raft E n)
     \<and> ra_err (e_raft E n) = None \<and> permutes (e_iter E n))"

lemma calm_simps:
  assumes "calm E"
  shows "sync E W = Some (w_step W, W\<lparr>w_step := Suc (w_step W)\<rparr>)"
    and "read_fsm f E W = Some (f (e_iter E (w_step W)) (w_fsm W), W\<lparr>w_step := Suc (w_step W)\<rparr>)"
    and "time_now E W = Some (e_now E (w_step W), W\<lparr>w_step := Suc (w_step W)\<rparr>)"
    and "permutes (e_iter E n)"
  using assms by (simp_all add: calm_def sync_def read_fsm_def time_now_def andthen_def)

lemma calm_env: "calm E \<Longrightarrow> env_ok E"
  by (simp add: calm_def env_ok_def)

lemma calm_cluster_apply:
  assumes "calm E" and "\<And>i. fsm_apply i w (w_fsm W) = Some (e i, s i)"
  obtains W' i where "cluster_apply w E W = Some (None, W')" "w_fsm W' = s i"
    "w_sent W' = w_sent W @ [w]" "w_index W' = Suc (w_index W)"
  using assms
  by (simp add: cluster_apply_def is_leader_def raft_apply_def andthen_def calm_simps(1)
      calm_def [of E] ret_def)

lemma calm_apply_server:
  assumes E: "calm E" and ok: "fsm_ok (w_fsm W)" and v: "server_valid v"
  obtains W' w where "apply_server v E W = Some (None, W')" "fsm_ok (w_fsm W')"
    "mget (f_servers (w_fsm W')) = (mget (f_servers (w_fsm W)))(sp_id (sv_spec v) \<mapsto> v)"
    "f_nodes (w_fsm W') = f_nodes (w_fsm W)" "f_groups (w_fsm W') = f_groups (w_fsm W)"
    "f_templates (w_fsm W') = f_templates (w_fsm W)" "w_sent W' = w_sent W @ [w]"
proof -
  obtain ts W1 where ts: "now_unix_nano E W = Some (ts, W1)" "int64_ok ts" "w_fsm W1 = w_fsm W"
    "w_sent W1 = w_sent W"
    using E by (simp add: now_unix_nano_def andthen_def calm_simps ret_def unix_nano_def wrap64_range)
  obtain w where w: "encode CmdServerUpsert (enc_server v) [] ts = Inr w"
    "data_or_nil (encode CmdServerUpsert (enc_server v) [] ts) = w"
    using v by (rule encode_server)
  have "\<exists>s'. fsm_apply i w (w_fsm W1) = Some (None, s') \<and> fsm_ok s'
    \<and> mget (f_servers s') = (mget (f_servers (w_fsm W)))(sp_id (sv_spec v) \<mapsto> v)
    \<and> f_nodes s' = f_nodes (w_fsm W) \<and> f_groups s' = f_groups (w_fsm W)
    \<and> f_templates s' = f_templates (w_fsm W)" for i
  proof (rule apply_server_upsert [OF ok ts(2) v w(1), of i])
    fix m assume "mput (sp_id (sv_spec v)) v (f_servers (w_fsm W)) = Some m"
      "fsm_apply i w (w_fsm W) = Some (None, publish CmdServerUpsert (EvServer v) ((w_fsm W)\<lparr>f_servers := m\<rparr>))"
      "fsm_ok (publish CmdServerUpsert (EvServer v) ((w_fsm W)\<lparr>f_servers := m\<rparr>))"
    with ts(3) show ?thesis by (simp add: publish_def tbl.get_put)
  qed
  then obtain s' where s: "\<And>i. fsm_apply i w (w_fsm W1) = Some (None, s' i)" "\<And>i. fsm_ok (s' i)"
    "\<And>i. mget (f_servers (s' i)) = (mget (f_servers (w_fsm W)))(sp_id (sv_spec v) \<mapsto> v)"
    "\<And>i. f_nodes (s' i) = f_nodes (w_fsm W)" "\<And>i. f_groups (s' i) = f_groups (w_fsm W)"
    "\<And>i. f_templates (s' i) = f_templates (w_fsm W)"
    by metis
  obtain W' i where W': "cluster_apply w E W1 = Some (None, W')" "w_fsm W' = s' i"
    "w_sent W' = w_sent W1 @ [w]"
    using E s(1) by (rule calm_cluster_apply)
  have "apply_server v E W = Some (None, W')"
    by (simp add: apply_server_def andthen_def ts(1) w(2) W'(1))
  then show ?thesis by (rule that) (simp_all add: W' s ts)
qed

end
