(* ===== verification/FsmLaws.thy ===== *)
theory FsmLaws
  imports FsmLog
begin

text \<open>
  The properties of the replicated state machine (daemon/internal/raftfsm), each with a
  run on concrete log entries where its hypotheses hold.
\<close>

section \<open>Concrete entries\<close>

definition demo_node :: node where
  "demo_node = node_zero\<lparr>n_id := ''node-a'', n_address := ''10.0.0.1'', n_state := NodeUp\<rparr>"

definition demo_server :: server where
  "demo_server = server_zero\<lparr>sv_spec := server_spec_zero\<lparr>sp_id := ''srv-1'', sp_name := ''lobby''\<rparr>,
     sv_node_id := ''node-a'', sv_state := ServerReady\<rparr>"

text \<open>A command as JSON: with its payload, idempotency key and time.\<close>

definition demo_entry :: "string \<Rightarrow> json \<Rightarrow> string \<Rightarrow> wire" where
  "demo_entry t p k = Some (JObj [(''type'', JStr t), (''payload'', p), (''idem'', JStr k), (''ts'', JInt 7)])"

lemma decode_demo [simp]:
  "decode (demo_entry t p k) = Inr \<lparr>c_type = t, c_payload = Some p, c_idem = k, c_ts = 7\<rparr>"
  by (simp add: demo_entry_def decode_def command_fields_def command_zero_def dec_raw_def fld_def
      int64_ok_def)

lemma wire_ok_demo [simp]: "wire_ok (demo_entry t p k) \<longleftrightarrow> json_ok p"
  by (simp add: wire_ok_def demo_entry_def)

lemma int64_ok_7 [simp]: "int64_ok 7"
  by (simp add: int64_ok_def)

lemma demo_valid [simp]: "node_valid demo_node" "server_valid demo_server"
  by (simp_all add: demo_node_def demo_server_def node_valid_def server_valid_def
      server_spec_valid_def zero_defs)

section \<open>Applying entries\<close>

text \<open>C1. In every state a daemon can reach, \<open>Apply\<close> on any committed entry, well formed or
  not, returns (it never writes to a nil map), keeps the tables' invariant (each record is
  filed under its own id and can be marshalled again), and the state stays reachable.\<close>

theorem apply_total:
  assumes "fsm_reach s" and "wire_ok w"
  shows "\<exists>e s'. fsm_apply i w s = Some (e, s') \<and> fsm_ok s' \<and> fsm_reach s'"
proof -
  obtain e s' where "fsm_apply i w s = Some (e, s')" "fsm_ok s'"
    using fsm_apply_ok [OF fsm_reach_ok [OF assms(1)] assms(2)] by (rule applied_okE)
  with assms show ?thesis by (blast intro: reach_apply)
qed

theorem apply_total_witness:
  "\<exists>e s'. fsm_apply 5 (demo_entry CmdNodeRemove (JObj [(''id'', JStr ''x'')]) ''k'') (subscribe 4 new_fsm)
     = Some (e, s') \<and> fsm_ok s' \<and> fsm_reach s'"
  by (rule apply_total [OF reach_subscribe [OF reach_new]]) simp



text \<open>C16. An entry that fails (no JSON, an unknown command, a payload that does not decode)
  changes no table and hands no event to any subscriber; all it may leave behind is its
  idempotency key.\<close>

theorem failed_entry_changes_nothing:
  assumes "fsm_apply i w s = Some (Some e, s')"
  shows "f_nodes s' = f_nodes s \<and> f_servers s' = f_servers s \<and> f_groups s' = f_groups s
    \<and> f_templates s' = f_templates s \<and> f_databases s' = f_databases s \<and> f_tokens s' = f_tokens s
    \<and> f_subscribers s' = f_subscribers s"
proof (cases "decode w")
  case (Inl x)
  with assms show ?thesis by (simp add: fsm_apply_def)
next
  case (Inr c)
  have "quiet t (apply_command c t)" for t by (rule apply_command_quiet)
  then have "s' = t" if "apply_command c t = Some (Some e, s')" for t
    using that by (force simp: quiet_def)
  with assms Inr show ?thesis
    by (auto simp: fsm_apply_def split: if_splits option.splits) (drule meta_spec, erule meta_impE, assumption, simp)+
qed

theorem failed_entry_witness:
  "f_servers (new_fsm\<lparr>f_idem := GoMap [(''k'', 3)]\<rparr>) = f_servers new_fsm"
  using failed_entry_changes_nothing
    [of 3 "demo_entry CmdServerUpsert (JStr ''x'') ''k''" new_fsm ErrJson
      "new_fsm\<lparr>f_idem := GoMap [(''k'', 3)]\<rparr>"]
  by (simp add: fsm_apply_def apply_command_def upsert_with_def unmarshal_def cmd_defs
      new_fsm_def mempty_def)

text \<open>A late state report cannot bring a removed server back: the state entry of an
  unknown id leaves the whole state machine alone; of a known one it changes that server's
  state field and nothing else in any table.\<close>

theorem set_state_entry:
  assumes "fsm_ok s"
  shows "\<exists>s'. apply_command \<lparr>c_type = CmdServerSetState,
        c_payload = Some (JObj [(''id'', JStr k), (''state'', enc_uint st)]), c_idem = [], c_ts = ts\<rparr> s
        = Some (None, s')
      \<and> f_nodes s' = f_nodes s \<and> f_groups s' = f_groups s \<and> f_tokens s' = f_tokens s
      \<and> mget (f_servers s') = (mget (f_servers s))
          (k := map_option (\<lambda>v. v\<lparr>sv_state := st\<rparr>) (mget (f_servers s) k))
      \<and> (mget (f_servers s) k = None \<longrightarrow> s' = s)"
proof -
  have u: "unmarshal set_state_fields (Some (JObj [(''id'', JStr k), (''state'', enc_uint st)]))
      \<lparr>ss_id = [], ss_state = 0\<rparr> = Inr \<lparr>ss_id = k, ss_state = st\<rparr>"
    by (simp add: unmarshal_def set_state_fields_def fld_def)
  have a: "apply_command \<lparr>c_type = CmdServerSetState,
        c_payload = Some (JObj [(''id'', JStr k), (''state'', enc_uint st)]), c_idem = [], c_ts = ts\<rparr> s
      = adjust_server CmdServerSetState k (\<lambda>v. v\<lparr>sv_state := st\<rparr>) s"
    by (simp add: apply_command_def u cmd_defs)
  show ?thesis
  proof (cases "mget (f_servers s) k")
    case None
    then have e: "(mget (f_servers s))(k := None) = mget (f_servers s)" by (rule fun_upd_idem)
    show ?thesis
      unfolding a by (intro exI [of _ s]) (simp add: adjust_server_def None e)
  next
    case (Some v)
    obtain m where "mput k (v\<lparr>sv_state := st\<rparr>) (f_servers s) = Some m"
      using tbl.put_total [OF fsm_ok_maps(2) [OF assms], of k "v\<lparr>sv_state := st\<rparr>"] by (elim exE)
    with Some show ?thesis unfolding a by (simp add: adjust_server_def publish_def tbl.get_put)
  qed
qed

theorem set_state_entry_witness:
  "\<exists>s'. apply_command \<lparr>c_type = CmdServerSetState,
        c_payload = Some (JObj [(''id'', JStr ''gone''), (''state'', enc_uint ServerReady)]),
        c_idem = [], c_ts = 7\<rparr> new_fsm = Some (None, s') \<and> s' = new_fsm"
  using set_state_entry [OF new_fsm_ok, of "''gone''" ServerReady 7]
  by (auto simp: new_fsm_def)

section \<open>Idempotency keys\<close>

text \<open>C3. Entries that carry an idempotency key take effect at most once: after an entry with
  the key has been applied, and whatever well-formed entries follow it, a further entry
  with the same key is acknowledged and changes nothing, whatever its command.\<close>

theorem at_most_once:
  assumes "decode w = Inr c" and "c_idem c \<noteq> []" and "fsm_apply i w s = Some (e, s1)"
    and "fsm_replay es s1 = Some s2" and "decode w' = Inr c'" and "c_idem c' = c_idem c"
  shows "fsm_apply j w' s2 = Some (None, s2)"
proof -
  obtain x where "mget (f_idem s1) (c_idem c) = Some x"
    using assms(1-3) by (rule fsm_apply_records_key)
  with assms(4) have "mget (f_idem s2) (c_idem c) = Some x" by (rule fsm_replay_idem)
  with fsm_apply_duplicate [OF assms(5), of s2 x j] assms(2,6) show ?thesis by simp
qed

definition demo_keyed :: fsm where
  "demo_keyed = new_fsm\<lparr>f_idem := GoMap [(''k'', 3)]\<rparr>"

text \<open>The first entry with the key fails, its retry with a good payload is lost.\<close>

theorem at_most_once_witness:
  "fsm_apply 9 (demo_entry CmdNodeRemove (JObj [(''id'', JStr ''x'')]) ''k'') demo_keyed
     = Some (None, demo_keyed)"
  using at_most_once [of "demo_entry CmdServerUpsert (JStr ''x'') ''k''"
      "\<lparr>c_type = CmdServerUpsert, c_payload = Some (JStr ''x''), c_idem = ''k'', c_ts = 7\<rparr>"
      3 new_fsm "Some ErrJson" demo_keyed "[]" demo_keyed
      "demo_entry CmdNodeRemove (JObj [(''id'', JStr ''x'')]) ''k''"
      "\<lparr>c_type = CmdNodeRemove, c_payload = Some (JObj [(''id'', JStr ''x'')]), c_idem = ''k'', c_ts = 7\<rparr>" 9]
  by (simp add: fsm_apply_def apply_command_def upsert_with_def unmarshal_def cmd_defs
      new_fsm_def mempty_def demo_keyed_def)

section \<open>Snapshots\<close>

text \<open>C2. Log compaction is sound: replaying a prefix of the log, persisting the snapshot,
  restoring it on any daemon (whatever its state) and replaying the rest of the log gives
  the tables and idempotency keys of replaying the whole log.\<close>

theorem log_compaction:
  assumes "log_ok (as @ bs)" and "int64_ok now"
  shows "\<exists>s j u. fsm_replay as new_fsm = Some s \<and> enc_snapshot (take_snapshot now s) = Inr j
    \<and> fsm_replay (as @ bs) new_fsm = Some u
    \<and> (\<forall>t. \<exists>t' v. fsm_restore (Some j) t = (None, t') \<and> fsm_replay bs t' = Some v \<and> core v = core u)"
proof -
  obtain s where s: "fsm_replay as new_fsm = Some s" "fsm_ok s"
    using fsm_replay_ok [OF new_fsm_ok, of as] assms(1) by auto
  obtain u where u: "fsm_replay bs s = Some u"
    using fsm_replay_ok [OF s(2), of bs] assms(1) by auto
  obtain j where j: "enc_snapshot (take_snapshot now s) = Inr j"
    "\<And>t. fsm_restore (Some j) t = (None, s\<lparr>f_subscribers := f_subscribers t\<rparr>)"
    using snapshot_restore [OF s(2) assms(2)] by blast
  have "\<exists>v. fsm_replay bs (s\<lparr>f_subscribers := x\<rparr>) = Some v \<and> core v = core u" for x
  proof -
    have "core (s\<lparr>f_subscribers := x\<rparr>) = core s" by (simp add: core_eq_iff)
    from fsm_replay_sim [OF this, of bs] u show ?thesis
      by (cases "fsm_replay bs (s\<lparr>f_subscribers := x\<rparr>)") auto
  qed
  with s u j show ?thesis by (auto simp: fsm_replay_append)
qed

theorem log_compaction_witness:
  "\<exists>s j u. fsm_replay [(1, demo_entry CmdNodeRemove (JObj [(''id'', JStr ''x'')]) ''k'')] new_fsm = Some s
    \<and> enc_snapshot (take_snapshot 7 s) = Inr j
    \<and> fsm_replay ([(1, demo_entry CmdNodeRemove (JObj [(''id'', JStr ''x'')]) ''k'')] @ [(2, None)]) new_fsm = Some u
    \<and> (\<forall>t. \<exists>t' v. fsm_restore (Some j) t = (None, t') \<and> fsm_replay [(2, None)] t' = Some v \<and> core v = core u)"
  by (rule log_compaction) (simp_all add: wire_ok_def [of None])

text \<open>A snapshot object without a \<open>servers\<close> member restores without an error but leaves
  that table a nil map, and the next server upsert applied to it panics.\<close>

theorem restore_without_table_panics:
  assumes "fsm_restore (Some (JObj kvs)) s = (None, s')"
    and "\<forall>k\<in>fst ` set kvs. to_lower k \<noteq> ''servers''"
    and "server_valid v" and "int64_ok ts" and "encode CmdServerUpsert (enc_server v) [] ts = Inr w"
  shows "fsm_apply i w s' = None"
proof -
  have nil: "f_servers s' = NilMap"
    using assms(1) by (rule restore_without_servers) (use assms(2) in force)
  obtain p where p: "enc_server v = Inr p" "dec_struct server_fields p server_zero = Inr v"
    using server_codec.enc_valid [OF assms(3)] server_codec.dec_enc [OF assms(3)] by blast
  show ?thesis
    using fsm_apply_encoded [OF assms(5) [unfolded p(1)] assms(4), of i s'] p(2) nil
    by (simp add: apply_command_def unmarshal_def upsert_with_def cmd_defs)
qed

theorem restore_without_table_witness:
  "\<exists>w. encode CmdServerUpsert (enc_server demo_server) [] 7 = Inr w
     \<and> fsm_apply 2 w (snd (fsm_restore (Some (JObj [])) new_fsm)) = None"
proof -
  obtain w where w: "encode CmdServerUpsert (enc_server demo_server) [] 7 = Inr w"
    using server_table.up_encodes [OF demo_valid(2)] by blast
  have "fsm_restore (Some (JObj [])) new_fsm = (None, snd (fsm_restore (Some (JObj [])) new_fsm))"
    by (simp add: fsm_restore_def)
  from restore_without_table_panics [OF this _ demo_valid(2) int64_ok_7 w, of 2] w
  show ?thesis by simp
qed

section \<open>Events and the side cache\<close>

text \<open>C17. Subscribers: an entry appends at most one event, the same to every channel that has
  room, drops it for a full one (the apply path never blocks), never reorders or removes
  what is queued, never removes a subscriber, and a failing entry sends nothing.\<close>

theorem apply_events:
  assumes "fsm_apply i w s = Some (e, s')"
  shows "\<exists>evs. length evs \<le> 1 \<and> (e \<noteq> None \<longrightarrow> evs = [])
    \<and> length (f_subscribers s') = length (f_subscribers s)
    \<and> (\<forall>n<length (f_subscribers s). let c = f_subscribers s ! n; c' = f_subscribers s' ! n in
         ch_cap c' = ch_cap c
         \<and> ch_buf c' = ch_buf c @ (if length (ch_buf c) < ch_cap c then evs else []))"
proof -
  have ev: "f_subscribers s' = f_subscribers s
      \<or> e = None \<and> (\<exists>ev. f_subscribers s' = map (chan_send ev) (f_subscribers s))"
    using fsm_apply_event [of s i w] assms by (simp add: one_event_def)
  then show ?thesis
  proof
    assume "f_subscribers s' = f_subscribers s"
    then show ?thesis by (intro exI [of _ "[]"]) (simp add: Let_def)
  next
    assume "e = None \<and> (\<exists>ev. f_subscribers s' = map (chan_send ev) (f_subscribers s))"
    then obtain ev where "e = None" "f_subscribers s' = map (chan_send ev) (f_subscribers s)"
      by blast
    then show ?thesis by (intro exI [of _ "[ev]"]) (simp add: Let_def chan_send_def)
  qed
qed

theorem apply_events_witness:
  "\<exists>s'. fsm_apply 1 None (subscribe 1 new_fsm) = Some (Some ErrJson, s')
     \<and> ch_buf (f_subscribers s' ! 0) = []"
proof -
  have a: "fsm_apply 1 None (subscribe 1 new_fsm) = Some (Some ErrJson, subscribe 1 new_fsm)"
    by (simp add: fsm_apply_def decode_def)
  from apply_events [OF this] a show ?thesis by (auto simp: subscribe_def new_fsm_def)
qed

text \<open>The side cache is never written: \<open>Persist\<close> closes the file it is given, so the
  close after it fails. Whatever the disk does, \<open>FlushCache\<close> returns an error and the
  final file keeps its old content.\<close>

theorem flush_cache_never_succeeds:
  "fst (flush_cache os now dir s d) \<noteq> None
   \<and> snd (flush_cache os now dir s d) (dir @ ''/fsm.snap'') = d (dir @ ''/fsm.snap'')"
proof -
  obtain e d' where "flush_cache os now dir s d = (Some e, d')"
    "d' (dir @ ''/fsm.snap'') = d (dir @ ''/fsm.snap'')"
    using flush_cache_outcome by blast
  then show ?thesis by simp
qed

end
