(* ===== verification/ClusterLaws.thy ===== *)
theory ClusterLaws
  imports Cluster FsmLaws
begin

text \<open>
  Properties of the cluster wrapper and the quorum guard (daemon/internal/cluster), and of
  pkg/quorum. The contract of the raft library they rest on is that a proposal reported
  without error has been committed and applied (\<open>raft_honest\<close>).
\<close>

definition raft_honest :: "env \<Rightarrow> bool" where
  "raft_honest E \<longleftrightarrow> (\<forall>n. ra_err (e_raft E n) = None \<longrightarrow> ra_commit (e_raft E n))"

text \<open>An environment where this daemon leads, everything commits and nobody else proposes.\<close>

definition calm_env :: env where
  "calm_env = \<lparr>e_others = \<lambda>_. [], e_leads = \<lambda>_. True, e_raft = \<lambda>_. \<lparr>ra_commit = True, ra_err = None\<rparr>,
     e_config = \<lambda>_. Inr [\<lparr>rs_id = ''a'', rs_address = ''10.0.0.1'', rs_suffrage = 0\<rparr>,
       \<lparr>rs_id = ''b'', rs_address = ''10.0.0.2'', rs_suffrage = 0\<rparr>,
       \<lparr>rs_id = ''c'', rs_address = ''10.0.0.3'', rs_suffrage = 0\<rparr>],
     e_leader = \<lambda>_. (''10.0.0.1'', ''a''), e_iter = \<lambda>_ ks. ks, e_now = \<lambda>_. 63900000000 * second, e_rand = \<lambda>_. []\<rparr>"

definition boot_world :: world where
  "boot_world = \<lparr>w_fsm = new_fsm, w_index = 0, w_step = 0, w_sent = []\<rparr>"

lemma calm_env_ok [simp]: "env_ok calm_env" "raft_honest calm_env"
  by (simp_all add: env_ok_def raft_honest_def calm_env_def)

lemma boot_world_ok [simp]: "fsm_ok (w_fsm boot_world)" "world_ok L boot_world"
  by (simp_all add: boot_world_def world_ok_def new_fsm_ok)

lemma calm_env_simps [simp]:
  "e_others calm_env n = []" "e_leads calm_env n" "ra_commit (e_raft calm_env n)"
  "ra_err (e_raft calm_env n) = None" "e_iter calm_env n = (\<lambda>ks. ks)"
  "e_now calm_env n = 63900000000 * second" "e_rand calm_env n = []" "e_leader calm_env n = (''10.0.0.1'', ''a'')"
  by (simp_all add: calm_env_def)

lemma calm_sync [simp]: "sync calm_env W = Some (w_step W, W\<lparr>w_step := Suc (w_step W)\<rparr>)"
  by (simp add: sync_def)

section \<open>One call at a time\<close>

lemma sync_returns:
  assumes "env_ok E" and "fsm_ok (w_fsm W)"
  obtains W' where "sync E W = Some (w_step W, W')" "fsm_ok (w_fsm W')" "w_sent W' = w_sent W"
    "w_step W' = Suc (w_step W)"
proof -
  obtain W' where "commit_all (e_others E (w_step W)) W = Some W'" "fsm_ok (w_fsm W')"
    "w_sent W' = w_sent W"
    using commit_all_ok [OF assms(2), of "e_others E (w_step W)"] assms(1) by (auto simp: env_ok_def)
  then show ?thesis by (intro that [of "W'\<lparr>w_step := Suc (w_step W)\<rparr>"]) (simp_all add: sync_def)
qed

lemma members_returns:
  assumes "env_ok E" and "fsm_ok (w_fsm W)" and "\<And>n. e_config E n = Inr ss"
  obtains W' where "members E W = Some (Inr (map (\<lambda>s. \<lparr>m_id = rs_id s, m_address = rs_address s,
      m_voter = (rs_suffrage s = 0)\<rparr>) ss), W')" "fsm_ok (w_fsm W')" "w_sent W' = w_sent W"
  using assms(1,2) by (rule sync_returns) (simp add: members_def andthen_def assms(3) that)

lemma quorum_returns:
  assumes "env_ok E" and "fsm_ok (w_fsm W)" and "\<And>n. e_config E n = Inr ss"
  obtains W' where "cluster_quorum E W = Some (quorum_size (int (length ss)), W')"
    "fsm_ok (w_fsm W')" "w_sent W' = w_sent W"
proof (rule members_returns [OF assms])
  fix W' assume "members E W = Some (Inr (map (\<lambda>s. \<lparr>m_id = rs_id s, m_address = rs_address s,
      m_voter = (rs_suffrage s = 0)\<rparr>) ss), W')" "fsm_ok (w_fsm W')" "w_sent W' = w_sent W"
  then show thesis by (intro that [of W']) (simp_all add: cluster_quorum_def andthen_def ret_def)
qed

lemma below_quorum_returns:
  assumes "env_ok E" and "fsm_ok (w_fsm W)" and "\<And>n. e_config E n = Inr ss" and "ss \<noteq> []"
  obtains W' where "below_quorum up E W = Some (up < quorum_size (int (length ss)), W')"
    "fsm_ok (w_fsm W')" "w_sent W' = w_sent W"
proof (rule members_returns [OF assms(1-3)])
  fix W1 assume m: "members E W = Some (Inr (map (\<lambda>s. \<lparr>m_id = rs_id s, m_address = rs_address s,
      m_voter = (rs_suffrage s = 0)\<rparr>) ss), W1)" "fsm_ok (w_fsm W1)" "w_sent W1 = w_sent W"
  obtain W2 where q: "cluster_quorum E W1 = Some (quorum_size (int (length ss)), W2)"
    "fsm_ok (w_fsm W2)" "w_sent W2 = w_sent W1"
    using assms(1) m(2) assms(3) by (rule quorum_returns)
  have "\<not> int (length ss) < quorum_size (int (length ss))"
    using quorum_size_bounds [of "int (length ss)"] assms(4) by simp
  with m q show thesis
    by (intro that [of W2]) (simp_all add: below_quorum_def andthen_def ret_def)
qed

section \<open>Apply\<close>

text \<open>A daemon that does not lead proposes nothing: \<open>Apply\<close> returns \<open>ErrNotLeader\<close> and
  hands no data to raft.\<close>

theorem apply_needs_leader:
  assumes "env_ok E" and "fsm_ok (w_fsm W)" and "\<not> e_leads E (w_step W)"
  shows "\<exists>W'. cluster_apply w E W = Some (Some ErrNotLeader, W') \<and> w_sent W' = w_sent W"
  using assms(1,2)
  by (rule sync_returns) (simp add: cluster_apply_def is_leader_def andthen_def ret_def assms(3))

definition follower_env :: env where
  "follower_env = calm_env\<lparr>e_leads := \<lambda>_. False\<rparr>"

theorem apply_needs_leader_witness:
  "\<exists>W'. cluster_apply None follower_env boot_world = Some (Some ErrNotLeader, W')
    \<and> w_sent W' = w_sent boot_world"
  by (rule apply_needs_leader) (simp_all add: follower_env_def env_ok_def calm_env_def)

lemma cluster_apply_nil:
  assumes "env_ok E" and "raft_honest E" and "fsm_ok (w_fsm W)" and "cluster_apply w E W = Some (None, W')"
  shows "\<exists>(V :: world) e. fsm_ok (w_fsm V)
    \<and> fsm_apply (word_of_nat (Suc (w_index V))) w (w_fsm V) = Some (e, w_fsm W')
    \<and> w_index W' = Suc (w_index V) \<and> w_sent W' = w_sent V \<and> w \<in> set (w_sent V)"
proof -
  obtain V1 where V1: "sync E W = Some (w_step W, V1)" "fsm_ok (w_fsm V1)"
    using assms(1,3) by (rule sync_returns)
  obtain V2 where V2: "sync E V1 = Some (w_step V1, V2)" "fsm_ok (w_fsm V2)"
    using assms(1) V1(2) by (rule sync_returns)
  let ?V = "V2\<lparr>w_sent := w_sent V2 @ [w]\<rparr>"
  from assms(4) V1 V2 have "ra_err (e_raft E (w_step V1)) = None"
    "commit_all (if ra_commit (e_raft E (w_step V1)) then [w] else []) ?V = Some W'"
    by (auto simp: cluster_apply_def is_leader_def raft_apply_def andthen_def ret_def split: if_splits)
  with assms(2) have c: "commit_all [w] ?V = Some W'"
    by (simp add: raft_honest_def)
  show ?thesis
    by (rule exI [of _ ?V]) (use c V2(2) in \<open>auto split: option.splits\<close>)
qed



section \<open>Quorum\<close>

text \<open>A quorum is a strict majority and the least one: it is at most the cluster's size,
  two disjoint groups of members never both hold one, and for an odd cluster of \<open>2f + 1\<close>
  members any \<open>f\<close> may fail.\<close>

theorem quorum_is_majority:
  assumes "0 < n"
  shows "1 \<le> quorum_size n \<and> quorum_size n \<le> n \<and> n < 2 * quorum_size n
    \<and> (\<forall>a b. a + b \<le> n \<longrightarrow> \<not> (has_quorum n a \<and> has_quorum n b))
    \<and> (\<forall>f. n = 2 * f + 1 \<longrightarrow> has_quorum n (n - f))"
proof -
  have "n < 2 * quorum_size n" by (rule quorum_size_majority)
  then show ?thesis
    using quorum_size_bounds [OF assms] by (auto simp: has_quorum_def quorum_size_def)
qed

theorem quorum_is_majority_witness:
  "5 < 2 * quorum_size 5 \<and> \<not> (has_quorum 5 2 \<and> has_quorum 5 3) \<and> has_quorum 5 (5 - 2)"
proof -
  from quorum_is_majority [of 5]
  have "5 < 2 * quorum_size 5" "\<forall>a b. a + b \<le> 5 \<longrightarrow> \<not> (has_quorum 5 a \<and> has_quorum 5 b)"
    "\<forall>f. 5 = 2 * f + 1 \<longrightarrow> has_quorum 5 (5 - f)" by simp_all
  from this(1) this(2) [rule_format, of 2 3] this(3) [rule_format, of 2] show ?thesis by simp
qed

text \<open>No split brain: of two disjoint sets of members of one cluster, at most one passes the
  quorum test, so with one vote per member there is at most one winner.\<close>

theorem one_side_only:
  assumes "finite M" and "A \<inter> B = {}"
  shows "\<not> (majority M A \<and> majority M B)"
  using assms by (rule maj.no_split_brain)

theorem one_side_only_witness:
  "majority {1::nat, 2, 3} {1, 2} \<and> \<not> majority {1::nat, 2, 3} {3}"
proof -
  have "majority {1::nat, 2, 3} {1, 2}" by (simp add: majority_def has_quorum_def quorum_size_def)
  with one_side_only [of "{1::nat, 2, 3}" "{1, 2}" "{3}"] show ?thesis by simp
qed

text \<open>The quorum guard, over a cluster whose configuration can be read: a mutating request
  (outside the two health paths) is answered 503, with nothing proposed and the handler not
  run, exactly when fewer nodes are up than the quorum; every other request reaches the
  handler.\<close>

theorem quorum_guard_decides:
  assumes "env_ok E" and "fsm_ok (w_fsm W)" and "\<forall>n. e_config E n = Inr ss" and "ss \<noteq> []"
  shows "if mutating m \<and> \<not> has_prefix p ''/healthz'' \<and> \<not> has_prefix p ''/readyz''
      \<and> up < quorum_size (int (length ss))
    then \<exists>W'. quorum_guard m p (ret up) h E W = Some (Inl \<lparr>gr_status = 503,
        gr_quorum = quorum_size (int (length ss)), gr_members = length ss\<rparr>, W')
      \<and> w_sent W' = w_sent W
    else \<exists>W'. quorum_guard m p (ret up) h E W = (case h E W' of None \<Rightarrow> None
        | Some (x, W'') \<Rightarrow> Some (Inr x, W''))
      \<and> w_sent W' = w_sent W \<and> fsm_ok (w_fsm W')"
proof -
  have c: "\<And>n. e_config E n = Inr ss" using assms(3) by simp
  obtain W1 where b: "below_quorum up E W = Some (up < quorum_size (int (length ss)), W1)"
    "fsm_ok (w_fsm W1)" "w_sent W1 = w_sent W"
    using assms(1,2) c assms(4) by (rule below_quorum_returns)
  obtain W2 where q: "cluster_quorum E W1 = Some (quorum_size (int (length ss)), W2)"
    "fsm_ok (w_fsm W2)" "w_sent W2 = w_sent W1"
    using assms(1) b(2) c by (rule quorum_returns)
  obtain W3 where n: "members E W2 = Some (Inr (map (\<lambda>s. \<lparr>m_id = rs_id s, m_address = rs_address s,
      m_voter = (rs_suffrage s = 0)\<rparr>) ss), W3)" "w_sent W3 = w_sent W2"
    using assms(1) q(2) c by (rule members_returns)
  let ?guarded = "mutating m \<and> \<not> has_prefix p ''/healthz'' \<and> \<not> has_prefix p ''/readyz''"
  consider "?guarded" "up < quorum_size (int (length ss))"
    | "?guarded" "\<not> up < quorum_size (int (length ss))" | "\<not> ?guarded" by blast
  then show ?thesis
  proof cases
    case 1
    with b q n show ?thesis by (simp add: quorum_guard_def andthen_def ret_def)
  next
    case 2
    with b have "quorum_guard m p (ret up) h E W
        = (case h E W1 of None \<Rightarrow> None | Some (x, W'') \<Rightarrow> Some (Inr x, W''))"
      by (simp add: quorum_guard_def andthen_def ret_def split: option.splits)
    with 2 b show ?thesis by auto
  next
    case 3
    then have "quorum_guard m p (ret up) h E W
        = (case h E W of None \<Rightarrow> None | Some (x, W'') \<Rightarrow> Some (Inr x, W''))"
      by (auto simp: quorum_guard_def andthen_def ret_def split: option.splits)
    with 3 assms(2) show ?thesis by auto
  qed
qed

theorem quorum_guard_witness:
  "\<exists>W'. quorum_guard ''POST'' ''/api/v1/servers'' (ret 1) (ret ()) calm_env boot_world
     = Some (Inl \<lparr>gr_status = 503, gr_quorum = 2, gr_members = 3\<rparr>, W') \<and> w_sent W' = []"
proof -
  have "\<forall>n. e_config calm_env n = Inr [\<lparr>rs_id = ''a'', rs_address = ''10.0.0.1'', rs_suffrage = 0\<rparr>,
       \<lparr>rs_id = ''b'', rs_address = ''10.0.0.2'', rs_suffrage = 0\<rparr>,
       \<lparr>rs_id = ''c'', rs_address = ''10.0.0.3'', rs_suffrage = 0\<rparr>]"
    by (simp add: calm_env_def)
  from quorum_guard_decides [OF calm_env_ok(1) boot_world_ok(1) this,
      of "''POST''" "''/api/v1/servers''" 1 "ret ()"]
  show ?thesis by (simp add: mutating_def quorum_size_def boot_world_def numeral_3_eq_3)
qed

end
