(* ===== verification/SchedulerLaws.thy ===== *)
theory SchedulerLaws
  imports SchedulerProps ClusterLaws
begin

text \<open>
  The properties of the scheduler: placement, failover, liveness checks and autoscaling,
  stated over the operations of daemon/internal/scheduler.
\<close>

section \<open>Failover in a calm environment\<close>

text \<open>What failover owes a server \<open>v\<close> of the dead node, given the node table.\<close>

definition best_host :: "node gomap \<Rightarrow> server_spec \<Rightarrow> string \<Rightarrow> node \<Rightarrow> bool" where
  "best_host N spec dead t \<longleftrightarrow> (\<exists>k. mget N k = Some t) \<and> eligible spec dead t
     \<and> (\<forall>k m. mget N k = Some m \<longrightarrow> eligible spec dead m
          \<longrightarrow> free_memory_mb (n_resources m) \<le> free_memory_mb (n_resources t))"

definition evacuated :: "node gomap \<Rightarrow> string \<Rightarrow> server \<Rightarrow> server \<Rightarrow> bool" where
  "evacuated N dead v v' \<longleftrightarrow>
     (if \<not> sp_ha_required (sv_spec v) then v' = v\<lparr>sv_state := ServerOrphaned\<rparr>
      else if \<exists>k n. mget N k = Some n \<and> eligible (sv_spec v) dead n then
        \<exists>t. best_host N (sv_spec v) dead t \<and> v' = v\<lparr>sv_node_id := n_id t, sv_state := ServerStarting,
          sv_container_id := [], sv_host_port := 0\<rparr>
      else v' = v)"

lemma pick_from_table:
  assumes "permutes ord"
  shows "(case pick_from (fsm_nodes ord s) spec x of
      Inl e \<Rightarrow> e = ErrNoHost \<and> \<not> (\<exists>k n. mget (f_nodes s) k = Some n \<and> eligible spec x n)
    | Inr t \<Rightarrow> best_host (f_nodes s) spec x t)"
proof (cases "pick_from (fsm_nodes ord s) spec x")
  case (Inl e)
  then have "e = ErrNoHost \<and> (\<forall>n\<in>set (fsm_nodes ord s). \<not> eligible spec x n)"
    unfolding pick_from_Inl .
  with Inl assms show ?thesis by (auto simp: fsm_nodes_def set_mvalues)
next
  case (Inr t)
  from pick_from_Inr [OF this] Inr assms show ?thesis
    by (auto simp: fsm_nodes_def set_mvalues best_host_def)
qed

lemma calm_pick_host:
  assumes "calm E"
  shows "pick_host spec x E W = Some (pick_from (fsm_nodes (e_iter E (w_step W)) (w_fsm W)) spec x,
    W\<lparr>w_step := Suc (w_step W)\<rparr>)"
  by (simp add: pick_host_def calm_simps [OF assms])

lemma calm_evacuate_one:
  assumes E: "calm E" and ok: "fsm_ok (w_fsm W)" and v: "mget (f_servers (w_fsm W)) k = Some v"
  shows "\<exists>W' v'. evacuate_one dead v E W = Some ((), W') \<and> fsm_ok (w_fsm W')
    \<and> evacuated (f_nodes (w_fsm W)) dead v v' \<and> f_nodes (w_fsm W') = f_nodes (w_fsm W)
    \<and> f_groups (w_fsm W') = f_groups (w_fsm W)
    \<and> mget (f_servers (w_fsm W')) = (mget (f_servers (w_fsm W)))(k \<mapsto> v')"
proof -
  from server_table.get_ok [OF ok v] have valid: "server_valid v" and k: "sp_id (sv_spec v) = k" by auto
  show ?thesis
  proof (cases "sp_ha_required (sv_spec v)")
    case False
    have "server_valid (v\<lparr>sv_state := ServerOrphaned\<rparr>)" using valid by simp
    from calm_apply_server [OF E ok this] obtain W' where
      "apply_server (v\<lparr>sv_state := ServerOrphaned\<rparr>) E W = Some (None, W')" "fsm_ok (w_fsm W')"
      "mget (f_servers (w_fsm W')) = (mget (f_servers (w_fsm W)))(k \<mapsto> v\<lparr>sv_state := ServerOrphaned\<rparr>)"
      "f_nodes (w_fsm W') = f_nodes (w_fsm W)" "f_groups (w_fsm W') = f_groups (w_fsm W)"
      using k by auto
    with False show ?thesis
      by (auto simp: evacuate_one_def andthen_def ret_def evacuated_def)
  next
    case True
    let ?W1 = "W\<lparr>w_step := Suc (w_step W)\<rparr>"
    let ?r = "pick_from (fsm_nodes (e_iter E (w_step W)) (w_fsm W)) (sv_spec v) dead"
    note p = pick_from_table [where ord = "e_iter E (w_step W)", OF calm_simps(4) [OF E],
        where s = "w_fsm W" and spec = "sv_spec v" and x = dead]
    show ?thesis
    proof (cases ?r)
      case (Inl e)
      with p have "\<not> (\<exists>k n. mget (f_nodes (w_fsm W)) k = Some n \<and> eligible (sv_spec v) dead n)" by simp
      with True have "evacuated (f_nodes (w_fsm W)) dead v v" unfolding evacuated_def by auto
      moreover have "evacuate_one dead v E W = Some ((), ?W1)"
        using True Inl by (simp add: evacuate_one_def andthen_def ret_def calm_pick_host [OF E])
      moreover have "(mget (f_servers (w_fsm W)))(k \<mapsto> v) = mget (f_servers (w_fsm W))"
        using v by (rule fun_upd_idem)
      ultimately show ?thesis using ok by (intro exI [of _ ?W1] exI [of _ v]) simp
    next
      case (Inr t)
      let ?v = "v\<lparr>sv_node_id := n_id t, sv_state := ServerStarting, sv_container_id := [], sv_host_port := 0\<rparr>"
      from p Inr have b: "best_host (f_nodes (w_fsm W)) (sv_spec v) dead t" by simp
      then have ex: "\<exists>k n. mget (f_nodes (w_fsm W)) k = Some n \<and> eligible (sv_spec v) dead n"
        unfolding best_host_def by blast
      have ev: "evacuated (f_nodes (w_fsm W)) dead v ?v"
        unfolding evacuated_def if_P [OF ex] using True b by auto
      have "server_valid ?v" "fsm_ok (w_fsm ?W1)" using valid ok by simp_all
      from calm_apply_server [OF E this(2,1)] obtain W' where
        "apply_server ?v E ?W1 = Some (None, W')" "fsm_ok (w_fsm W')"
        "mget (f_servers (w_fsm W')) = (mget (f_servers (w_fsm W)))(k \<mapsto> ?v)"
        "f_nodes (w_fsm W') = f_nodes (w_fsm W)" "f_groups (w_fsm W') = f_groups (w_fsm W)"
        using k by auto
      with True Inr ev show ?thesis
        by (intro exI [of _ W'] exI [of _ ?v])
          (simp add: evacuate_one_def andthen_def ret_def calm_pick_host [OF E])
    qed
  qed
qed

lemma calm_evacuate_list:
  assumes E: "calm E" and ok: "fsm_ok (w_fsm W)"
    and "distinct (map (\<lambda>v. sp_id (sv_spec v)) vs)"
    and "\<forall>v\<in>set vs. mget (f_servers (w_fsm W)) (sp_id (sv_spec v)) = Some v"
  shows "\<exists>W'. for_each vs (evacuate_one dead) E W = Some ((), W') \<and> fsm_ok (w_fsm W')
    \<and> f_nodes (w_fsm W') = f_nodes (w_fsm W) \<and> f_groups (w_fsm W') = f_groups (w_fsm W)
    \<and> (\<forall>v\<in>set vs. \<exists>v'. mget (f_servers (w_fsm W')) (sp_id (sv_spec v)) = Some v'
          \<and> evacuated (f_nodes (w_fsm W)) dead v v')
    \<and> (\<forall>k. k \<notin> (\<lambda>v. sp_id (sv_spec v)) ` set vs
          \<longrightarrow> mget (f_servers (w_fsm W')) k = mget (f_servers (w_fsm W)) k)"
  using ok assms(3,4)
proof (induction vs arbitrary: W)
  case Nil
  then show ?case by (simp add: ret_def)
next
  case (Cons v vs)
  let ?id = "\<lambda>v. sp_id (sv_spec v)"
  from Cons.prems obtain W1 v' where W1: "evacuate_one dead v E W = Some ((), W1)" "fsm_ok (w_fsm W1)"
    "evacuated (f_nodes (w_fsm W)) dead v v'" "f_nodes (w_fsm W1) = f_nodes (w_fsm W)"
    "f_groups (w_fsm W1) = f_groups (w_fsm W)"
    "mget (f_servers (w_fsm W1)) = (mget (f_servers (w_fsm W)))(?id v \<mapsto> v')"
    using calm_evacuate_one [OF E, of W "?id v" v dead] by auto
  have fresh: "\<forall>u\<in>set vs. ?id u \<noteq> ?id v" using Cons.prems(2) by (auto simp: image_iff)
  have "\<forall>u\<in>set vs. mget (f_servers (w_fsm W1)) (?id u) = Some u"
    using Cons.prems(3) fresh W1(6) by simp
  with Cons.IH [OF W1(2)] Cons.prems(2) obtain W' where
    "for_each vs (evacuate_one dead) E W1 = Some ((), W')" "fsm_ok (w_fsm W')"
    "f_nodes (w_fsm W') = f_nodes (w_fsm W1)" "f_groups (w_fsm W') = f_groups (w_fsm W1)"
    "\<forall>u\<in>set vs. \<exists>u'. mget (f_servers (w_fsm W')) (?id u) = Some u' \<and> evacuated (f_nodes (w_fsm W1)) dead u u'"
    "\<forall>k. k \<notin> ?id ` set vs \<longrightarrow> mget (f_servers (w_fsm W')) k = mget (f_servers (w_fsm W1)) k"
    by auto
  moreover have "?id v \<notin> ?id ` set vs" using fresh by auto
  ultimately show ?case
    using W1 by (intro exI [of _ W']) (auto simp: andthen_def)
qed

lemma distinct_all_server_ids:
  assumes "fsm_ok s" and "permutes ord"
  shows "distinct (map (\<lambda>v. sp_id (sv_spec v)) (fsm_servers ord s))"
proof -
  have t: "table_ok (\<lambda>v. sp_id (sv_spec v)) server_valid (f_servers s)"
    using assms(1) unfolding fsm_ok_def by blast
  have "map (\<lambda>v. sp_id (sv_spec v)) (mvalues ord (f_servers s)) = map fst (mrange ord (f_servers s))"
    unfolding mvalues_def using table_okD [OF t] by (auto simp: set_mrange [OF assms(2)])
  then show ?thesis
    unfolding fsm_servers_def using distinct_mrange [OF assms(2) table_ok_map_ok [OF t]] by simp
qed

lemma distinct_server_ids:
  assumes "fsm_ok s" and "permutes ord"
  shows "distinct (map (\<lambda>v. sp_id (sv_spec v)) (servers_on_node ord dead s))"
  using distinct_all_server_ids [OF assms] unfolding servers_on_node_def fsm_servers_def
  by (rule distinct_map_filter)

lemma calm_evacuate:
  assumes E: "calm E" and ok: "fsm_ok (w_fsm W)"
  shows "\<exists>W'. evacuate dead E W = Some ((), W') \<and> fsm_ok (w_fsm W')
    \<and> f_nodes (w_fsm W') = f_nodes (w_fsm W) \<and> f_groups (w_fsm W') = f_groups (w_fsm W)
    \<and> (\<forall>k. case mget (f_servers (w_fsm W)) k of
          None \<Rightarrow> mget (f_servers (w_fsm W')) k = None
        | Some v \<Rightarrow> if sv_node_id v = dead
            then \<exists>v'. mget (f_servers (w_fsm W')) k = Some v' \<and> evacuated (f_nodes (w_fsm W)) dead v v'
            else mget (f_servers (w_fsm W')) k = Some v)"
proof -
  let ?ord = "e_iter E (w_step W)" and ?W1 = "W\<lparr>w_step := Suc (w_step W)\<rparr>"
  let ?vs = "servers_on_node ?ord dead (w_fsm W)"
  have ord: "permutes ?ord" using E by (rule calm_simps)
  have vs: "v \<in> set ?vs \<longleftrightarrow> sv_node_id v = dead \<and> mget (f_servers (w_fsm W)) (sp_id (sv_spec v)) = Some v" for v
    using server_table.get_ok [OF ok] ord by (auto simp: servers_on_node_def set_mvalues)
  obtain W' where W': "for_each ?vs (evacuate_one dead) E ?W1 = Some ((), W')" "fsm_ok (w_fsm W')"
    "f_nodes (w_fsm W') = f_nodes (w_fsm W)" "f_groups (w_fsm W') = f_groups (w_fsm W)"
    "\<forall>v\<in>set ?vs. \<exists>v'. mget (f_servers (w_fsm W')) (sp_id (sv_spec v)) = Some v'
        \<and> evacuated (f_nodes (w_fsm W)) dead v v'"
    "\<forall>k. k \<notin> (\<lambda>v. sp_id (sv_spec v)) ` set ?vs
        \<longrightarrow> mget (f_servers (w_fsm W')) k = mget (f_servers (w_fsm W)) k"
    using calm_evacuate_list [OF E, of ?W1 ?vs dead] ok distinct_server_ids [OF ok ord] vs by auto
  have "case mget (f_servers (w_fsm W)) k of
          None \<Rightarrow> mget (f_servers (w_fsm W')) k = None
        | Some v \<Rightarrow> if sv_node_id v = dead
            then \<exists>v'. mget (f_servers (w_fsm W')) k = Some v' \<and> evacuated (f_nodes (w_fsm W)) dead v v'
            else mget (f_servers (w_fsm W')) k = Some v" for k
  proof (cases "mget (f_servers (w_fsm W)) k")
    case None
    then have "k \<notin> (\<lambda>v. sp_id (sv_spec v)) ` set ?vs" using vs by auto
    with None W'(6) show ?thesis by simp
  next
    case (Some v)
    with server_table.get_ok [OF ok] have id: "sp_id (sv_spec v) = k" by blast
    show ?thesis
    proof (cases "sv_node_id v = dead")
      case True
      with Some id vs have "v \<in> set ?vs" by simp
      with W'(5) id have "\<exists>v'. mget (f_servers (w_fsm W')) k = Some v'
          \<and> evacuated (f_nodes (w_fsm W)) dead v v'" by auto
      with Some True show ?thesis by simp
    next
      case False
      have "k \<notin> (\<lambda>v. sp_id (sv_spec v)) ` set ?vs"
      proof
        assume "k \<in> (\<lambda>v. sp_id (sv_spec v)) ` set ?vs"
        then obtain u where "u \<in> set ?vs" "k = sp_id (sv_spec u)" by blast
        with vs [of u] Some False show False by simp
      qed
      with W'(6) Some False show ?thesis by simp
    qed
  qed
  moreover have "evacuate dead E W = Some ((), W')"
    by (simp add: evacuate_def andthen_def calm_simps [OF E] W'(1))
  ultimately show ?thesis by (intro exI [of _ W'] conjI allI W'(2-4))
qed

section \<open>Node writes and new instances in a calm environment\<close>

lemma calm_apply_node:
  assumes E: "calm E" and ok: "fsm_ok (w_fsm W)" and v: "node_valid n"
  obtains W' w where "apply_node n E W = Some (None, W')" "fsm_ok (w_fsm W')"
    "mget (f_nodes (w_fsm W')) = (mget (f_nodes (w_fsm W)))(n_id n \<mapsto> n)"
    "f_servers (w_fsm W') = f_servers (w_fsm W)" "f_groups (w_fsm W') = f_groups (w_fsm W)"
    "w_sent W' = w_sent W @ [w]"
proof -
  obtain ts W1 where ts: "now_unix_nano E W = Some (ts, W1)" "int64_ok ts" "w_fsm W1 = w_fsm W"
    "w_sent W1 = w_sent W"
    using E by (simp add: now_unix_nano_def andthen_def calm_simps ret_def unix_nano_def wrap64_range)
  obtain w where w: "encode CmdNodeUpsert (enc_node n) [] ts = Inr w"
    using node_table.up_encodes [OF v] by blast
  have "\<exists>s'. fsm_apply i w (w_fsm W1) = Some (None, s') \<and> fsm_ok s'
    \<and> mget (f_nodes s') = (mget (f_nodes (w_fsm W)))(n_id n \<mapsto> n)
    \<and> f_servers s' = f_servers (w_fsm W) \<and> f_groups s' = f_groups (w_fsm W)" for i
  proof (rule apply_node_upsert [OF ok ts(2) v w(1), of i])
    fix m assume "mput (n_id n) n (f_nodes (w_fsm W)) = Some m"
      "fsm_apply i w (w_fsm W) = Some (None, publish CmdNodeUpsert (EvNode n) ((w_fsm W)\<lparr>f_nodes := m\<rparr>))"
      "fsm_ok (publish CmdNodeUpsert (EvNode n) ((w_fsm W)\<lparr>f_nodes := m\<rparr>))"
    with ts(3) show ?thesis by (simp add: publish_def tbl.get_put)
  qed
  then obtain s' where s: "\<And>i. fsm_apply i w (w_fsm W1) = Some (None, s' i)" "\<And>i. fsm_ok (s' i)"
    "\<And>i. mget (f_nodes (s' i)) = (mget (f_nodes (w_fsm W)))(n_id n \<mapsto> n)"
    "\<And>i. f_servers (s' i) = f_servers (w_fsm W)" "\<And>i. f_groups (s' i) = f_groups (w_fsm W)"
    by metis
  obtain W' i where W': "cluster_apply w E W1 = Some (None, W')" "w_fsm W' = s' i"
    "w_sent W' = w_sent W1 @ [w]"
    using E s(1) by (rule calm_cluster_apply)
  have "apply_node n E W = Some (None, W')"
    by (simp add: apply_node_def andthen_def ts(1) w W'(1))
  then show ?thesis by (rule that) (simp_all add: W' s ts)
qed

definition new_instance :: "group_rec \<Rightarrow> template \<Rightarrow> node gomap \<Rightarrow> server \<Rightarrow> bool" where
  "new_instance g tpl N v \<longleftrightarrow> sv_state v = ServerStarting \<and> sp_group_id (sv_spec v) = g_id g
     \<and> sp_template_id (sv_spec v) = t_id tpl \<and> sp_image (sv_spec v) = t_image tpl
     \<and> sp_ha_required (sv_spec v) = g_ha_required g
     \<and> (\<exists>t. best_host N (sv_spec v) [] t \<and> sv_node_id v = n_id t)"

lemma eligible_memory:
  "sp_memory_mb a = sp_memory_mb b \<Longrightarrow> eligible a x n = eligible b x n"
  by (simp add: eligible_def)

lemma calm_new_id:
  assumes "calm E"
  obtains i k where "new_id p E W = Some (i, W\<lparr>w_step := k\<rparr>)"
  using assms by (simp add: new_id_def rand_read_def andthen_def calm_simps ret_def)

lemma calm_short_id:
  assumes "calm E"
  obtains i k where "short_id E W = Some (i, W\<lparr>w_step := k\<rparr>)"
  using assms by (simp add: short_id_def rand_read_def andthen_def calm_simps ret_def)

lemma spawned_simps [simp]:
  "sp_id (spawned g tpl i sfx) = i" "sp_group_id (spawned g tpl i sfx) = g_id g"
  "sp_template_id (spawned g tpl i sfx) = t_id tpl" "sp_image (spawned g tpl i sfx) = t_image tpl"
  "sp_memory_mb (spawned g tpl i sfx) = 2048" "sp_ha_required (spawned g tpl i sfx) = g_ha_required g"
  "server_valid (server_zero\<lparr>sv_spec := spawned g tpl i sfx\<rparr>)"
  by (simp_all add: spawned_def server_valid_def server_spec_valid_def zero_defs)

lemma calm_spawn:
  assumes E: "calm E" and ok: "fsm_ok (w_fsm W)"
    and tpl: "mget (f_templates (w_fsm W)) (g_template_id g) = Some tpl"
    and host: "\<exists>k n. mget (f_nodes (w_fsm W)) k = Some n
      \<and> eligible (server_spec_zero\<lparr>sp_memory_mb := 2048\<rparr>) [] n"
  shows "\<exists>W' v ts w. spawn_group_instance g E W = Some (None, W') \<and> fsm_ok (w_fsm W')
    \<and> new_instance g tpl (f_nodes (w_fsm W)) v
    \<and> f_nodes (w_fsm W') = f_nodes (w_fsm W) \<and> f_templates (w_fsm W') = f_templates (w_fsm W)
    \<and> mget (f_servers (w_fsm W')) = (mget (f_servers (w_fsm W)))(sp_id (sv_spec v) \<mapsto> v)
    \<and> w_sent W' = w_sent W @ [w]"
proof -
  obtain i k where i: "new_id ''srv'' E (W\<lparr>w_step := Suc (w_step W)\<rparr>) = Some (i, W\<lparr>w_step := k\<rparr>)"
    using calm_new_id [OF E, of "''srv''" "W\<lparr>w_step := Suc (w_step W)\<rparr>"] by (metis world.update_convs(3) world.surjective world.fold_congs(3))
  obtain sfx k' where sfx: "short_id E (W\<lparr>w_step := k\<rparr>) = Some (sfx, W\<lparr>w_step := k'\<rparr>)"
    using calm_short_id [OF E, of "W\<lparr>w_step := k\<rparr>"] by auto
  let ?spec = "spawned g tpl i sfx" and ?W2 = "W\<lparr>w_step := Suc k'\<rparr>"
  have "\<exists>k n. mget (f_nodes (w_fsm W)) k = Some n \<and> eligible ?spec [] n"
    using host eligible_memory [of "server_spec_zero\<lparr>sp_memory_mb := 2048\<rparr>" ?spec "[]"] by auto
  with pick_from_table [where ord = "e_iter E k'", OF calm_simps(4) [OF E],
      where s = "w_fsm W" and spec = ?spec and x = "[]"]
  obtain t where t: "pick_from (fsm_nodes (e_iter E k') (w_fsm W)) ?spec [] = Inr t"
    "best_host (f_nodes (w_fsm W)) ?spec [] t"
    by (auto split: sum.splits)
  let ?v = "server_zero\<lparr>sv_spec := ?spec, sv_node_id := n_id t, sv_state := ServerStarting\<rparr>"
  have "fsm_ok (w_fsm ?W2)" "server_valid ?v" using ok by simp_all
  from calm_apply_server [OF E this] obtain W' w where
    W': "apply_server ?v E ?W2 = Some (None, W')" "fsm_ok (w_fsm W')"
    "mget (f_servers (w_fsm W')) = (mget (f_servers (w_fsm ?W2)))(sp_id (sv_spec ?v) \<mapsto> ?v)"
    "f_nodes (w_fsm W') = f_nodes (w_fsm ?W2)" "f_templates (w_fsm W') = f_templates (w_fsm ?W2)"
    "w_sent W' = w_sent ?W2 @ [w]"
    by metis
  have "spawn_group_instance g E W = Some (None, W')"
    using W'(1) t(1)
    by (simp add: spawn_group_instance_def andthen_def calm_simps [OF E] fsm_template_def tpl i sfx
        Let_def calm_pick_host [OF E])
  moreover have "new_instance g tpl (f_nodes (w_fsm W)) ?v"
    using t(2) by (auto simp: new_instance_def)
  ultimately show ?thesis using W' by (intro exI [of _ W'] exI [of _ ?v]) simp
qed

lemma calm_spawn_many:
  assumes E: "calm E" and ok: "fsm_ok (w_fsm W)"
    and tpl: "mget (f_templates (w_fsm W)) (g_template_id g) = Some tpl"
    and host: "\<exists>k n. mget (f_nodes (w_fsm W)) k = Some n
      \<and> eligible (server_spec_zero\<lparr>sp_memory_mb := 2048\<rparr>) [] n"
  shows "\<exists>W' ws. for_each (replicate m ()) (\<lambda>_. andthen (spawn_group_instance g) (\<lambda>_. ret ())) E W
      = Some ((), W') \<and> fsm_ok (w_fsm W') \<and> w_sent W' = w_sent W @ ws \<and> length ws = m
    \<and> (\<forall>k v. mget (f_servers (w_fsm W')) k = Some v
        \<longrightarrow> mget (f_servers (w_fsm W)) k = Some v \<or> new_instance g tpl (f_nodes (w_fsm W)) v)"
  using ok tpl host
proof (induction m arbitrary: W)
  case 0
  then show ?case by (simp add: ret_def)
next
  case (Suc m)
  from calm_spawn [OF E Suc.prems] obtain W1 v w where
    W1: "spawn_group_instance g E W = Some (None, W1)" "fsm_ok (w_fsm W1)"
    "new_instance g tpl (f_nodes (w_fsm W)) v" "f_nodes (w_fsm W1) = f_nodes (w_fsm W)"
    "f_templates (w_fsm W1) = f_templates (w_fsm W)"
    "mget (f_servers (w_fsm W1)) = (mget (f_servers (w_fsm W)))(sp_id (sv_spec v) \<mapsto> v)"
    "w_sent W1 = w_sent W @ [w]" by auto
  from Suc.IH [of W1] Suc.prems W1 obtain W' ws where
    "for_each (replicate m ()) (\<lambda>_. andthen (spawn_group_instance g) (\<lambda>_. ret ())) E W1 = Some ((), W')"
    "fsm_ok (w_fsm W')" "w_sent W' = w_sent W1 @ ws" "length ws = m"
    "\<forall>k u. mget (f_servers (w_fsm W')) k = Some u
        \<longrightarrow> mget (f_servers (w_fsm W1)) k = Some u \<or> new_instance g tpl (f_nodes (w_fsm W1)) u"
    by auto
  with W1 show ?case
    unfolding replicate_Suc
      for_each_step [where f = "\<lambda>_. andthen (spawn_group_instance g) (\<lambda>_. ret ())",
        OF andthen_ret [where m = "spawn_group_instance g" and E = E and W = W, OF W1(1)]]
    by (intro exI [of _ W'] exI [of _ "w # ws"]) (auto split: if_splits)
qed

section \<open>Autoscaling never looks at a server's state\<close>

lemma sort_slice_map:
  "(\<And>x y. lt' (h x) (h y) = lt x y) \<Longrightarrow> sort_slice lt' (map h xs) = map h (sort_slice lt xs)"
  by (induction xs) (simp_all add: Let_def takeWhile_map dropWhile_map comp_def)

lemma for_each_map: "for_each (map h xs) f = for_each xs (\<lambda>x. f (h x))"
  by (induction xs) simp_all

lemma group_members_map:
  "group_members (map (\<lambda>v. v\<lparr>sv_state := st v\<rparr>) vs) g = map (\<lambda>v. v\<lparr>sv_state := st v\<rparr>) (group_members vs g)"
  by (simp add: group_members_def filter_map comp_def)

lemma autoscale_states:
  "autoscale (map (\<lambda>v. v\<lparr>sv_state := st v\<rparr>) vs) g = autoscale vs g"
  unfolding autoscale_def group_members_map Let_def length_map
  by (subst sort_slice_map [where lt = "\<lambda>x y. sv_player_count x < sv_player_count y"])
    (simp_all add: take_map for_each_map)

end
