(* ===== verification/SchedulerTheorems.thy ===== *)
theory SchedulerTheorems
  imports SchedulerLaws
begin

text \<open>The properties of daemon/internal/scheduler, with their witnesses.\<close>

section \<open>A small cluster\<close>

definition demo_up :: "string \<Rightarrow> u64 \<Rightarrow> time \<Rightarrow> node" where
  "demo_up i mem seen = node_zero\<lparr>n_id := i, n_state := NodeUp,
     n_resources := resources_zero\<lparr>memory_total_mb := mem\<rparr>, n_last_heartbeat := seen\<rparr>"

definition demo_ha :: server where
  "demo_ha = server_zero\<lparr>sv_spec := server_spec_zero\<lparr>sp_id := ''srv-1'', sp_memory_mb := 2048,
     sp_ha_required := True\<rparr>, sv_node_id := ''a'', sv_state := ServerReady\<rparr>"

definition demo_fsm :: fsm where
  "demo_fsm = new_fsm\<lparr>f_nodes := GoMap [(''a'', demo_up ''a'' 8192 0), (''b'', demo_up ''b'' 4096 0),
       (''c'', demo_up ''c'' 16384 0)],
     f_servers := GoMap [(''srv-1'', demo_ha)],
     f_templates := GoMap [(''tpl'', template_zero\<lparr>t_id := ''tpl'', t_image := ''paper''\<rparr>)]\<rparr>"

definition demo_world :: world where
  "demo_world = boot_world\<lparr>w_fsm := demo_fsm\<rparr>"

lemma demo_up_simps [simp]:
  "n_id (demo_up i m t) = i" "n_state (demo_up i m t) = NodeUp" "n_last_heartbeat (demo_up i m t) = t"
  "free_memory_mb (n_resources (demo_up i m t)) = m"
  "node_valid (demo_up i m t) = time_marshals t"
  by (auto simp: demo_up_def free_memory_mb_def zero_defs node_valid_def)

lemma demo_fsm_ok [simp]: "fsm_ok demo_fsm"
  unfolding fsm_ok_def table_ok_def
  by (simp add: demo_fsm_def new_fsm_def template_valid_def demo_ha_def server_valid_def
      server_spec_valid_def zero_defs split: if_splits)

lemma demo_world_simps [simp]: "w_fsm demo_world = demo_fsm" "w_sent demo_world = []" "w_step demo_world = 0"
  by (simp_all add: demo_world_def boot_world_def)

lemma demo_tables [simp]:
  "mget (f_nodes demo_fsm) ''a'' = Some (demo_up ''a'' 8192 0)"
  "mget (f_nodes demo_fsm) ''b'' = Some (demo_up ''b'' 4096 0)"
  "mget (f_nodes demo_fsm) ''c'' = Some (demo_up ''c'' 16384 0)"
  "mget (f_servers demo_fsm) ''srv-1'' = Some demo_ha"
  "mget (f_templates demo_fsm) ''tpl'' = Some (template_zero\<lparr>t_id := ''tpl'', t_image := ''paper''\<rparr>)"
  by (simp_all add: demo_fsm_def)

lemma demo_ha_simps [simp]:
  "sv_node_id demo_ha = ''a''" "sp_ha_required (sv_spec demo_ha)" "sp_memory_mb (sv_spec demo_ha) = 2048"
  "sp_id (sv_spec demo_ha) = ''srv-1''" "server_valid demo_ha"
  by (simp_all add: demo_ha_def server_valid_def server_spec_valid_def zero_defs)

lemma demo_nodes: "fsm_nodes (\<lambda>ks. ks) demo_fsm
    = [demo_up ''a'' 8192 0, demo_up ''b'' 4096 0, demo_up ''c'' 16384 0]"
  by (simp add: fsm_nodes_def mvalues_def mrange_def mkeys_def demo_fsm_def List.map_filter_simps)

lemma calm_demo [simp]: "calm calm_env"
  by (simp add: calm_def)

section \<open>Placement\<close>

text \<open>C19. Placement is sound, optimal and complete: the host picked is a known node that is up,
  is not the excluded one and has at least the memory asked for, no other such node has
  more free memory, and \<open>ErrNoHost\<close> is returned only when there is no such node.\<close>

theorem placement_best:
  assumes "permutes ord"
  shows "case pick_from (fsm_nodes ord s) spec x of
      Inl e \<Rightarrow> e = ErrNoHost \<and> (\<forall>k n. mget (f_nodes s) k = Some n \<longrightarrow>
        n_state n \<noteq> NodeUp \<or> n_id n = x \<or> free_memory_mb (n_resources n) < sp_memory_mb spec)
    | Inr t \<Rightarrow> (\<exists>k. mget (f_nodes s) k = Some t) \<and> n_state t = NodeUp \<and> n_id t \<noteq> x
        \<and> sp_memory_mb spec \<le> free_memory_mb (n_resources t)
        \<and> (\<forall>k n. mget (f_nodes s) k = Some n \<longrightarrow> n_state n = NodeUp \<longrightarrow> n_id n \<noteq> x
             \<longrightarrow> free_memory_mb (n_resources n) \<le> free_memory_mb (n_resources t))"
proof (cases "pick_from (fsm_nodes ord s) spec x")
  case (Inl e)
  with pick_from_table [OF assms, of s spec x] show ?thesis
    by (auto simp: eligible_def not_le)
next
  case (Inr t)
  with pick_from_table [OF assms, of s spec x] have "best_host (f_nodes s) spec x t" by simp
  then have b: "\<exists>k. mget (f_nodes s) k = Some t" "eligible spec x t"
    "\<And>k m. mget (f_nodes s) k = Some m \<Longrightarrow> eligible spec x m
      \<Longrightarrow> free_memory_mb (n_resources m) \<le> free_memory_mb (n_resources t)"
    by (auto simp: best_host_def)
  have "free_memory_mb (n_resources n) \<le> free_memory_mb (n_resources t)"
    if "mget (f_nodes s) k = Some n" "n_state n = NodeUp" "n_id n \<noteq> x" for k n
    using b(2) b(3) [OF that(1)] that by (cases "eligible spec x n") (auto simp: eligible_def)
  with Inr b(1,2) show ?thesis by (simp add: eligible_def)
qed

theorem placement_best_witness:
  "\<exists>t. pick_from (fsm_nodes rev demo_fsm) (sv_spec demo_ha) ''c'' = Inr t \<and> n_id t = ''a''"
proof -
  note p = placement_best [OF permutes_rev, where s = demo_fsm and spec = "sv_spec demo_ha" and x = "''c''"]
  have all: "mget (f_nodes demo_fsm) k = Some n \<Longrightarrow>
      n = demo_up ''a'' 8192 0 \<or> n = demo_up ''b'' 4096 0 \<or> n = demo_up ''c'' 16384 0" for k n
    by (auto simp: demo_fsm_def split: if_splits)
  show ?thesis
  proof (cases "pick_from (fsm_nodes rev demo_fsm) (sv_spec demo_ha) ''c''")
    case (Inl e)
    with p have "\<forall>k n. mget (f_nodes demo_fsm) k = Some n \<longrightarrow> n_state n \<noteq> NodeUp \<or> n_id n = ''c''
        \<or> free_memory_mb (n_resources n) < sp_memory_mb (sv_spec demo_ha)" by simp
    from this [rule_format, OF demo_tables(1)] show ?thesis by simp
  next
    case (Inr t)
    with p have "\<exists>k. mget (f_nodes demo_fsm) k = Some t" "n_id t \<noteq> ''c''"
      "\<forall>k n. mget (f_nodes demo_fsm) k = Some n \<longrightarrow> n_state n = NodeUp \<longrightarrow> n_id n \<noteq> ''c''
        \<longrightarrow> free_memory_mb (n_resources n) \<le> free_memory_mb (n_resources t)" by simp_all
    from this(1,2) this(3) [rule_format, OF demo_tables(1)] have "n_id t = ''a''" by (auto dest!: all)
    with Inr show ?thesis by simp
  qed
qed

section \<open>The tick\<close>

text \<open>C20. The scheduler's tick, in every environment (any clock, raft failures, entries of other
  proposers between any two of its steps): it always returns, the state machine keeps its
  invariant, and all it proposes are writes of a node as down or suspect, of a server as
  orphaned on the dead node or starting on another, of a server stopping, or of one
  starting; it never removes anything and never declares a server ready.\<close>

theorem tick_total:
  assumes "env_ok E" and "fsm_ok (w_fsm W)" and "w_sent W = []"
  shows "\<exists>W'. tick opts E W = Some ((), W') \<and> fsm_ok (w_fsm W') \<and> list_all sched_entry (w_sent W')"
  using does_tick [OF assms(1), of sched_entry opts] assms(2,3)
  by (auto simp: does_def world_ok_def list_all_iff)

theorem tick_total_witness:
  "\<exists>W'. tick (sched_new \<lparr>so_deadline = 0, so_grace = 0\<rparr>) calm_env demo_world = Some ((), W')
     \<and> fsm_ok (w_fsm W') \<and> list_all sched_entry (w_sent W')"
  by (rule tick_total) simp_all

text \<open>Only the leader schedules: at a beat where this daemon does not lead, nothing is
  proposed.\<close>

theorem follower_beat_idle:
  assumes "env_ok E" and "fsm_ok (w_fsm W)" and "\<not> e_leads E (w_step W)"
  shows "\<exists>W'. sched_beat opts E W = Some ((), W') \<and> w_sent W' = w_sent W"
  using assms(1,2)
  by (rule sync_returns) (simp add: sched_beat_def is_leader_def andthen_def ret_def assms(3))

theorem follower_beat_idle_witness:
  "\<exists>W'. sched_beat \<lparr>so_deadline = 5, so_grace = 5\<rparr> follower_env demo_world = Some ((), W')
     \<and> w_sent W' = w_sent demo_world"
  by (rule follower_beat_idle) (simp_all add: follower_env_def env_ok_def)

text \<open>C22. Liveness verdicts, with the defaults the daemon runs with (1 s deadline, 2 s grace) and
  a calm environment: a node not yet down is marked down once its last heartbeat is more
  than 3 s old, else suspect once it is more than 1 s old, and is left alone otherwise.\<close>

theorem liveness_verdict:
  assumes "calm E" and "fsm_ok (w_fsm W)" and "mget (f_nodes (w_fsm W)) k = Some n"
    and "n_state n \<noteq> NodeDown" and "opts = sched_new \<lparr>so_deadline = 0, so_grace = 0\<rparr>"
  shows "\<exists>W'. check_node opts now n E W = Some ((), W') \<and> fsm_ok (w_fsm W')
    \<and> mget (f_nodes (w_fsm W')) = (mget (f_nodes (w_fsm W)))
        (k \<mapsto> (if now - n_last_heartbeat n > 3 * second then n\<lparr>n_state := NodeDown\<rparr>
              else if now - n_last_heartbeat n > second then n\<lparr>n_state := NodeSuspect\<rparr> else n))"
proof -
  from node_table.get_ok [OF assms(2,3)] have n: "n_id n = k" "node_valid n" by auto
  have o: "so_deadline opts = second" "wrap64 (so_deadline opts + so_grace opts) = 3 * second"
    by (simp_all add: assms(5) sched_new_def wrap64_id int64_ok_def second_def millisecond_def)
  have age: "time_sub now (n_last_heartbeat n) > c \<longleftrightarrow> now - n_last_heartbeat n > c"
    if "0 \<le> c" "c \<le> 3 * second" for c
    using that by (intro time_sub_greater) (simp_all add: max_duration_def min_duration_def second_def)
  note ages = age [of second, OF _ order.strict_implies_order] age [of "3 * second"]
  have pos: "0 \<le> second" "second < 3 * second" by (simp_all add: second_def)
  consider (down) "now - n_last_heartbeat n > 3 * second"
    | (suspect) "\<not> now - n_last_heartbeat n > 3 * second" "now - n_last_heartbeat n > second" "n_state n \<noteq> NodeSuspect"
    | (already) "\<not> now - n_last_heartbeat n > 3 * second" "now - n_last_heartbeat n > second" "n_state n = NodeSuspect"
    | (fine) "\<not> now - n_last_heartbeat n > 3 * second" "\<not> now - n_last_heartbeat n > second"
    by blast
  then show ?thesis
  proof cases
    case down
    let ?W1 = "W\<lparr>w_step := Suc (w_step W)\<rparr>"
    have "fsm_ok (w_fsm ?W1)" "node_valid (n\<lparr>n_state := NodeDown\<rparr>)" using assms(2) n by simp_all
    from calm_apply_node [OF assms(1) this] obtain W2 where
      W2: "apply_node (n\<lparr>n_state := NodeDown\<rparr>) E ?W1 = Some (None, W2)" "fsm_ok (w_fsm W2)"
      "mget (f_nodes (w_fsm W2)) = (mget (f_nodes (w_fsm W)))(k \<mapsto> n\<lparr>n_state := NodeDown\<rparr>)"
      using n by auto
    have m: "mark_node_down k E W = Some ((), W2)"
      by (simp add: mark_node_down_def andthen_def calm_simps [OF assms(1)] fsm_node_def assms(3) W2(1) ret_def)
    obtain W' where "evacuate k E W2 = Some ((), W')" "fsm_ok (w_fsm W')" "f_nodes (w_fsm W') = f_nodes (w_fsm W2)"
      using calm_evacuate [OF assms(1) W2(2), of k] by blast
    with m W2(3) down assms(4) ages pos o n show ?thesis
      by (intro exI [of _ W']) (simp add: check_node_def Let_def andthen_def)
  next
    case suspect
    have "node_valid (n\<lparr>n_state := NodeSuspect\<rparr>)" using n by simp
    from calm_apply_node [OF assms(1,2) this] obtain W' where
      "apply_node (n\<lparr>n_state := NodeSuspect\<rparr>) E W = Some (None, W')" "fsm_ok (w_fsm W')"
      "mget (f_nodes (w_fsm W')) = (mget (f_nodes (w_fsm W)))(k \<mapsto> n\<lparr>n_state := NodeSuspect\<rparr>)"
      using n by auto
    with suspect assms(4) ages pos o n show ?thesis
      by (intro exI [of _ W']) (simp add: check_node_def Let_def andthen_def ret_def)
  next
    case already
    then have "n\<lparr>n_state := NodeSuspect\<rparr> = n" by simp
    with already assms(2-4) ages pos o n show ?thesis
      by (intro exI [of _ W]) (simp add: check_node_def Let_def ret_def fun_upd_idem)
  next
    case fine
    with assms(2-4) ages pos o n show ?thesis
      by (intro exI [of _ W]) (simp add: check_node_def Let_def ret_def fun_upd_idem)
  qed
qed

theorem liveness_verdict_witness:
  "\<exists>W'. check_node (sched_new \<lparr>so_deadline = 0, so_grace = 0\<rparr>) (2 * second) (demo_up ''b'' 4096 0)
      calm_env demo_world = Some ((), W')
    \<and> mget (f_nodes (w_fsm W')) ''b'' = Some ((demo_up ''b'' 4096 0)\<lparr>n_state := NodeSuspect\<rparr>)"
proof -
  from liveness_verdict [OF calm_demo, of demo_world "''b''" "demo_up ''b'' 4096 0"
      "sched_new \<lparr>so_deadline = 0, so_grace = 0\<rparr>" "2 * second"]
  show ?thesis by (auto simp: second_def)
qed

section \<open>Failover\<close>

text \<open>C21. Failover of a dead node, in a calm environment: of its servers, one that need not be
  highly available is marked orphaned in place; one that must be is moved to the best host
  (up, not the dead node, enough memory, most free memory) as starting and without its old
  container, or left as it is when there is no such host; no other server changes.\<close>

theorem failover_correct:
  assumes "calm E" and "fsm_ok (w_fsm W)"
  shows "\<exists>W'. evacuate dead E W = Some ((), W') \<and> fsm_ok (w_fsm W')
    \<and> (\<forall>k. case mget (f_servers (w_fsm W)) k of
          None \<Rightarrow> mget (f_servers (w_fsm W')) k = None
        | Some v \<Rightarrow> if sv_node_id v = dead
            then \<exists>v'. mget (f_servers (w_fsm W')) k = Some v' \<and> evacuated (f_nodes (w_fsm W)) dead v v'
            else mget (f_servers (w_fsm W')) k = Some v)"
  using calm_evacuate [OF assms, of dead] by blast

theorem failover_correct_witness:
  "\<exists>W'. evacuate ''a'' calm_env demo_world = Some ((), W')
     \<and> map_option sv_node_id (mget (f_servers (w_fsm W')) ''srv-1'') = Some ''c''"
proof -
  from failover_correct [OF calm_demo, of demo_world "''a''"] obtain W' where
    W': "evacuate ''a'' calm_env demo_world = Some ((), W')" and
    "\<forall>k. case mget (f_servers demo_fsm) k of None \<Rightarrow> mget (f_servers (w_fsm W')) k = None
        | Some v \<Rightarrow> if sv_node_id v = ''a''
            then \<exists>v'. mget (f_servers (w_fsm W')) k = Some v' \<and> evacuated (f_nodes demo_fsm) ''a'' v v'
            else mget (f_servers (w_fsm W')) k = Some v"
    unfolding demo_world_simps by (meson demo_fsm_ok)
  from this(2) [rule_format, of "''srv-1''"]
  obtain v' where v': "mget (f_servers (w_fsm W')) ''srv-1'' = Some v'"
    "evacuated (f_nodes demo_fsm) ''a'' demo_ha v'" by auto
  have c: "eligible (sv_spec demo_ha) ''a'' (demo_up ''c'' 16384 0)" by (simp add: eligible_def)
  then have "\<exists>k n. mget (f_nodes demo_fsm) k = Some n \<and> eligible (sv_spec demo_ha) ''a'' n"
    using demo_tables(3) by blast
  with v'(2) obtain t where t: "best_host (f_nodes demo_fsm) (sv_spec demo_ha) ''a'' t" "sv_node_id v' = n_id t"
    unfolding evacuated_def by auto
  then have "free_memory_mb (n_resources (demo_up ''c'' 16384 0)) \<le> free_memory_mb (n_resources t)"
    using c demo_tables(3) unfolding best_host_def by blast
  moreover from t(1) obtain k where "mget (f_nodes demo_fsm) k = Some t" unfolding best_host_def by blast
  then have "t = demo_up ''a'' 8192 0 \<or> t = demo_up ''b'' 4096 0 \<or> t = demo_up ''c'' 16384 0"
    by (auto simp: demo_fsm_def split: if_splits)
  ultimately have "n_id t = ''c''" by auto
  with W' v'(1) t(2) show ?thesis by simp
qed

section \<open>Autoscaling\<close>


definition demo_group :: group_rec where
  "demo_group = group_zero\<lparr>g_id := ''lobby'', g_name := ''lobby'', g_template_id := ''tpl'', g_min_instances := 2\<rparr>"


text \<open>The servers a group over its maximum stops.\<close>

definition doomed :: "server list \<Rightarrow> group_rec \<Rightarrow> server list" where
  "doomed vs g = take (nat (int (length (group_members vs g)) - g_max_instances g))
     (sort_slice (\<lambda>x y. sv_player_count x < sv_player_count y) (group_members vs g))"

lemma calm_stop_list:
  assumes E: "calm E" and ok: "fsm_ok (w_fsm W)"
    and "distinct (map (\<lambda>v. sp_id (sv_spec v)) vs)"
    and "\<forall>v\<in>set vs. mget (f_servers (w_fsm W)) (sp_id (sv_spec v)) = Some v"
  shows "\<exists>W'. for_each vs (\<lambda>v. andthen (stop_server (sp_id (sv_spec v))) (\<lambda>_. ret ())) E W = Some ((), W')
    \<and> fsm_ok (w_fsm W')
    \<and> (\<forall>k. mget (f_servers (w_fsm W')) k =
         (if k \<in> (\<lambda>v. sp_id (sv_spec v)) ` set vs
          then map_option (\<lambda>v. v\<lparr>sv_state := ServerStopping\<rparr>) (mget (f_servers (w_fsm W)) k)
          else mget (f_servers (w_fsm W)) k))"
  using ok assms(3,4)
proof (induction vs arbitrary: W)
  case Nil
  then show ?case by (simp add: ret_def)
next
  case (Cons v vs)
  let ?id = "\<lambda>v. sp_id (sv_spec v)" and ?W1 = "W\<lparr>w_step := Suc (w_step W)\<rparr>"
  from Cons.prems have v: "mget (f_servers (w_fsm W)) (?id v) = Some v" by simp
  with server_table.get_ok [OF Cons.prems(1)] have valid: "server_valid (v\<lparr>sv_state := ServerStopping\<rparr>)"
    by auto
  have "fsm_ok (w_fsm ?W1)" using Cons.prems(1) by simp
  from calm_apply_server [OF E this valid] obtain W2 where
    W2: "apply_server (v\<lparr>sv_state := ServerStopping\<rparr>) E ?W1 = Some (None, W2)" "fsm_ok (w_fsm W2)"
    "mget (f_servers (w_fsm W2)) = (mget (f_servers (w_fsm ?W1)))
      (sp_id (sv_spec (v\<lparr>sv_state := ServerStopping\<rparr>)) \<mapsto> v\<lparr>sv_state := ServerStopping\<rparr>)"
    by blast
  have stop: "stop_server (?id v) E W = Some (None, W2)"
    by (simp add: stop_server_def andthen_def calm_simps [OF E] fsm_server_def v W2(1))
  have fresh: "\<forall>u\<in>set vs. ?id u \<noteq> ?id v" using Cons.prems(2) by (auto simp: image_iff)
  have "\<forall>u\<in>set vs. mget (f_servers (w_fsm W2)) (?id u) = Some u"
    using Cons.prems(3) fresh W2(3) by simp
  with Cons.IH [OF W2(2)] Cons.prems(2) obtain W' where
    W': "for_each vs (\<lambda>v. andthen (stop_server (?id v)) (\<lambda>_. ret ())) E W2 = Some ((), W')"
    "fsm_ok (w_fsm W')"
    "\<forall>k. mget (f_servers (w_fsm W')) k =
         (if k \<in> ?id ` set vs
          then map_option (\<lambda>v. v\<lparr>sv_state := ServerStopping\<rparr>) (mget (f_servers (w_fsm W2)) k)
          else mget (f_servers (w_fsm W2)) k)"
    by auto
  have "for_each (v # vs) (\<lambda>v. andthen (stop_server (?id v)) (\<lambda>_. ret ())) E W = Some ((), W')"
    using W'(1) by (subst for_each_step [where f = "\<lambda>v. andthen (stop_server (?id v)) (\<lambda>_. ret ())",
        OF andthen_ret [where m = "stop_server (?id v)" and E = E and W = W, OF stop]])
  with W'(2,3) W2(3) v fresh show ?case
    by (intro exI [of _ W']) auto
qed

text \<open>Scaling down, in a calm environment: a group over a positive maximum gets exactly the
  surplus number of its members stopped, those with the fewest players (no stopped one has
  more players than one that is kept); every other server stays as it is.\<close>

theorem scale_down_exact:
  assumes "calm E" and "fsm_ok (w_fsm W)" and "permutes ord" and "vs = fsm_servers ord (w_fsm W)"
    and "0 < g_max_instances g" and "g_min_instances g \<le> int (length (group_members vs g))"
    and "g_max_instances g < int (length (group_members vs g))"
  shows "\<exists>W' D. autoscale vs g E W = Some ((), W') \<and> fsm_ok (w_fsm W')
    \<and> set D \<subseteq> set (group_members vs g) \<and> distinct D
    \<and> int (length D) = int (length (group_members vs g)) - g_max_instances g
    \<and> (\<forall>v\<in>set D. \<forall>u\<in>set (group_members vs g) - set D. sv_player_count v \<le> sv_player_count u)
    \<and> (\<forall>k. mget (f_servers (w_fsm W')) k =
         (if k \<in> (\<lambda>v. sp_id (sv_spec v)) ` set D
          then map_option (\<lambda>v. v\<lparr>sv_state := ServerStopping\<rparr>) (mget (f_servers (w_fsm W)) k)
          else mget (f_servers (w_fsm W)) k))"
proof -
  let ?lt = "\<lambda>x y. sv_player_count x < sv_player_count y" and ?id = "\<lambda>v. sp_id (sv_spec v)"
  let ?M = "group_members vs g"
  let ?S = "sort_slice ?lt ?M" and ?n = "nat (int (length ?M) - g_max_instances g)"
  have vs: "\<forall>v\<in>set vs. mget (f_servers (w_fsm W)) (?id v) = Some v"
    using fsm_values_valid(2) [OF assms(2,3)] assms(4) by blast
  have dv: "distinct (map ?id vs)"
    unfolding assms(4) by (rule distinct_all_server_ids [OF assms(2,3)])
  then have dm: "distinct (map ?id ?M)" unfolding group_members_def by (rule distinct_map_filter)
  then have ds: "distinct (map ?id ?S)"
    by (metis mset_eq_imp_distinct_iff mset_map mset_sort_slice)
  have D: "doomed vs g = take ?n ?S" by (simp add: doomed_def)
  have dd: "distinct (map ?id (doomed vs g))" unfolding D take_map [symmetric] using ds by (rule distinct_take)
  have sub: "set (doomed vs g) \<subseteq> set ?M"
    unfolding D by (metis set_sort_slice set_take_subset)
  have len: "int (length (doomed vs g)) = int (length ?M) - g_max_instances g"
    unfolding D using assms(5,7) by simp
  have sorted: "sorted_wrt (\<lambda>x y. \<not> ?lt y x) (take ?n ?S @ drop ?n ?S)"
    unfolding append_take_drop_id by (rule sorted_wrt_sort_slice) (rule strict_weak_key(1))
  have few: "sv_player_count v \<le> sv_player_count u"
    if "v \<in> set (doomed vs g)" "u \<in> set ?M - set (doomed vs g)" for v u
  proof -
    have "u \<in> set (take ?n ?S) \<union> set (drop ?n ?S)"
      using that(2) unfolding set_append [symmetric] append_take_drop_id by simp
    with that(2) have "u \<in> set (drop ?n ?S)" unfolding D by blast
    with sorted that(1) show ?thesis unfolding sorted_wrt_append D by (auto simp: not_less)
  qed
  have "\<forall>v\<in>set (doomed vs g). mget (f_servers (w_fsm W)) (?id v) = Some v"
    using sub vs by (auto simp: group_members_def)
  from calm_stop_list [OF assms(1,2) dd this] obtain W' where
    W': "for_each (doomed vs g) (\<lambda>v. andthen (stop_server (?id v)) (\<lambda>_. ret ())) E W = Some ((), W')"
    "fsm_ok (w_fsm W')"
    "\<forall>k. mget (f_servers (w_fsm W')) k =
         (if k \<in> ?id ` set (doomed vs g)
          then map_option (\<lambda>v. v\<lparr>sv_state := ServerStopping\<rparr>) (mget (f_servers (w_fsm W)) k)
          else mget (f_servers (w_fsm W)) k)"
    by blast
  have "autoscale vs g E W = Some ((), W')"
    using assms(5-7) W'(1) by (simp add: autoscale_def Let_def doomed_def)
  with W' sub len few dd show ?thesis
    by (intro exI [of _ W'] exI [of _ "doomed vs g"]) (simp add: distinct_map)
qed

theorem scale_down_exact_witness:
  "\<exists>W'. autoscale [demo_ha\<lparr>sv_spec := server_spec_zero\<lparr>sp_id := ''s'', sp_group_id := ''g''\<rparr>\<rparr>,
        demo_ha\<lparr>sv_spec := server_spec_zero\<lparr>sp_id := ''t'', sp_group_id := ''g''\<rparr>\<rparr>]
      (group_zero\<lparr>g_id := ''g'', g_max_instances := 1\<rparr>) calm_env
      (boot_world\<lparr>w_fsm := new_fsm\<lparr>f_servers := GoMap
        [(''s'', demo_ha\<lparr>sv_spec := server_spec_zero\<lparr>sp_id := ''s'', sp_group_id := ''g''\<rparr>\<rparr>),
         (''t'', demo_ha\<lparr>sv_spec := server_spec_zero\<lparr>sp_id := ''t'', sp_group_id := ''g''\<rparr>\<rparr>)]\<rparr>\<rparr>)
     = Some ((), W')"
proof -
  let ?a = "demo_ha\<lparr>sv_spec := server_spec_zero\<lparr>sp_id := ''s'', sp_group_id := ''g''\<rparr>\<rparr>"
  let ?b = "demo_ha\<lparr>sv_spec := server_spec_zero\<lparr>sp_id := ''t'', sp_group_id := ''g''\<rparr>\<rparr>"
  let ?W = "boot_world\<lparr>w_fsm := new_fsm\<lparr>f_servers := GoMap [(''s'', ?a), (''t'', ?b)]\<rparr>\<rparr>"
  have ok: "fsm_ok (w_fsm ?W)"
    unfolding fsm_ok_def table_ok_def
    by (simp add: new_fsm_def demo_ha_def server_valid_def server_spec_valid_def zero_defs split: if_splits)
  have vs: "[?a, ?b] = fsm_servers (\<lambda>ks. ks) (w_fsm ?W)"
    by (simp add: fsm_servers_def mvalues_def mrange_def mkeys_def List.map_filter_simps)
  have len: "length (group_members [?a, ?b] (group_zero\<lparr>g_id := ''g'', g_max_instances := 1\<rparr>)) = 2"
    by (simp add: group_members_def)
  from scale_down_exact [OF calm_demo ok permutes_id vs,
      of "group_zero\<lparr>g_id := ''g'', g_max_instances := 1\<rparr>"] len
  show ?thesis by (auto simp: group_zero_def)
qed

text \<open>Autoscaling counts and ranks servers without looking at their state: rewriting the
  states of the servers read, in any way, changes nothing of what it does. So a crashed,
  stopping or orphaned instance counts as a live one.\<close>

theorem autoscale_blind_to_state:
  "autoscale (map (\<lambda>v. v\<lparr>sv_state := st v\<rparr>) vs) g E W = autoscale vs g E W"
  by (simp add: autoscale_states)

section \<open>Concurrent writers\<close>

text \<open>The scheduler's server writes are blind: when the write of a record it read earlier
  returns nil, the table holds exactly that record, whatever entries of other proposers
  were committed since the read (their changes to this server are lost).\<close>

theorem server_write_is_blind:
  assumes "env_ok E" and "raft_honest E" and "fsm_ok (w_fsm W)" and "server_valid v"
    and "apply_server v E W = Some (None, W')"
  shows "mget (f_servers (w_fsm W')) (sp_id (sv_spec v)) = Some v"
proof -
  obtain ts W1 where ts: "now_unix_nano E W = Some (ts, W1)" "world_ok (\<lambda>_. True) W1" "int64_ok ts"
    using does_unix_nano [OF assms(1), of "\<lambda>_. True"] assms(3) by (auto simp: does_def world_ok_def)
  obtain w where w: "encode CmdServerUpsert (enc_server v) [] ts = Inr w"
    "data_or_nil (encode CmdServerUpsert (enc_server v) [] ts) = w" "wire_ok w"
    using assms(4) by (rule encode_server)
  have "cluster_apply w E W1 = Some (None, W')"
    using assms(5) by (simp add: apply_server_def andthen_def ts(1) w(2))
  from cluster_apply_nil [OF assms(1,2) _ this] ts(2) obtain V :: world and e where
    V: "fsm_ok (w_fsm V)" "fsm_apply (word_of_nat (Suc (w_index V))) w (w_fsm V) = Some (e, w_fsm W')"
    by (auto simp: world_ok_def)
  from server_table.apply_up [OF V(1) ts(3) assms(4) w(1), of "word_of_nat (Suc (w_index V))"] V(2)
  show ?thesis by simp
qed

text \<open>Between the read and the write another proposer set the player count to 7: it is lost.\<close>

theorem server_write_is_blind_witness:
  "\<exists>W'. apply_server demo_ha calm_env (demo_world\<lparr>w_fsm := demo_fsm\<lparr>f_servers :=
        GoMap [(''srv-1'', demo_ha\<lparr>sv_player_count := 7\<rparr>)]\<rparr>\<rparr>) = Some (None, W')
     \<and> mget (f_servers (w_fsm W')) ''srv-1'' = Some demo_ha"
proof -
  let ?s = "demo_fsm\<lparr>f_servers := GoMap [(''srv-1'', demo_ha\<lparr>sv_player_count := 7\<rparr>)]\<rparr>"
  let ?W = "demo_world\<lparr>w_fsm := ?s\<rparr>"
  have v: "server_valid (demo_ha\<lparr>sv_player_count := 7\<rparr>)"
    by (simp add: demo_ha_def server_valid_def server_spec_valid_def zero_defs)
  have "fsm_ok ?s"
    using demo_fsm_ok v unfolding fsm_ok_def table_ok_def by simp
  then have ok: "fsm_ok (w_fsm ?W)" by simp
  from calm_apply_server [OF calm_demo ok demo_ha_simps(5)] obtain W' where
    W': "apply_server demo_ha calm_env ?W = Some (None, W')" by blast
  from server_write_is_blind [OF calm_env_ok ok demo_ha_simps(5) W'] W' show ?thesis by simp
qed

end
