(* ===== verification/Tasks.thy ===== *)
theory Tasks
  imports SchedulerTheorems
begin

text \<open>
  daemon/internal/tasks: the service that creates and deletes groups and templates
  (groups.go), and the publisher of sign states over Redis (sign_api.go). Redis is the
  answer it gives to a publish. Error texts are the code's.
\<close>

section \<open>Groups and templates\<close>

definition create_group :: "group_rec \<Rightarrow> err op" where
  "create_group g0 =
     (let g = (if g_id g0 = [] then g0\<lparr>g_id := ''grp_'' @ g_name g0\<rparr> else g0) in
      if g_min_instances g < 0 \<or> g_max_instances g < 0 then
        ret (Some (Errorf ''min/max instances must be non-negative''))
      else if g_max_instances g \<noteq> 0 \<and> g_max_instances g < g_min_instances g then
        ret (Some (Errorf (''max ('' @ itoa (g_max_instances g) @ '') must be >= min (''
          @ itoa (g_min_instances g) @ '')'')))
      else andthen (read_fsm (\<lambda>_. fsm_template (g_template_id g))) (\<lambda>r.
        case r of
          None \<Rightarrow> ret (Some (Errorf (''template '' @ go_quote (g_template_id g) @ '' not found'')))
        | Some _ \<Rightarrow> andthen now_unix_nano (\<lambda>ts.
            case encode CmdGroupUpsert (enc_group g) [] ts of
              Inl e \<Rightarrow> ret (Some e)
            | Inr w \<Rightarrow> cluster_apply w)))"

definition delete_group :: "string \<Rightarrow> err op" where
  "delete_group i =
     andthen (read_fsm fsm_servers) (\<lambda>servers.
     andthen (for_each servers (\<lambda>v.
       if sp_group_id (sv_spec v) = i then
         andthen (apply_server (v\<lparr>sv_state := ServerStopping\<rparr>)) (\<lambda>_. ret ())
       else ret ())) (\<lambda>_.
     andthen now_unix_nano (\<lambda>ts.
       cluster_apply (data_or_nil (encode CmdGroupRemove (enc_id i) [] ts)))))"

definition create_template :: "template \<Rightarrow> err op" where
  "create_template t0 =
     (let t = (if t_id t0 = [] then t0\<lparr>t_id := ''tpl_'' @ t_name t0\<rparr> else t0) in
      if t_mode t \<noteq> ''static'' \<and> t_mode t \<noteq> ''dynamic'' then
        ret (Some (Errorf (''template mode must be static|dynamic, got '' @ go_quote (t_mode t))))
      else andthen now_unix_nano (\<lambda>ts.
        case encode CmdTemplateUpsert (enc_template t) [] ts of
          Inl e \<Rightarrow> ret (Some e)
        | Inr w \<Rightarrow> cluster_apply w))"

text \<open>The loop over the groups returns at the first that refers to the template.\<close>

definition delete_template :: "string \<Rightarrow> err op" where
  "delete_template i =
     andthen (read_fsm fsm_groups) (\<lambda>groups.
       case find (\<lambda>g. g_template_id g = i) groups of
         Some g \<Rightarrow> ret (Some (Errorf (''template '' @ go_quote i @ '' is in use by group '' @ go_quote (g_id g))))
       | None \<Rightarrow> andthen now_unix_nano (\<lambda>ts.
           cluster_apply (data_or_nil (encode CmdTemplateRemove (enc_id i) [] ts))))"

section \<open>Sign states\<close>

record sign_state =
  ss_server_id :: string
  ss_group_id :: string
  ss_sign_state :: string
  ss_player_count :: u32
  ss_max_players :: u32
  ss_motd :: string

definition enc_sign_state :: "sign_state \<Rightarrow> json result" where
  "enc_sign_state r = enc_struct
     [(''server_id'', Inr (JStr (ss_server_id r))), (''group_id'', Inr (JStr (ss_group_id r))),
      (''state'', Inr (JStr (ss_sign_state r))), (''player_count'', Inr (enc_uint (ss_player_count r))),
      (''max_players'', Inr (enc_uint (ss_max_players r))), (''motd'', Inr (JStr (ss_motd r)))]"

text \<open>The states last published, by server, and the messages handed to Redis so far.\<close>

record sign_api =
  sa_last :: "sign_state gomap"
  sa_sent :: "json list"

definition new_sign_api :: sign_api where
  "new_sign_api = \<lparr>sa_last = mempty, sa_sent = []\<rparr>"

text \<open>\<open>redis\<close> is the error of this call's publish; \<open>None\<close> as a whole is a panic.\<close>

definition sign_publish :: "err \<Rightarrow> sign_state \<Rightarrow> sign_api \<Rightarrow> (err \<times> sign_api) option" where
  "sign_publish redis st a =
     (let prev = mget (sa_last a) (ss_server_id st) in
      case mput (ss_server_id st) st (sa_last a) of
        None \<Rightarrow> None
      | Some m \<Rightarrow>
          (let a' = a\<lparr>sa_last := m\<rparr> in
           if prev = Some st then Some (None, a')
           else (case enc_sign_state st of
                   Inl e \<Rightarrow> Some (Some e, a')
                 | Inr j \<Rightarrow> Some (redis, a'\<lparr>sa_sent := sa_sent a @ [j]\<rparr>))))"

definition sign_snapshot :: "order \<Rightarrow> sign_api \<Rightarrow> sign_state list" where
  "sign_snapshot ord a = mvalues ord (sa_last a)"

section \<open>Writes in a calm environment\<close>

lemma calm_unix_nano:
  assumes "calm E"
  obtains ts where "now_unix_nano E W = Some (ts, W\<lparr>w_step := Suc (w_step W)\<rparr>)" "int64_ok ts"
  using assms by (simp add: now_unix_nano_def andthen_def calm_simps ret_def unix_nano_def wrap64_range)

lemma calm_apply_entry:
  assumes E: "calm E" and s: "\<And>i. \<exists>s'. fsm_apply i w (w_fsm W) = Some (None, s') \<and> Q s'"
  obtains W' where "cluster_apply w E W = Some (None, W')" "Q (w_fsm W')"
proof -
  from s obtain f where f: "\<And>i. fsm_apply i w (w_fsm W) = Some (None, f i)" "\<And>i. Q (f i)" by metis
  obtain W' i where "cluster_apply w E W = Some (None, W')" "w_fsm W' = f i"
    using E f(1) by (rule calm_cluster_apply)
  with f(2) that show ?thesis by auto
qed

text \<open>Creating a group, in a calm environment, validates before it writes: it succeeds exactly
  for non-negative bounds with a maximum of 0 (none) or at least the minimum and a known
  template, and then the group is stored under its id (\<open>grp_\<close> and its name if it had none);
  otherwise it returns an error and the state machine does not change.\<close>

theorem create_group_validates:
  assumes "calm E" and "fsm_ok (w_fsm W)" and "int64_ok (g_min_instances g)" and "int64_ok (g_max_instances g)"
  shows "\<exists>W' e. create_group g E W = Some (e, W') \<and> fsm_ok (w_fsm W')
    \<and> (e = None) = (0 \<le> g_min_instances g \<and> 0 \<le> g_max_instances g
        \<and> (g_max_instances g = 0 \<or> g_min_instances g \<le> g_max_instances g)
        \<and> mget (f_templates (w_fsm W)) (g_template_id g) \<noteq> None)
    \<and> mget (f_groups (w_fsm W')) = (if e \<noteq> None then mget (f_groups (w_fsm W))
        else let i = (if g_id g = [] then ''grp_'' @ g_name g else g_id g)
             in (mget (f_groups (w_fsm W)))(i \<mapsto> g\<lparr>g_id := i\<rparr>))"
proof -
  let ?i = "if g_id g = [] then ''grp_'' @ g_name g else g_id g"
  let ?g = "g\<lparr>g_id := ?i\<rparr>"
  have g: "(if g_id g = [] then g\<lparr>g_id := ''grp_'' @ g_name g\<rparr> else g) = ?g" by simp
  have valid: "group_valid ?g" using assms(3,4) by (simp add: group_valid_def)
  let ?W1 = "W\<lparr>w_step := Suc (w_step W)\<rparr>"
  consider (bounds) "g_min_instances g < 0 \<or> g_max_instances g < 0"
    | (order) "\<not> (g_min_instances g < 0 \<or> g_max_instances g < 0)"
        "g_max_instances g \<noteq> 0 \<and> g_max_instances g < g_min_instances g"
    | (tpl) "\<not> (g_min_instances g < 0 \<or> g_max_instances g < 0)"
        "\<not> (g_max_instances g \<noteq> 0 \<and> g_max_instances g < g_min_instances g)"
        "mget (f_templates (w_fsm W)) (g_template_id g) = None"
    | (fine) tpl where "\<not> (g_min_instances g < 0 \<or> g_max_instances g < 0)"
        "\<not> (g_max_instances g \<noteq> 0 \<and> g_max_instances g < g_min_instances g)"
        "mget (f_templates (w_fsm W)) (g_template_id g) = Some tpl"
    by blast
  then show ?thesis
  proof cases
    case bounds
    with assms(2) show ?thesis by (auto simp: create_group_def Let_def g ret_def)
  next
    case order
    with assms(2) show ?thesis by (auto simp: create_group_def Let_def g ret_def)
  next
    case tpl
    with assms(2) show ?thesis
      by (auto simp: create_group_def Let_def g ret_def andthen_def calm_simps [OF assms(1)] fsm_template_def)
  next
    case fine
    obtain ts where ts: "now_unix_nano E ?W1 = Some (ts, ?W1\<lparr>w_step := Suc (w_step ?W1)\<rparr>)" "int64_ok ts"
      using assms(1) by (rule calm_unix_nano)
    obtain w where w: "encode CmdGroupUpsert (enc_group ?g) [] ts = Inr w"
      using group_table.up_encodes [OF valid] by blast
    let ?W2 = "?W1\<lparr>w_step := Suc (w_step ?W1)\<rparr>"
    have "\<exists>s'. fsm_apply i w (w_fsm ?W2) = Some (None, s') \<and> fsm_ok s'
        \<and> mget (f_groups s') = (mget (f_groups (w_fsm W)))(?i \<mapsto> ?g)" for i
      using group_table.apply_up [OF assms(2) ts(2) valid w, of i] by simp
    then obtain W' where W': "cluster_apply w E ?W2 = Some (None, W')"
      "fsm_ok (w_fsm W') \<and> mget (f_groups (w_fsm W')) = (mget (f_groups (w_fsm W)))(?i \<mapsto> ?g)"
      by (rule calm_apply_entry [OF assms(1)])
    have "create_group g E W = Some (None, W')"
      using fine ts(1) w W'(1)
      by (auto simp: create_group_def g andthen_def calm_simps [OF assms(1)] fsm_template_def Let_def)
    with W'(2) fine show ?thesis by (intro exI [of _ W'] exI [of _ None]) (auto simp: Let_def)
  qed
qed

theorem create_group_witness:
  "\<exists>W' e. create_group (demo_group\<lparr>g_max_instances := 1\<rparr>) calm_env demo_world = Some (e, W')
     \<and> e \<noteq> None \<and> mget (f_groups (w_fsm W')) = mget (f_groups demo_fsm)"
proof -
  have "int64_ok (g_min_instances (demo_group\<lparr>g_max_instances := 1\<rparr>))"
    "int64_ok (g_max_instances (demo_group\<lparr>g_max_instances := 1\<rparr>))"
    by (simp_all add: demo_group_def int64_ok_def)
  from create_group_validates [OF calm_demo, of demo_world, OF _ this]
  show ?thesis by (force simp: demo_group_def)
qed

text \<open>Deleting a template, in a calm environment, is refused exactly while a group refers to it,
  and then changes nothing; otherwise the template is gone and every other one stays.\<close>

theorem delete_template_guarded:
  assumes "calm E" and "fsm_ok (w_fsm W)"
  shows "\<exists>W' e. delete_template i E W = Some (e, W') \<and> fsm_ok (w_fsm W')
    \<and> (e \<noteq> None) = (\<exists>k g. mget (f_groups (w_fsm W)) k = Some g \<and> g_template_id g = i)
    \<and> mget (f_templates (w_fsm W')) = (if e \<noteq> None then mget (f_templates (w_fsm W))
        else (mget (f_templates (w_fsm W)))(i := None))"
proof -
  let ?ord = "e_iter E (w_step W)" and ?W1 = "W\<lparr>w_step := Suc (w_step W)\<rparr>"
  let ?f = "find (\<lambda>g. g_template_id g = i) (fsm_groups ?ord (w_fsm W))"
  have gs: "set (fsm_groups ?ord (w_fsm W)) = {g. \<exists>k. mget (f_groups (w_fsm W)) k = Some g}"
    unfolding fsm_groups_def by (rule set_mvalues) (rule calm_simps(4) [OF assms(1)])
  show ?thesis
  proof (cases ?f)
    case (Some g)
    then have "g \<in> set (fsm_groups ?ord (w_fsm W))" "g_template_id g = i"
      by (auto simp: find_Some_iff)
    with gs have "\<exists>k g. mget (f_groups (w_fsm W)) k = Some g \<and> g_template_id g = i" by auto
    moreover have "delete_template i E W = Some (Some (Errorf (''template '' @ go_quote i
        @ '' is in use by group '' @ go_quote (g_id g))), ?W1)"
      by (simp add: delete_template_def andthen_def calm_simps [OF assms(1)] Some ret_def)
    ultimately show ?thesis using assms(2) by simp
  next
    case None
    then have no: "\<not> (\<exists>k g. mget (f_groups (w_fsm W)) k = Some g \<and> g_template_id g = i)"
      using gs by (auto simp: find_None_iff)
    obtain ts where ts: "now_unix_nano E ?W1 = Some (ts, ?W1\<lparr>w_step := Suc (w_step ?W1)\<rparr>)" "int64_ok ts"
      using assms(1) by (rule calm_unix_nano)
    obtain w where w: "encode CmdTemplateRemove (enc_id i) [] ts = Inr w"
      using template_table.rm_encodes by blast
    have "\<exists>s'. fsm_apply j w (w_fsm (?W1\<lparr>w_step := Suc (w_step ?W1)\<rparr>)) = Some (None, s') \<and> fsm_ok s'
        \<and> mget (f_templates s') = (mget (f_templates (w_fsm W)))(i := None)" for j
      using template_table.apply_rm [OF assms(2) ts(2) w, of j] by simp
    then obtain W' where W': "cluster_apply w E (?W1\<lparr>w_step := Suc (w_step ?W1)\<rparr>) = Some (None, W')"
      "fsm_ok (w_fsm W') \<and> mget (f_templates (w_fsm W')) = (mget (f_templates (w_fsm W)))(i := None)"
      by (rule calm_apply_entry [OF assms(1)])
    have "delete_template i E W = Some (None, W')"
      using ts(1) W'(1) by (simp add: delete_template_def andthen_def calm_simps [OF assms(1)] None w data_or_nil_def)
    with W'(2) no show ?thesis by auto
  qed
qed

theorem delete_template_guarded_witness:
  "\<exists>W'. delete_template ''tpl'' calm_env demo_world = Some (None, W')
     \<and> mget (f_templates (w_fsm W')) ''tpl'' = None"
proof -
  have n: "\<not> (\<exists>k g. mget (f_groups (w_fsm demo_world)) k = Some g \<and> g_template_id g = ''tpl'')"
    by (simp add: demo_fsm_def new_fsm_def)
  have "fsm_ok (w_fsm demo_world)" by simp
  from delete_template_guarded [OF calm_demo this, of "''tpl''"] obtain W' e where
    *: "delete_template ''tpl'' calm_env demo_world = Some (e, W')"
    "(e \<noteq> None) = (\<exists>k g. mget (f_groups (w_fsm demo_world)) k = Some g \<and> g_template_id g = ''tpl'')"
    "mget (f_templates (w_fsm W')) = (if e \<noteq> None then mget (f_templates (w_fsm demo_world))
        else (mget (f_templates (w_fsm demo_world)))(''tpl'' := None))"
    by blast
  from *(2) n have "e = None" by blast
  with *(1,3) show ?thesis by simp
qed

text \<open>An environment within raft's contract: a group is committed after the check has been made.\<close>

definition race_entry :: wire where
  "race_entry = data_or_nil (encode CmdGroupUpsert (enc_group demo_group) [] 7)"

definition race_env :: env where
  "race_env = calm_env\<lparr>e_others := \<lambda>n. if n = 3 then [race_entry] else []\<rparr>"

lemma race_env_simps [simp]:
  "e_raft race_env n = e_raft calm_env n" "e_leads race_env n" "e_iter race_env n = (\<lambda>ks. ks)"
  "e_now race_env n = 63900000000 * second"
  by (simp_all add: race_env_def)

lemma race_env_ok: "env_ok race_env" "raft_honest race_env"
proof -
  have "wire_ok race_entry" unfolding race_entry_def by (rule data_wire_ok) (rule json_ok_group)
  then show "env_ok race_env" "raft_honest race_env"
    by (simp_all add: race_env_def env_ok_def raft_honest_def)
qed

lemma race_apply:
  assumes "fsm_ok s"
  obtains s' where "fsm_apply i race_entry s = Some (None, s')" "fsm_ok s'"
    "mget (f_groups s') ''lobby'' = Some demo_group"
proof -
  have v: "group_valid demo_group" by (simp add: demo_group_def group_valid_def int64_ok_def group_zero_def)
  obtain w where w: "encode CmdGroupUpsert (enc_group demo_group) [] 7 = Inr w"
    using group_table.up_encodes [OF v] by blast
  from group_table.apply_up [OF assms int64_ok_7 v w, of i] w that show ?thesis
    by (auto simp: race_entry_def data_or_nil_def demo_group_def)
qed

text \<open>The check is not atomic with the removal: there is an environment, within raft's contract,
  in which a group is created between the two, the deletion still returns nil, and a group
  is left whose template is gone.\<close>

theorem delete_template_race:
  "\<exists>W'. delete_template ''tpl'' race_env demo_world = Some (None, W')
     \<and> mget (f_templates (w_fsm W')) ''tpl'' = None
     \<and> map_option g_template_id (mget (f_groups (w_fsm W')) ''lobby'') = Some ''tpl''"
proof -
  let ?ts = "unix_nano (63900000000 * second)"
  have sync: "sync race_env V = Some (w_step V, V\<lparr>w_step := Suc (w_step V)\<rparr>)" if "w_step V \<noteq> 3" for V
    using that by (simp add: sync_def race_env_def)
  obtain w where w: "encode CmdTemplateRemove (enc_id ''tpl'') [] ?ts = Inr w"
    using template_table.rm_encodes by blast
  have ts: "int64_ok ?ts" by (simp add: unix_nano_def wrap64_range)
  obtain s1 where s1: "fsm_apply 1 race_entry demo_fsm = Some (None, s1)" "fsm_ok s1"
    "mget (f_groups s1) ''lobby'' = Some demo_group"
    using demo_fsm_ok by (rule race_apply)
  note rm = apply_template_remove [OF s1(2) ts w]
  have groups: "fsm_groups ord demo_fsm = []" if "permutes ord" for ord
  proof -
    have "mvalues ord (f_groups demo_fsm) = []"
      using length_mvalues [OF that, of "f_groups demo_fsm"] by (simp add: mlen_def demo_fsm_def new_fsm_def mempty_def)
    then show ?thesis by (simp add: fsm_groups_def)
  qed
  let ?W3 = "demo_world\<lparr>w_step := 3\<rparr>"
  have s3: "sync race_env ?W3 = Some (3, ?W3\<lparr>w_fsm := s1, w_index := 1, w_step := 4\<rparr>)"
    using s1(1) by (simp add: sync_def race_env_def demo_world_def boot_world_def)
  let ?s2 = "publish CmdTemplateRemove (EvId ''tpl'') (s1\<lparr>f_templates := mdel ''tpl'' (f_templates s1)\<rparr>)"
  have "raft_apply w race_env ?W3 = Some (None, ?W3\<lparr>w_fsm := ?s2, w_index := 2, w_step := 4, w_sent := [w]\<rparr>)"
    unfolding raft_apply_def andthen_def s3 option.case prod.case
    using rm(1) [of 2] by (simp add: numeral_2_eq_2)
  moreover have "delete_template ''tpl'' race_env demo_world = raft_apply w race_env ?W3"
    by (simp add: delete_template_def read_fsm_def andthen_def sync groups now_unix_nano_def time_now_def
        ret_def w data_or_nil_def cluster_apply_def is_leader_def numeral_2_eq_2 numeral_3_eq_3)
  ultimately show ?thesis
    using s1(3) by (simp add: publish_def demo_group_def)
qed

section \<open>Deleting a group\<close>

lemma calm_stop_members:
  assumes E: "calm E" and ok: "fsm_ok (w_fsm W)"
    and "distinct (map (\<lambda>v. sp_id (sv_spec v)) vs)"
    and "\<forall>v\<in>set vs. mget (f_servers (w_fsm W)) (sp_id (sv_spec v)) = Some v"
  shows "\<exists>W'. for_each vs (\<lambda>v. if sp_group_id (sv_spec v) = i then
        andthen (apply_server (v\<lparr>sv_state := ServerStopping\<rparr>)) (\<lambda>_. ret ()) else ret ()) E W = Some ((), W')
    \<and> fsm_ok (w_fsm W') \<and> f_groups (w_fsm W') = f_groups (w_fsm W)
    \<and> (\<forall>k. mget (f_servers (w_fsm W')) k =
         (if k \<in> (\<lambda>v. sp_id (sv_spec v)) ` {v \<in> set vs. sp_group_id (sv_spec v) = i}
          then map_option (\<lambda>v. v\<lparr>sv_state := ServerStopping\<rparr>) (mget (f_servers (w_fsm W)) k)
          else mget (f_servers (w_fsm W)) k))"
  using ok assms(3,4)
proof (induction vs arbitrary: W)
  case Nil
  then show ?case by (simp add: ret_def)
next
  case (Cons v vs)
  let ?id = "\<lambda>v. sp_id (sv_spec v)"
  let ?f = "\<lambda>v. if sp_group_id (sv_spec v) = i then
        andthen (apply_server (v\<lparr>sv_state := ServerStopping\<rparr>)) (\<lambda>_. ret ()) else ret ()"
  from Cons.prems have v: "mget (f_servers (w_fsm W)) (?id v) = Some v" by simp
  have fresh: "\<forall>u\<in>set vs. ?id u \<noteq> ?id v" using Cons.prems(2) by (auto simp: image_iff)
  obtain W1 where W1: "?f v E W = Some ((), W1)" "fsm_ok (w_fsm W1)" "f_groups (w_fsm W1) = f_groups (w_fsm W)"
    "mget (f_servers (w_fsm W1)) = (if sp_group_id (sv_spec v) = i
        then (mget (f_servers (w_fsm W)))(?id v \<mapsto> v\<lparr>sv_state := ServerStopping\<rparr>) else mget (f_servers (w_fsm W)))"
  proof (cases "sp_group_id (sv_spec v) = i")
    case True
    from server_table.get_ok [OF Cons.prems(1) v] have "server_valid (v\<lparr>sv_state := ServerStopping\<rparr>)" by auto
    from calm_apply_server [OF E Cons.prems(1) this] obtain W1 where
      "apply_server (v\<lparr>sv_state := ServerStopping\<rparr>) E W = Some (None, W1)" "fsm_ok (w_fsm W1)"
      "mget (f_servers (w_fsm W1)) = (mget (f_servers (w_fsm W)))
        (?id (v\<lparr>sv_state := ServerStopping\<rparr>) \<mapsto> v\<lparr>sv_state := ServerStopping\<rparr>)"
      "f_groups (w_fsm W1) = f_groups (w_fsm W)"
      by blast
    with True that [of W1] show ?thesis by (simp add: andthen_def ret_def)
  next
    case False
    with that [of W] Cons.prems(1) show ?thesis by (simp add: ret_def)
  qed
  have "\<forall>u\<in>set vs. mget (f_servers (w_fsm W1)) (?id u) = Some u"
    using Cons.prems(3) fresh W1(4) by simp
  with Cons.IH [OF W1(2)] Cons.prems(2) obtain W' where
    W': "for_each vs ?f E W1 = Some ((), W')" "fsm_ok (w_fsm W')" "f_groups (w_fsm W') = f_groups (w_fsm W1)"
    "\<forall>k. mget (f_servers (w_fsm W')) k =
         (if k \<in> ?id ` {v \<in> set vs. sp_group_id (sv_spec v) = i}
          then map_option (\<lambda>v. v\<lparr>sv_state := ServerStopping\<rparr>) (mget (f_servers (w_fsm W1)) k)
          else mget (f_servers (w_fsm W1)) k)"
    by auto
  have "for_each (v # vs) ?f E W = Some ((), W')"
    using W'(1) by (subst for_each_step [where f = ?f, OF W1(1)])
  moreover have "mget (f_servers (w_fsm W')) k =
         (if k \<in> ?id ` {u \<in> set (v # vs). sp_group_id (sv_spec u) = i}
          then map_option (\<lambda>v. v\<lparr>sv_state := ServerStopping\<rparr>) (mget (f_servers (w_fsm W)) k)
          else mget (f_servers (w_fsm W)) k)" for k
    using W'(4) [rule_format, of k] W1(4) v fresh by (cases "k = ?id v") auto
  moreover have "f_groups (w_fsm W') = f_groups (w_fsm W)" using W'(3) W1(3) by simp
  ultimately show ?case using W'(2) by (intro exI [of _ W'] conjI allI)
qed

text \<open>Deleting a group, in a calm environment, returns nil, marks exactly the group's servers as
  stopping and removes the group; other servers and groups stay as they are.\<close>

theorem delete_group_complete:
  assumes "calm E" and "fsm_ok (w_fsm W)"
  shows "\<exists>W'. delete_group i E W = Some (None, W') \<and> fsm_ok (w_fsm W')
    \<and> mget (f_groups (w_fsm W')) = (mget (f_groups (w_fsm W)))(i := None)
    \<and> (\<forall>k. mget (f_servers (w_fsm W')) k = map_option
         (\<lambda>v. if sp_group_id (sv_spec v) = i then v\<lparr>sv_state := ServerStopping\<rparr> else v)
         (mget (f_servers (w_fsm W)) k))"
proof -
  let ?ord = "e_iter E (w_step W)" and ?W1 = "W\<lparr>w_step := Suc (w_step W)\<rparr>"
  let ?id = "\<lambda>v. sp_id (sv_spec v)" and ?vs = "fsm_servers ?ord (w_fsm W)"
  have ord: "permutes ?ord" by (rule calm_simps(4) [OF assms(1)])
  have vs: "set ?vs = {v. \<exists>k. mget (f_servers (w_fsm W)) k = Some v}"
    unfolding fsm_servers_def using ord by (rule set_mvalues)
  have all: "\<forall>v\<in>set ?vs. mget (f_servers (w_fsm ?W1)) (?id v) = Some v"
    using fsm_values_valid(2) [OF assms(2) ord] by simp
  have ok1: "fsm_ok (w_fsm ?W1)" using assms(2) by simp
  from calm_stop_members [OF assms(1) ok1 distinct_all_server_ids [OF assms(2) ord] all, of i]
  obtain W2 where W2: "for_each ?vs (\<lambda>v. if sp_group_id (sv_spec v) = i then
        andthen (apply_server (v\<lparr>sv_state := ServerStopping\<rparr>)) (\<lambda>_. ret ()) else ret ()) E ?W1 = Some ((), W2)"
    "fsm_ok (w_fsm W2)" "f_groups (w_fsm W2) = f_groups (w_fsm W)"
    "\<forall>k. mget (f_servers (w_fsm W2)) k =
         (if k \<in> ?id ` {v \<in> set ?vs. sp_group_id (sv_spec v) = i}
          then map_option (\<lambda>v. v\<lparr>sv_state := ServerStopping\<rparr>) (mget (f_servers (w_fsm W)) k)
          else mget (f_servers (w_fsm W)) k)"
    by auto
  have srv: "mget (f_servers (w_fsm W2)) k = map_option
         (\<lambda>v. if sp_group_id (sv_spec v) = i then v\<lparr>sv_state := ServerStopping\<rparr> else v)
         (mget (f_servers (w_fsm W)) k)" for k
  proof (cases "mget (f_servers (w_fsm W)) k")
    case None
    with W2(4) show ?thesis by simp
  next
    case (Some v)
    have "k \<in> ?id ` {v \<in> set ?vs. sp_group_id (sv_spec v) = i} \<longleftrightarrow> sp_group_id (sv_spec v) = i"
    proof
      assume "k \<in> ?id ` {v \<in> set ?vs. sp_group_id (sv_spec v) = i}"
      then obtain u where "u \<in> set ?vs" "sp_group_id (sv_spec u) = i" "k = ?id u" by blast
      with all Some show "sp_group_id (sv_spec v) = i" by auto
    next
      assume "sp_group_id (sv_spec v) = i"
      moreover have "?id v = k" using server_table.get_ok [OF assms(2) Some] by blast
      moreover have "v \<in> set ?vs" using vs Some by blast
      ultimately show "k \<in> ?id ` {v \<in> set ?vs. sp_group_id (sv_spec v) = i}" by blast
    qed
    with W2(4) Some show ?thesis by simp
  qed
  let ?W3 = "W2\<lparr>w_step := Suc (w_step W2)\<rparr>"
  obtain ts where ts: "now_unix_nano E W2 = Some (ts, ?W3)" "int64_ok ts"
    using assms(1) by (rule calm_unix_nano)
  obtain w where w: "encode CmdGroupRemove (enc_id i) [] ts = Inr w"
    using group_table.rm_encodes by blast
  have "\<exists>s'. fsm_apply j w (w_fsm ?W3) = Some (None, s') \<and> fsm_ok s'
      \<and> mget (f_groups s') = (mget (f_groups (w_fsm W)))(i := None) \<and> f_servers s' = f_servers (w_fsm W2)" for j
    using apply_group_remove(1) [OF W2(2) ts(2) w, of j] apply_group_remove(2) [OF W2(2) ts(2) w] W2(3) by (simp add: publish_def)
  then obtain W' where W': "cluster_apply w E ?W3 = Some (None, W')"
    "fsm_ok (w_fsm W') \<and> mget (f_groups (w_fsm W')) = (mget (f_groups (w_fsm W)))(i := None)
      \<and> f_servers (w_fsm W') = f_servers (w_fsm W2)"
    by (rule calm_apply_entry [OF assms(1)])
  have "delete_group i E W = Some (None, W')"
    unfolding delete_group_def
    by (rule trans [OF andthen_step], rule calm_simps(2) [OF assms(1)], rule trans [OF andthen_step],
        rule W2(1), rule trans [OF andthen_step], rule ts(1)) (simp add: w data_or_nil_def W'(1))
  with W'(2) srv show ?thesis by (intro exI [of _ W']) simp
qed

theorem delete_group_witness:
  "\<exists>W'. delete_group ''lobby'' calm_env demo_world = Some (None, W')
     \<and> mget (f_servers (w_fsm W')) ''srv-1'' = Some demo_ha"
proof -
  have "fsm_ok (w_fsm demo_world)" by simp
  from delete_group_complete [OF calm_demo this, of "''lobby''"] obtain W' where
    *: "delete_group ''lobby'' calm_env demo_world = Some (None, W')"
    "\<forall>k. mget (f_servers (w_fsm W')) k = map_option
         (\<lambda>v. if sp_group_id (sv_spec v) = ''lobby'' then v\<lparr>sv_state := ServerStopping\<rparr> else v)
         (mget (f_servers (w_fsm demo_world)) k)" by blast
  from *(2) [rule_format, of "''srv-1''"] have "mget (f_servers (w_fsm W')) ''srv-1'' = Some demo_ha"
    by (simp add: demo_ha_def zero_defs)
  with *(1) show ?thesis by blast
qed

section \<open>Publishing sign states\<close>

lemma enc_sign_state_total: "\<exists>j. enc_sign_state st = Inr j"
  by (simp add: enc_sign_state_def enc_struct_def)

lemma sign_publish_ok:
  assumes "map_ok (sa_last a)"
  obtains a' where "sign_publish redis st a =
      Some (if mget (sa_last a) (ss_server_id st) = Some st then None else redis, a')"
    "map_ok (sa_last a')" "mget (sa_last a') = (mget (sa_last a))(ss_server_id st \<mapsto> st)"
    "(sa_sent a' = sa_sent a) = (mget (sa_last a) (ss_server_id st) = Some st)"
proof -
  obtain m where m: "mput (ss_server_id st) st (sa_last a) = Some m"
    using tbl.put_total [OF assms, of "ss_server_id st" st] by (elim exE)
  obtain j where j: "enc_sign_state st = Inr j" using enc_sign_state_total by blast
  show ?thesis
    using tbl.put_keeps_ok [OF assms m] tbl.get_put [OF m]
    by (cases "mget (sa_last a) (ss_server_id st) = Some st")
      (auto intro!: that simp: sign_publish_def Let_def m j)
qed

text \<open>A sign state is remembered before it is published, so a publish that fails is not made up
  for: the call returns Redis's error, and publishing the same state again returns nil
  without sending anything.\<close>

theorem failed_publish_is_lost:
  assumes "map_ok (sa_last a)" and "mget (sa_last a) (ss_server_id st) \<noteq> Some st"
  shows "\<exists>a1 a2. sign_publish (Some e) st a = Some (Some e, a1)
    \<and> sign_publish None st a1 = Some (None, a2) \<and> sa_sent a2 = sa_sent a1
    \<and> length (sa_sent a1) = Suc (length (sa_sent a))"
proof -
  obtain m where m: "mput (ss_server_id st) st (sa_last a) = Some m"
    using tbl.put_total [OF assms(1), of "ss_server_id st" st] by (elim exE)
  obtain j where j: "enc_sign_state st = Inr j" using enc_sign_state_total by blast
  let ?a1 = "a\<lparr>sa_last := m, sa_sent := sa_sent a @ [j]\<rparr>"
  have 1: "sign_publish (Some e) st a = Some (Some e, ?a1)"
    using assms(2) by (simp add: sign_publish_def Let_def m j)
  have ok: "map_ok (sa_last ?a1)" "mget (sa_last ?a1) (ss_server_id st) = Some st"
    using tbl.put_keeps_ok [OF assms(1) m] tbl.get_put [OF m] by simp_all
  obtain a2 where "sign_publish None st ?a1 = Some (None, a2)" "sa_sent a2 = sa_sent ?a1"
    by (rule sign_publish_ok [OF ok(1), of None st]) (use ok(2) in simp)
  with 1 show ?thesis by (intro exI [of _ ?a1] exI [of _ a2]) simp
qed

theorem failed_publish_is_lost_witness:
  "\<exists>a1 a2. sign_publish (Some (ErrExt 0)) \<lparr>ss_server_id = ''s'', ss_group_id = [], ss_sign_state = ''ready'',
       ss_player_count = 1, ss_max_players = 20, ss_motd = []\<rparr> new_sign_api = Some (Some (ErrExt 0), a1)
    \<and> sign_publish None \<lparr>ss_server_id = ''s'', ss_group_id = [], ss_sign_state = ''ready'',
       ss_player_count = 1, ss_max_players = 20, ss_motd = []\<rparr> a1 = Some (None, a2)
    \<and> sa_sent a2 = sa_sent a1 \<and> length (sa_sent a1) = Suc (length (sa_sent new_sign_api))"
  by (rule failed_publish_is_lost) (simp_all add: new_sign_api_def)

end
