(* ===== verification/ApiLaws.thy ===== *)
theory ApiLaws
  imports RestMore Tasks
begin

text \<open>
  What the API's access control decides, in a calm environment (this daemon leads, nobody else
  writes): who is let through, what a token can do that its scopes do not say, and what the
  table of routes does to the start of the daemon.
\<close>

section \<open>The decision\<close>

text \<open>The specification: the refusal of a request under \<open>/api/\<close> at a time, or none.\<close>

definition auth_verdict :: "time \<Rightarrow> http_request \<Rightarrow> fsm \<Rightarrow> (nat \<times> string) option" where
  "auth_verdict now r s =
     (if \<not> has_prefix (hr_authz r) ''Bearer '' then Some (401, ''missing bearer token'')
      else case fsm_token (token_id (trim_prefix (hr_authz r) ''Bearer '')) s of
        None \<Rightarrow> Some (401, ''invalid token'')
      | Some tok \<Rightarrow>
          if tk_expires_at tok \<noteq> 0 \<and> now > tk_expires_at tok then Some (401, ''token expired'')
          else let required = scope_for_path (hr_method r) (hr_path r) in
            if required = [] \<or> required \<in> set (tk_scopes tok) \<or> ''admin:*'' \<in> set (tk_scopes tok) then None
            else Some (403, ''missing scope: '' @ required))"

definition steps :: "nat \<Rightarrow> world \<Rightarrow> world" where
  "steps n W = W\<lparr>w_step := w_step W + n\<rparr>"

lemma steps_simps [simp]:
  "w_fsm (steps n W) = w_fsm W" "w_sent (steps n W) = w_sent W" "w_step (steps n W) = w_step W + n"
  "w_index (steps n W) = w_index W" "steps 0 W = W" "steps m (steps n W) = steps (n + m) W"
  by (simp_all add: steps_def add.assoc)

lemma calm_reads:
  assumes "calm E"
  shows "read_fsm f E W = Some (f (e_iter E (w_step W)) (w_fsm W), steps 1 W)"
    and "time_now E W = Some (e_now E (w_step W), steps 1 W)"
  by (simp_all add: calm_simps [OF assms] steps_def)

text \<open>Running a sequence by steps.\<close>

lemma then_step: "m E W = Some (x, W1) \<Longrightarrow> f x E W1 = r \<Longrightarrow> andthen m f E W = r"
  by (simp add: andthen_def)

definition api_path :: "string \<Rightarrow> bool" where
  "api_path p \<longleftrightarrow> has_prefix p ''/api/''"

lemma api_path_not_probe: "api_path p \<Longrightarrow> \<not> has_prefix p ''/healthz'' \<and> \<not> has_prefix p ''/readyz''"
  by (auto simp: api_path_def has_prefix_iff)

lemma with_auth_api:
  assumes E: "calm E" and p: "api_path (hr_path r)"
  shows "\<exists>n. with_auth h r E W =
    (case auth_verdict (e_now E (w_step W + 1)) r (w_fsm W) of
       Some (status, msg) \<Rightarrow> Some (http_error status msg, steps n W)
     | None \<Rightarrow> h r E (steps n W))"
proof -
  have np: "\<not> has_prefix (hr_path r) ''/healthz''" "\<not> has_prefix (hr_path r) ''/readyz''"
    "has_prefix (hr_path r) ''/api/''"
    using api_path_not_probe [OF p] p by (simp_all add: api_path_def)
  show ?thesis
  proof (cases "has_prefix (hr_authz r) ''Bearer ''")
    case False
    with np show ?thesis
      by (intro exI [of _ 0]) (simp add: with_auth_def auth_verdict_def ret_def)
  next
    case True
    let ?t = "fsm_token (token_id (trim_prefix (hr_authz r) ''Bearer '')) (w_fsm W)"
    show ?thesis
    proof (cases ?t)
      case None
      with np True show ?thesis
        by (intro exI [of _ 1])
          (simp add: with_auth_def auth_verdict_def Let_def andthen_def calm_reads [OF E] ret_def)
    next
      case (Some tok)
      with np True show ?thesis
        by (intro exI [of _ "if tk_expires_at tok = 0 then 1 else 2"])
          (auto simp: with_auth_def auth_verdict_def Let_def andthen_def calm_reads [OF E] ret_def
            time_is_zero_def time_after_def has_scope_iff numeral_2_eq_2)
    qed
  qed
qed

text \<open>C11. Access is decided by the token's entry alone: a request under \<open>/api/\<close> is handed on exactly
  when its bearer text is known under the first 8 bytes of its digest, the entry has not
  expired and holds the scope its path and method ask for, or \<open>admin:*\<close>; else it is refused
  with 401 or 403 and nothing runs. The digest stored in the entry plays no part.\<close>

theorem auth_decides:
  assumes "calm E" and "api_path (hr_path r)"
    and "\<And>k. map_option (\<lambda>t. (tk_scopes t, tk_expires_at t)) (fsm_token k s)
      = map_option (\<lambda>t. (tk_scopes t, tk_expires_at t)) (fsm_token k (w_fsm W))"
  shows "\<exists>n. with_auth h r E W =
      (case auth_verdict (e_now E (w_step W + 1)) r s of
         Some (status, msg) \<Rightarrow> Some (http_error status msg, steps n W)
       | None \<Rightarrow> h r E (steps n W))"
proof -
  have "auth_verdict now r s = auth_verdict now r (w_fsm W)" for now
    using assms(3) [of "token_id (trim_prefix (hr_authz r) ''Bearer '')"]
    by (auto simp: auth_verdict_def Let_def split: option.splits)
  with with_auth_api [OF assms(1,2), of h W] show ?thesis by simp
qed

section \<open>What needs a token\<close>

text \<open>An operation that leaves the state machine and the proposals alone.\<close>

definition idle :: "env \<Rightarrow> 'a op \<Rightarrow> bool" where
  "idle E m \<longleftrightarrow> (\<forall>W x W'. m E W = Some (x, W') \<longrightarrow> w_fsm W' = w_fsm W \<and> w_sent W' = w_sent W)"

lemma idle_ret: "idle E (ret x)"
  by (simp add: idle_def ret_def)

lemma idle_andthen: "idle E m \<Longrightarrow> (\<And>x. idle E (f x)) \<Longrightarrow> idle E (andthen m f)"
  unfolding idle_def andthen_def by (fastforce split: option.splits prod.splits)

lemma idle_leader_addr: "calm E \<Longrightarrow> idle E leader_addr"
  by (simp add: idle_def leader_addr_def andthen_def calm_simps)

lemma outside_api:
  assumes "best_match m p = Some (q, h)" and "register_all (all_routes opts) [] = Some m" and "\<not> api_path p"
  shows "h = handle_healthz \<or> h = handle_readyz"
proof -
  have "m = all_routes opts" using register_all_distinct [OF assms(2)] by simp
  with best_match_in [OF assms(1)] have "(q, h) \<in> set (all_routes opts)" and q: "pattern_matches q p" by auto
  then consider "h = handle_healthz" | "h = handle_readyz" | "has_prefix q ''/api/''"
    unfolding all_routes_def rest_routes_def firewall_routes_def mod_routes_def rbac_routes_def workbench_routes_def
    by (auto split: option.splits)
  then show ?thesis
    using pattern_matches_prefix [OF q] assms(3) by cases (auto simp: api_path_def)
qed

text \<open>C10. Only an authorised API request changes anything: whatever a request does to the state
  machine or proposes to raft, its path is under \<open>/api/\<close> and \<open>withAuth\<close> found no reason to
  refuse it. (No path that avoids the check, such as \<open>/healthz/../api/v1/tokens\<close>, reaches a
  handler of the API.)\<close>

theorem changes_need_a_token:
  assumes "calm E" and "api_handler opts = Some h" and "h r E W = Some (resp, W')"
    and "w_fsm W' \<noteq> w_fsm W \<or> w_sent W' \<noteq> w_sent W"
  shows "api_path (hr_path r) \<and> auth_verdict (e_now E (w_step W + 1)) r (w_fsm W) = None"
proof -
  obtain m where m: "register_all (all_routes opts) [] = Some m" "h = with_auth (serve_mux m)"
    using assms(2) by (auto simp: api_handler_def)
  have api: "api_path (hr_path r)"
  proof (rule ccontr)
    assume n: "\<not> api_path (hr_path r)"
    then have w: "h r = serve_mux m r"
      by (auto simp: m(2) with_auth_def api_path_def fun_eq_iff)
    have "idle E (serve_mux m r)"
      using outside_api [OF _ m(1) n] idle_leader_addr [OF assms(1)]
      by (auto simp: serve_mux_def Let_def handle_healthz_def handle_readyz_def
          intro!: idle_ret idle_andthen split: option.split)
    with assms(3,4) w show False unfolding idle_def by metis
  qed
  have "auth_verdict (e_now E (w_step W + 1)) r (w_fsm W) = None"
  proof (rule ccontr)
    assume "auth_verdict (e_now E (w_step W + 1)) r (w_fsm W) \<noteq> None"
    then obtain status msg where "auth_verdict (e_now E (w_step W + 1)) r (w_fsm W) = Some (status, msg)" by auto
    with with_auth_api [OF assms(1) api, of "serve_mux m" W] assms(3,4) m(2) show False by auto
  qed
  with api show ?thesis ..
qed

section \<open>Routes\<close>

lemma routes_panic: "register_all (all_routes opts) [] = None \<longleftrightarrow> ao_workbench opts \<noteq> None"
proof (cases "ao_workbench opts")
  case None
  then show ?thesis
    by (simp add: all_routes_def rest_routes_def firewall_routes_def mod_routes_def rbac_routes_def)
next
  case (Some wb)
  then have "register_all (all_routes opts) [] = None"
    by (intro register_all_twice)
      (simp add: all_routes_def rest_routes_def firewall_routes_def mod_routes_def rbac_routes_def workbench_routes_def)
  with Some show ?thesis by simp
qed

text \<open>A configured workbench stops the daemon from starting: its routes repeat the pattern
  \<open>/api/v1/databases/\<close>, and the multiplexer panics. Without one every route is registered.\<close>

theorem workbench_route_panics: "api_handler opts = None \<longleftrightarrow> ao_workbench opts \<noteq> None"
  by (simp add: api_handler_def routes_panic)

lemma routed:
  assumes "api_handler opts = Some h"
  obtains m where "h = with_auth (serve_mux m)" "m = all_routes opts" "ao_workbench opts = None"
proof -
  obtain m where m: "register_all (all_routes opts) [] = Some m" "h = with_auth (serve_mux m)"
    using assms by (auto simp: api_handler_def)
  have "ao_workbench opts = None" using m(1) routes_panic [of opts] by simp
  with m register_all_distinct [OF m(1)] that show ?thesis by simp
qed

section \<open>What a token can do\<close>

lemma best_match_tokens:
  "ao_workbench opts = None \<Longrightarrow> best_match (all_routes opts) ''/api/v1/tokens'' = Some (''/api/v1/tokens'', handle_tokens)"
  by (simp add: all_routes_def rest_routes_def firewall_routes_def mod_routes_def rbac_routes_def pattern_matches_def)

lemma serve_tokens:
  assumes "ao_workbench opts = None" and "hr_path r = ''/api/v1/tokens''"
  shows "serve_mux (all_routes opts) r = handle_tokens r"
proof -
  have c: "clean_path ''/api/v1/tokens'' = ''/api/v1/tokens''"
    by (simp add: clean_path_def path_clean_def rooted_def elems_def)
  have "''/api/v1/tokens'' \<in> fst ` set (all_routes opts)" by (simp add: all_routes_def rbac_routes_def)
  then show ?thesis by (simp add: serve_mux_def assms(2) c best_match_tokens [OF assms(1)])
qed

lemma calm_rand:
  assumes "calm E"
  shows "rand_read k E W = Some (take k (e_rand E (w_step W) @ replicate k 0), steps 1 W)"
  by (simp add: rand_read_def andthen_def calm_simps [OF assms] steps_def)

lemma token_minted:
  assumes E: "calm E" and now: "\<forall>n. time_marshals (e_now E n)" and ok: "fsm_ok (w_fsm W)"
    and r: "hr_method r = ''POST''" "decode_body token_body_fields token_body_zero r = Inr body" "tb_expires_in body = 0"
  shows "\<exists>raw meta W' tok. handle_tokens r E W =
      Some (reply 201 (JsonBody (JObj [(''metadata'', meta), (''token'', JStr raw)])), W')
    \<and> fsm_token (token_id raw) (w_fsm W') = Some tok \<and> tk_scopes tok = tb_scopes body \<and> tk_expires_at tok = 0"
proof -
  let ?raw = "''aether_'' @ hex_encode (take 32 (e_rand E (w_step W) @ replicate 32 0))"
  let ?now = "e_now E (w_step W + 1)"
  let ?tok = "\<lparr>tk_id = token_id ?raw, tk_hash = token_hash ?raw, tk_description = tb_description body,
      tk_scopes = tb_scopes body, tk_created_at = ?now, tk_expires_at = 0, tk_last_used_at = 0\<rparr>"
  have v: "token_valid ?tok" using now by (simp add: token_valid_def time_marshals_def second_def)
  obtain ts where ts: "now_unix_nano E (steps 2 W) = Some (ts, steps 3 W)" "int64_ok ts"
    by (rule calm_unix_nano [OF E, of "steps 2 W"]) (simp add: steps_def)
  obtain meta where meta: "enc_token ?tok = Inr meta" using token_codec.enc_valid [OF v] by blast
  obtain w where w: "encode CmdTokenUpsert (enc_token ?tok) [] ts = Inr w" using token_table.up_encodes [OF v] by blast
  have "\<exists>s'. fsm_apply i w (w_fsm (steps 3 W)) = Some (None, s') \<and> mget (f_tokens s') (token_id ?raw) = Some ?tok" for i
    using token_table.apply_up [OF ok ts(2) v w, of i] by auto
  then obtain W' where W': "cluster_apply w E (steps 3 W) = Some (None, W')"
    "mget (f_tokens (w_fsm W')) (token_id ?raw) = Some ?tok"
    by (rule calm_apply_entry [OF E])
  let ?resp = "reply 201 (JsonBody (JObj [(''metadata'', meta), (''token'', JStr ?raw)]))"
  have gen: "generate_secure_token E W = Some (?raw, steps 1 W)"
    unfolding generate_secure_token_def by (rule then_step, rule calm_rand [OF E]) (simp add: ret_def)
  have exp: "(if tb_expires_in body > 0 then andthen time_now (\<lambda>now. ret (expiry (tb_expires_in body) now)) else ret 0) E (steps 1 W)
      = Some (0, steps 1 W)"
    by (simp add: r(3) ret_def)
  have clock: "time_now E (steps 1 W) = Some (?now, steps 2 W)"
    using calm_reads(2) [OF E, of "steps 1 W"] by (simp add: numeral_2_eq_2)
  have enc: "enc_struct [(''metadata'', enc_token ?tok), (''token'', Inr (JStr ?raw))]
      = Inr (JObj [(''metadata'', meta), (''token'', JStr ?raw)])"
    unfolding enc_struct_def enc_members.simps meta rbind_simps ..
  have post: "hr_method r \<noteq> ''GET''" using r(1) by simp
  have "handle_tokens r E W = Some (?resp, W')"
    unfolding handle_tokens_def if_not_P [OF post] if_P [OF r(1)] r(2) sum.case
    by (rule then_step, rule gen, rule then_step, rule exp, rule then_step, rule clock, unfold Let_def,
        rule then_step, rule ts(1), unfold w sum.case, rule then_step, rule W'(1),
        unfold option.case write_json_def enc sum.case ret_def, rule refl)
  with W'(2) show ?thesis by (auto simp: fsm_token_def)
qed

text \<open>The verdict on a token without an end.\<close>

lemma verdict_bearer:
  assumes "hr_authz r = ''Bearer '' @ raw" and "fsm_token (token_id raw) s = Some tok" and "tk_expires_at tok = 0"
  shows "auth_verdict now r s =
     (let required = scope_for_path (hr_method r) (hr_path r) in
      if required = [] \<or> required \<in> set (tk_scopes tok) \<or> ''admin:*'' \<in> set (tk_scopes tok) then None
      else Some (403, ''missing scope: '' @ required))"
  unfolding auth_verdict_def assms(1) trim_prefix_append using assms(2,3) by simp


section \<open>Reading scope that stops servers\<close>

lemma join_plain_clean:
  assumes "\<forall>e\<in>set es. plain e" and "es \<noteq> []"
  shows "clean_path (''/'' @ join ''/'' es) = ''/'' @ join ''/'' es"
proof -
  let ?p = "''/'' @ join ''/'' es"
  have np: "path_clean ?p = ?p"
    using path_clean_rooted [of ?p] elems_join [OF assms(1)] by (simp add: rooted_def)
  obtain ds e where es: "es = ds @ [e]" using assms(2) by (metis rev_exhaust)
  then have e: "e \<noteq> []" "CHR ''/'' \<notin> set e" using assms(1) by (auto simp: plain_def)
  have "\<exists>x. join ''/'' es = x @ e"
    unfolding es by (induction ds rule: induct_list012) auto
  then obtain x where "?p = (''/'' @ x) @ e" by auto
  then have "last ?p = last e" using e(1) by simp
  then have "last ?p \<noteq> CHR ''/''" using e by (metis last_in_set)
  with np show ?thesis unfolding clean_path_def by (simp add: Let_def)
qed

text \<open>The path that stops a server.\<close>

definition stop_path :: "string \<Rightarrow> string" where
  "stop_path i = ''/api/v1/cluster/servers/'' @ i @ ''/stop''"

lemma stop_path_served:
  assumes "ao_workbench opts = None" and "plain i" and "hr_path r = stop_path i"
  shows "serve_mux (all_routes opts) r = handle_stop_server i r"
proof -
  have "\<forall>e\<in>set [''api'', ''v1'', ''cluster'', ''servers'', i, ''stop'']. plain e"
    using assms(2) by (simp add: plain_def)
  from join_plain_clean [OF this] have c: "clean_path (stop_path i) = stop_path i"
    by (simp add: stop_path_def)
  have b: "best_match (all_routes opts) (stop_path i)
      = Some (''/api/v1/cluster/servers/'', handle_server_path (ao_docker opts))"
    using assms(1)
    by (simp add: all_routes_def rest_routes_def firewall_routes_def mod_routes_def rbac_routes_def
        pattern_matches_def stop_path_def)
  have nin: "stop_path i @ ''/'' \<notin> fst ` set (all_routes opts)"
    using assms(1)
    by (simp add: all_routes_def rest_routes_def firewall_routes_def mod_routes_def rbac_routes_def stop_path_def)
  have "trim_prefix (stop_path i) ''/api/v1/cluster/servers/'' = i @ CHR ''/'' # ''stop''"
    unfolding stop_path_def trim_prefix_append by simp
  then have sp: "split_server_path (stop_path i) = (i, ''stop'')"
    using assms(2) by (simp add: split_server_path_def plain_def index_byte_append)
  show ?thesis
    using assms(2) unfolding serve_mux_def Let_def assms(3)
    by (simp add: c nin b handle_server_path_def assms(3) sp plain_def)
qed

lemma calm_stop:
  assumes "calm E" and "fsm_ok (w_fsm W)" and "fsm_server i (w_fsm W) = Some v"
  shows "\<exists>W'. handle_stop_server i r E W = Some (flag_reply ''stopped'', W')
    \<and> fsm_server i (w_fsm W') = Some (v\<lparr>sv_state := ServerStopping\<rparr>)"
proof -
  let ?v = "v\<lparr>sv_state := ServerStopping\<rparr>"
  have v: "sp_id (sv_spec v) = i \<and> server_valid v"
    using server_table.get_ok [OF assms(2)] assms(3) by (simp add: fsm_server_def)
  then have ok: "server_valid ?v" by (simp add: server_valid_def)
  have fok: "fsm_ok (w_fsm (steps 1 W))" using assms(2) by simp
  obtain W' where W': "apply_server ?v E (steps 1 W) = Some (None, W')"
    "mget (f_servers (w_fsm W')) = (mget (f_servers (w_fsm (steps 1 W))))(sp_id (sv_spec ?v) \<mapsto> ?v)"
    by (rule calm_apply_server [OF assms(1) fok ok])
  have rd: "read_fsm (\<lambda>_. fsm_server i) E W = Some (Some v, steps 1 W)"
    using calm_reads(1) [OF assms(1), of "\<lambda>_. fsm_server i" W] assms(3) by simp
  have "handle_stop_server i r E W = Some (flag_reply ''stopped'', W')"
    unfolding handle_stop_server_def write_state_def
    by (rule then_step, rule rd, unfold option.case, rule then_step, rule W'(1)) (simp add: finish_def ret_def)
  moreover have "fsm_server i (w_fsm W') = Some ?v" using W'(2) v by (simp add: fsm_server_def)
  ultimately show ?thesis by blast
qed

text \<open>C13. Reading is enough to stop: the scope is chosen by the method, the action by the path, and the
  handler does not look at the method. A token that only holds \<open>read:servers\<close> stops any
  server with a GET of its \<open>/stop\<close>: its record is committed as stopping.\<close>

theorem read_scope_stops_servers:
  assumes "calm E" and "fsm_ok (w_fsm W)" and "api_handler opts = Some h"
    and "fsm_token (token_id raw) (w_fsm W) = Some tok" and "tk_expires_at tok = 0"
    and "tk_scopes tok = [''read:servers'']"
    and "hr_method r = ''GET''" and "hr_authz r = ''Bearer '' @ raw"
    and "fsm_server i (w_fsm W) = Some v" and "plain i" and "hr_path r = stop_path i"
  shows "\<exists>W'. h r E W = Some (flag_reply ''stopped'', W')
    \<and> fsm_server i (w_fsm W') = Some (v\<lparr>sv_state := ServerStopping\<rparr>)"
proof -
  obtain m where m: "h = with_auth (serve_mux m)" "m = all_routes opts" "ao_workbench opts = None"
    using assms(3) by (rule routed)
  have api: "api_path (hr_path r)" by (simp add: assms(11) api_path_def stop_path_def)
  have "scope_for_path (hr_method r) (hr_path r) = ''read:servers''"
    by (simp add: assms(7,11) scope_for_path_def stop_path_def)
  then have "auth_verdict now r (w_fsm W) = None" for now
    by (simp add: verdict_bearer [OF assms(8,4,5)] assms(6))
  then obtain n where n: "h r E W = serve_mux m r E (steps n W)"
    using with_auth_api [OF assms(1) api, of "serve_mux m" W] m(1) by auto
  show ?thesis
    unfolding n m(2) stop_path_served [OF m(3) assms(10,11)]
    by (rule calm_stop [OF assms(1)]) (simp_all add: assms(2,9))
qed

section \<open>A daemon with one token\<close>

definition demo_token :: token where
  "demo_token = token_zero\<lparr>tk_id := token_id ''secret'', tk_scopes := [''read:servers'']\<rparr>"

definition api_world :: world where
  "api_world = boot_world\<lparr>w_fsm := new_fsm\<lparr>f_servers := GoMap [(''srv-1'', demo_ha)],
     f_tokens := GoMap [(token_id ''secret'', demo_token)]\<rparr>\<rparr>"

definition demo_opts :: api_opts where
  "demo_opts = \<lparr>ao_docker = None, ao_workbench = None, ao_http_get = \<lambda>_. ret (Inl (ErrExt 1))\<rparr>"

definition demo_request :: "string \<Rightarrow> string \<Rightarrow> wire \<Rightarrow> http_request" where
  "demo_request method path body = \<lparr>hr_method = method, hr_path = path, hr_authz = ''Bearer '' @ ''secret'',
     hr_query = \<lambda>_. [], hr_body = body\<rparr>"

lemma demo_request_simps [simp]:
  "hr_method (demo_request m p b) = m" "hr_path (demo_request m p b) = p" "hr_body (demo_request m p b) = b"
  by (simp_all add: demo_request_def)

lemma demo_request_authz: "hr_authz (demo_request m p b) = ''Bearer '' @ ''secret''"
  by (simp add: demo_request_def)

lemma api_world_token: "fsm_token (token_id ''secret'') (w_fsm api_world) = Some demo_token"
  by (simp add: api_world_def fsm_token_def)

lemma api_world_server: "fsm_server ''srv-1'' (w_fsm api_world) = Some demo_ha"
  by (simp add: api_world_def fsm_server_def)

lemma demo_token_simps [simp]: "tk_expires_at demo_token = 0" "tk_scopes demo_token = [''read:servers'']"
  by (simp_all add: demo_token_def token_zero_def)

lemma api_world_ok [simp]: "fsm_ok (w_fsm api_world)"
  unfolding fsm_ok_def table_ok_def
  by (simp add: api_world_def new_fsm_def demo_ha_def demo_token_def server_valid_def server_spec_valid_def
      token_valid_def zero_defs time_marshals_def second_def split: if_splits)

lemma demo_api: "api_handler demo_opts = Some (with_auth (serve_mux (all_routes demo_opts)))"
proof -
  obtain m where m: "register_all (all_routes demo_opts) [] = Some m"
    using routes_panic [of demo_opts] by (auto simp: demo_opts_def)
  with register_all_distinct [OF m] show ?thesis by (simp add: api_handler_def)
qed

lemma demo_clock_marshals: "\<forall>n. time_marshals (e_now calm_env n)"
  by (simp add: time_marshals_def second_def)

definition stop_request :: http_request where
  "stop_request = demo_request ''GET'' (stop_path ''srv-1'') None"

theorem auth_decides_witness:
  "\<exists>n. with_auth handle_nodes ((demo_request ''GET'' ''/api/v1/cluster/nodes'' None)\<lparr>hr_authz := ''Basic''\<rparr>) calm_env api_world
     = Some (http_error 401 ''missing bearer token'', steps n api_world)"
proof -
  let ?s = "(w_fsm api_world)\<lparr>f_tokens := GoMap [(token_id ''secret'', demo_token\<lparr>tk_hash := ''forged''\<rparr>)]\<rparr>"
  let ?r = "(demo_request ''GET'' ''/api/v1/cluster/nodes'' None)\<lparr>hr_authz := ''Basic''\<rparr>"
  have "map_option (\<lambda>t. (tk_scopes t, tk_expires_at t)) (fsm_token k ?s)
      = map_option (\<lambda>t. (tk_scopes t, tk_expires_at t)) (fsm_token k (w_fsm api_world))" for k
    by (simp add: fsm_token_def api_world_def)
  from auth_decides [OF calm_demo _ this, of ?r handle_nodes] show ?thesis
    by (simp add: api_path_def auth_verdict_def)
qed

theorem changes_need_a_token_witness:
  "auth_verdict (e_now calm_env (w_step api_world + 1)) stop_request (w_fsm api_world) = None"
proof -
  let ?h = "with_auth (serve_mux (all_routes demo_opts))"
  have api: "api_path (hr_path stop_request)" by (simp add: stop_request_def api_path_def stop_path_def)
  have "scope_for_path (hr_method stop_request) (hr_path stop_request) = ''read:servers''"
    by (simp add: stop_request_def scope_for_path_def stop_path_def)
  then have "auth_verdict now stop_request (w_fsm api_world) = None" for now
    unfolding stop_request_def verdict_bearer [OF demo_request_authz api_world_token demo_token_simps(1)]
    by simp
  then obtain n where n: "?h stop_request calm_env api_world
      = serve_mux (all_routes demo_opts) stop_request calm_env (steps n api_world)"
    using with_auth_api [OF calm_demo api, of "serve_mux (all_routes demo_opts)" api_world] by auto
  have srv: "serve_mux (all_routes demo_opts) stop_request = handle_stop_server ''srv-1'' stop_request"
    by (rule stop_path_served) (simp_all add: demo_opts_def plain_def stop_request_def)
  obtain W' where W': "handle_stop_server ''srv-1'' stop_request calm_env (steps n api_world) = Some (flag_reply ''stopped'', W')"
    "fsm_server ''srv-1'' (w_fsm W') = Some (demo_ha\<lparr>sv_state := ServerStopping\<rparr>)"
    using calm_stop [OF calm_demo, of "steps n api_world" "''srv-1''" demo_ha stop_request] api_world_server by auto
  have "demo_ha\<lparr>sv_state := ServerStopping\<rparr> \<noteq> demo_ha"
    by (simp add: demo_ha_def ServerStopping_def ServerReady_def zero_defs)
  with W'(2) api_world_server have "w_fsm W' \<noteq> w_fsm api_world" by auto
  with changes_need_a_token [OF calm_demo demo_api, of stop_request api_world "flag_reply ''stopped''" W'] n srv W'(1)
  show ?thesis by simp
qed


theorem read_scope_stops_servers_witness:
  "\<exists>W'. with_auth (serve_mux (all_routes demo_opts)) stop_request calm_env api_world = Some (flag_reply ''stopped'', W')
     \<and> fsm_server ''srv-1'' (w_fsm W') = Some (demo_ha\<lparr>sv_state := ServerStopping\<rparr>)"
  unfolding stop_request_def
  by (rule read_scope_stops_servers [OF calm_demo api_world_ok demo_api api_world_token _ _ _ demo_request_authz api_world_server])
    (simp_all add: plain_def)

end
