(* ===== verification/ApiSafety.thy ===== *)
theory ApiSafety
  imports ApiLaws
begin

text \<open>
  No request crashes the daemon: in every environment each handler returns and keeps the state
  machine's invariant. \<open>keep\<close> is closed under the ways handlers are put together, so that a
  handler is checked by its shape.
\<close>

definition keep :: "env \<Rightarrow> 'a op \<Rightarrow> bool" where
  "keep E m \<longleftrightarrow> does E (world_ok (\<lambda>_. True)) m (\<lambda>_. world_ok (\<lambda>_. True))"

lemma keep_ret: "keep E (ret x)"
  unfolding keep_def by (rule does_ret)

lemma keep_andthen: "keep E m \<Longrightarrow> (\<And>x. keep E (f x)) \<Longrightarrow> keep E (andthen m f)"
  unfolding keep_def by (rule does_andthen)

lemma keep_if: "(b \<Longrightarrow> keep E m) \<Longrightarrow> (\<not> b \<Longrightarrow> keep E m') \<Longrightarrow> keep E (if b then m else m')"
  by simp

lemma keep_option:
  "(x = None \<Longrightarrow> keep E m) \<Longrightarrow> (\<And>a. x = Some a \<Longrightarrow> keep E (f a)) \<Longrightarrow> keep E (case x of None \<Rightarrow> m | Some a \<Rightarrow> f a)"
  by (cases x) simp_all

lemma keep_sum:
  "(\<And>e. x = Inl e \<Longrightarrow> keep E (g e)) \<Longrightarrow> (\<And>a. x = Inr a \<Longrightarrow> keep E (f a)) \<Longrightarrow> keep E (case x of Inl e \<Rightarrow> g e | Inr a \<Rightarrow> f a)"
  by (cases x) simp_all

lemma keep_prod: "(\<And>a b. x = (a, b) \<Longrightarrow> keep E (f a b)) \<Longrightarrow> keep E (case x of (a, b) \<Rightarrow> f a b)"
  by (cases x) simp_all

lemma keep_list:
  "(x = [] \<Longrightarrow> keep E m) \<Longrightarrow> (\<And>a as. x = a # as \<Longrightarrow> keep E (f a as)) \<Longrightarrow> keep E (case x of [] \<Rightarrow> m | a # as \<Rightarrow> f a as)"
  by (cases x) simp_all

lemma keep_let: "(\<And>x. x = v \<Longrightarrow> keep E (f x)) \<Longrightarrow> keep E (let x = v in f x)"
  by simp

lemma keep_read: "env_ok E \<Longrightarrow> keep E (read_fsm f)"
  unfolding keep_def by (rule does_read)

lemma keep_time: "env_ok E \<Longrightarrow> keep E time_now"
  unfolding keep_def by (rule does_time_now)

lemma keep_rand: "env_ok E \<Longrightarrow> keep E (rand_read k)"
  unfolding keep_def by (rule does_conseq [OF does_rand_read], assumption, assumption, erule conjunct1)

lemma keep_nano: "env_ok E \<Longrightarrow> keep E now_unix_nano"
  unfolding keep_def by (rule does_conseq [OF does_unix_nano], assumption, assumption, erule conjunct1)

lemma keep_leader: "env_ok E \<Longrightarrow> keep E leader_addr" "env_ok E \<Longrightarrow> keep E leader_id"
  unfolding keep_def leader_addr_def leader_id_def by (rule does_query, assumption, assumption)+

lemma keep_apply: "env_ok E \<Longrightarrow> wire_ok w \<Longrightarrow> keep E (cluster_apply w)"
  unfolding keep_def by (rule does_cluster_apply) simp_all

lemma keep_pick: "env_ok E \<Longrightarrow> keep E (pick_host spec x)"
  unfolding pick_host_def by (rule keep_read)

lemmas json_ok_enc = json_ok_server json_ok_database json_ok_token json_ok_id

lemma keep_apply_server: "env_ok E \<Longrightarrow> keep E (apply_server v)"
  unfolding apply_server_def by (intro keep_andthen keep_nano keep_apply data_wire_ok) (assumption | erule json_ok_enc)+

lemma keep_secure_token: "env_ok E \<Longrightarrow> keep E generate_secure_token"
  unfolding generate_secure_token_def by (intro keep_andthen keep_rand keep_ret) assumption

lemma keep_prefix_id: "env_ok E \<Longrightarrow> keep E (prefix_id p)"
  unfolding prefix_id_def by (intro keep_andthen keep_rand keep_ret) assumption

lemma keep_finish: "keep E (finish e r)"
  unfolding finish_def by (rule keep_ret)

lemmas keep_shapes = keep_ret keep_andthen keep_if keep_option keep_sum keep_prod keep_list keep_let keep_finish
lemmas keep_steps = keep_read keep_time keep_rand keep_nano keep_leader keep_apply keep_pick
  keep_apply_server keep_secure_token keep_prefix_id

section \<open>The handlers\<close>

lemma keep_tokens: "env_ok E \<Longrightarrow> keep E (handle_tokens r)"
  unfolding handle_tokens_def
  by (intro keep_shapes keep_steps) (assumption | erule encode_wire_ok | erule json_ok_enc)+

lemma keep_one_token: "env_ok E \<Longrightarrow> keep E (handle_one_token r)"
  unfolding handle_one_token_def
  by (intro keep_shapes keep_steps) (assumption | erule encode_wire_ok | erule json_ok_enc)+

lemma keep_cluster_handlers:
  "env_ok E \<Longrightarrow> keep E (handle_healthz r)" "env_ok E \<Longrightarrow> keep E (handle_readyz r)"
  "env_ok E \<Longrightarrow> keep E (handle_nodes r)" "env_ok E \<Longrightarrow> keep E (handle_leader r)"
  "env_ok E \<Longrightarrow> keep E (handle_templates r)" "env_ok E \<Longrightarrow> keep E (handle_groups r)"
  "env_ok E \<Longrightarrow> keep E (handle_database_path r)"
  unfolding handle_healthz_def handle_readyz_def handle_nodes_def handle_leader_def handle_templates_def
    handle_groups_def handle_database_path_def not_allowed_def
  by (intro keep_shapes keep_steps; assumption)+

lemma keep_start: "env_ok E \<Longrightarrow> keep E (handle_start_server r)"
  unfolding handle_start_server_def new_server_id_def
  by (intro keep_shapes keep_steps) assumption+

lemma keep_servers: "env_ok E \<Longrightarrow> keep E (handle_servers r)"
  unfolding handle_servers_def not_allowed_def by (intro keep_shapes keep_steps keep_start) assumption+

lemma keep_databases: "env_ok E \<Longrightarrow> keep E (handle_databases r)"
  unfolding handle_databases_def handle_create_database_def new_database_id_def not_allowed_def
  by (intro keep_shapes keep_steps data_wire_ok) (assumption | erule encode_wire_ok | erule json_ok_enc)+

text \<open>What is asked of the docker controller and the HTTP client: that they return.\<close>

definition calls_keep :: "env \<Rightarrow> api_opts \<Rightarrow> bool" where
  "calls_keep E opts \<longleftrightarrow>
     (\<forall>d. ao_docker opts = Some d \<longrightarrow> (\<forall>i c. keep E (dk_exec d i c)) \<and> (\<forall>i b n. keep E (dk_logs d i b n)))
     \<and> (\<forall>u. keep E (ao_http_get opts u))"

lemma keep_server_path:
  assumes E: "env_ok E" and d: "\<And>d. docker = Some d \<Longrightarrow> (\<forall>i c. keep E (dk_exec d i c)) \<and> (\<forall>i b n. keep E (dk_logs d i b n))"
  shows "keep E (handle_server_path docker r)"
  unfolding handle_server_path_def handle_one_server_def handle_stop_server_def handle_restart_server_def
    write_state_def handle_logs_def handle_exec_def not_allowed_def
  by (intro keep_shapes keep_steps data_wire_ok E) (auto dest: d intro: json_ok_id)

lemma keep_ports: "env_ok E \<Longrightarrow> keep E (handle_ports r)"
  unfolding handle_ports_def handle_open_port_def not_allowed_def by (intro keep_shapes keep_steps) assumption+

lemma keep_port_path: "env_ok E \<Longrightarrow> keep E (handle_port_path r)"
  unfolding handle_port_path_def handle_open_port_for_server_def handle_close_port_for_server_def
    handle_server_port_def handle_flush_server_ports_def not_allowed_def
  by (intro keep_shapes keep_steps) assumption+

lemma keep_mod_search: "(\<And>u. keep E (http_get u)) \<Longrightarrow> keep E (handle_mod_search http_get r)"
  unfolding handle_mod_search_def search_modrinth_def search_curseforge_def not_allowed_def
  by (intro keep_shapes)

lemma keep_mod_install: "env_ok E \<Longrightarrow> keep E (handle_mod_install r)"
  unfolding handle_mod_install_def not_allowed_def by (intro keep_shapes keep_steps) assumption+

lemma keep_routes:
  assumes E: "env_ok E" and c: "calls_keep E opts" and h: "(p, h) \<in> set (all_routes opts)" and wb: "ao_workbench opts = None"
  shows "keep E (h r)"
proof -
  have "keep E (handle_server_path (ao_docker opts) r)"
    using c by (intro keep_server_path [OF E]) (auto simp: calls_keep_def)
  moreover have "keep E (handle_mod_search (ao_http_get opts) r)"
    using c by (intro keep_mod_search) (auto simp: calls_keep_def)
  ultimately show ?thesis
    using h wb E
    by (auto simp: all_routes_def rest_routes_def firewall_routes_def mod_routes_def rbac_routes_def
        intro: keep_cluster_handlers keep_servers keep_databases keep_ports keep_port_path keep_mod_install
          keep_tokens keep_one_token)
qed



end
