(* ===== verification/ApiServer.thy ===== *)
theory ApiServer
  imports ApiLaws
begin

text \<open>
  daemon/internal/api/server.go (\<open>New\<close>, \<open>Serve\<close>, \<open>Shutdown\<close>) and the end of \<open>run\<close> in
  daemon/cmd/aether-daemon/main.go: how the API server comes up and goes down. Three goroutines
  share the server: the one in \<open>Serve\<close>, the one in \<open>run\<close> that waits for a signal, and whoever of
  them gets to run the body of \<open>closeOnce\<close>; a step relation gives every interleaving of their
  statements, with what the network and the clients do in between.
\<close>

section \<open>The state\<close>

text \<open>A server that is not made yet, up, stopping gracefully, down.\<close>

datatype part = Unset | Up | Draining | Down

datatype once = OnceFresh | OnceRunning | OnceDone

text \<open>Both are ordered by the stages they pass.\<close>

fun part_stage :: "part \<Rightarrow> nat" where
  "part_stage Unset = 0"
| "part_stage Up = 1"
| "part_stage Draining = 2"
| "part_stage Down = 3"

fun once_stage :: "once \<Rightarrow> nat" where
  "once_stage OnceFresh = 0"
| "once_stage OnceRunning = 1"
| "once_stage OnceDone = 2"

lemma stage_inj: "part_stage x = part_stage y \<Longrightarrow> x = y" "once_stage a = once_stage b \<Longrightarrow> a = b"
  by (cases x; cases y; simp) (cases a; cases b; simp)

instantiation part :: linorder
begin

definition less_eq_part :: "part \<Rightarrow> part \<Rightarrow> bool" where
  "less_eq_part x y \<longleftrightarrow> part_stage x \<le> part_stage y"

definition less_part :: "part \<Rightarrow> part \<Rightarrow> bool" where
  "less_part x y \<longleftrightarrow> part_stage x < part_stage y"

instance
  by standard (auto simp: less_eq_part_def less_part_def dest: stage_inj)

end

instantiation once :: linorder
begin

definition less_eq_once :: "once \<Rightarrow> once \<Rightarrow> bool" where
  "less_eq_once x y \<longleftrightarrow> once_stage x \<le> once_stage y"

definition less_once :: "once \<Rightarrow> once \<Rightarrow> bool" where
  "less_once x y \<longleftrightarrow> once_stage x < once_stage y"

instance
  by standard (auto simp: less_eq_once_def less_once_def dest: stage_inj)

end

lemmas stage_defs = less_eq_part_def less_part_def less_eq_once_def less_once_def

text \<open>Where \<open>Serve\<close> is: before a statement, in the \<open>select\<close>, in \<open>s.shutdown()\<close>, or returned.\<close>

datatype serve_at =
    AtGrpcListen
  | AtHttpListen
  | AtMakeGrpc
  | AtMakeHttp
  | AtStartServing
  | InSelect
  | InShutdown err
  | Returned err
  | RoutesPanic

datatype main_at = WaitsForSignal | CallsShutdown | Exited

record api_server =
  av_serve :: serve_at
  av_main :: main_at
  av_once :: once
  av_grpc :: part
  av_http :: part
  av_grpc_bound :: bool
  av_http_bound :: bool
  av_cancelled :: bool
  av_streams :: nat

definition api_new :: api_server where
  "api_new = \<lparr>av_serve = AtGrpcListen, av_main = WaitsForSignal, av_once = OnceFresh, av_grpc = Unset, av_http = Unset,
     av_grpc_bound = False, av_http_bound = False, av_cancelled = False, av_streams = 0\<rparr>"

section \<open>The steps\<close>

datatype api_event =
    GrpcListens | GrpcListenFails go_error | HttpListens | HttpListenFails go_error
  | MakeGrpc | MakeHttp | StartServing | ServiceExits err | ContextDone go_error
  | Signal | OnceStarts | GrpcStopped | OnceEnds | ServeReturns | MainReturns
  | StreamOpens | StreamEnds

definition alive :: "api_server \<Rightarrow> bool" where
  "alive s \<longleftrightarrow> av_main s \<noteq> Exited \<and> av_serve s \<noteq> RoutesPanic"

text \<open>The goroutines that want \<open>closeOnce.Do\<close>. The second to come waits for the first.\<close>

definition wants_once :: "api_server \<Rightarrow> bool" where
  "wants_once s \<longleftrightarrow> (\<exists>e. av_serve s = InShutdown e) \<or> av_main s = CallsShutdown"

text \<open>
  \<open>GracefulStop\<close> closes the listener at once and returns when the last call has ended; a stream of
  events to a proxy is such a call, and ends when the proxy goes. The HTTP server is stopped
  after it. The context with which \<open>run\<close> calls \<open>Shutdown\<close> is not looked at.
\<close>

inductive api_step :: "api_opts \<Rightarrow> api_event \<Rightarrow> api_server \<Rightarrow> api_server \<Rightarrow> bool" for opts where
  grpc_fails: "alive s \<Longrightarrow> av_serve s = AtGrpcListen \<Longrightarrow>
    api_step opts (GrpcListenFails e) s (s\<lparr>av_serve := Returned (Some (ErrWrap ''grpc listen: '' e []))\<rparr>)"
| grpc_listens: "alive s \<Longrightarrow> av_serve s = AtGrpcListen \<Longrightarrow>
    api_step opts GrpcListens s (s\<lparr>av_serve := AtHttpListen, av_grpc_bound := True\<rparr>)"
| http_fails: "alive s \<Longrightarrow> av_serve s = AtHttpListen \<Longrightarrow>
    api_step opts (HttpListenFails e) s
      (s\<lparr>av_serve := Returned (Some (ErrWrap ''http listen: '' e [])), av_grpc_bound := False\<rparr>)"
| http_listens: "alive s \<Longrightarrow> av_serve s = AtHttpListen \<Longrightarrow>
    api_step opts HttpListens s (s\<lparr>av_serve := AtMakeGrpc, av_http_bound := True\<rparr>)"
| make_grpc: "alive s \<Longrightarrow> av_serve s = AtMakeGrpc \<Longrightarrow>
    api_step opts MakeGrpc s (s\<lparr>av_serve := AtMakeHttp, av_grpc := Up\<rparr>)"
| make_http: "alive s \<Longrightarrow> av_serve s = AtMakeHttp \<Longrightarrow>
    api_step opts MakeHttp s (if api_handler opts = None then s\<lparr>av_serve := RoutesPanic\<rparr>
      else s\<lparr>av_serve := AtStartServing, av_http := Up\<rparr>)"
| start_serving: "alive s \<Longrightarrow> av_serve s = AtStartServing \<Longrightarrow>
    api_step opts StartServing s (s\<lparr>av_serve := InSelect\<rparr>)"
| service_exits: "alive s \<Longrightarrow> av_serve s = InSelect \<Longrightarrow>
    api_step opts (ServiceExits e) s (s\<lparr>av_serve := InShutdown e\<rparr>)"
| context_done: "alive s \<Longrightarrow> av_serve s = InSelect \<Longrightarrow> av_cancelled s \<Longrightarrow>
    api_step opts (ContextDone e) s (s\<lparr>av_serve := InShutdown (Some e)\<rparr>)"
| signal: "alive s \<Longrightarrow> av_main s = WaitsForSignal \<Longrightarrow>
    api_step opts Signal s (s\<lparr>av_main := CallsShutdown, av_cancelled := True\<rparr>)"
| once_starts: "alive s \<Longrightarrow> wants_once s \<Longrightarrow> av_once s = OnceFresh \<Longrightarrow>
    api_step opts OnceStarts s (if av_grpc s = Up then s\<lparr>av_once := OnceRunning, av_grpc := Draining, av_grpc_bound := False\<rparr>
      else s\<lparr>av_once := OnceRunning\<rparr>)"
| grpc_stopped: "alive s \<Longrightarrow> av_once s = OnceRunning \<Longrightarrow> av_grpc s = Draining \<Longrightarrow> av_streams s = 0 \<Longrightarrow>
    api_step opts GrpcStopped s (s\<lparr>av_grpc := Down\<rparr>)"
| once_ends: "alive s \<Longrightarrow> av_once s = OnceRunning \<Longrightarrow> av_grpc s \<noteq> Draining \<Longrightarrow>
    api_step opts OnceEnds s (if av_http s = Up then s\<lparr>av_once := OnceDone, av_http := Down, av_http_bound := False\<rparr>
      else s\<lparr>av_once := OnceDone\<rparr>)"
| serve_returns: "alive s \<Longrightarrow> av_serve s = InShutdown e \<Longrightarrow> av_once s = OnceDone \<Longrightarrow>
    api_step opts ServeReturns s (s\<lparr>av_serve := Returned e\<rparr>)"
| main_returns: "alive s \<Longrightarrow> av_main s = CallsShutdown \<Longrightarrow> av_once s = OnceDone \<Longrightarrow>
    api_step opts MainReturns s (s\<lparr>av_main := Exited\<rparr>)"
| stream_opens: "alive s \<Longrightarrow> av_grpc s = Up \<Longrightarrow> av_serve s = InSelect \<or> (\<exists>e. av_serve s = InShutdown e) \<Longrightarrow>
    api_step opts StreamOpens s (s\<lparr>av_streams := Suc (av_streams s)\<rparr>)"
| stream_ends: "alive s \<Longrightarrow> av_streams s = Suc n \<Longrightarrow>
    api_step opts StreamEnds s (s\<lparr>av_streams := n\<rparr>)"

inductive api_run :: "api_opts \<Rightarrow> api_event list \<Rightarrow> api_server \<Rightarrow> api_server \<Rightarrow> bool" for opts where
  stop: "api_run opts [] s s"
| step: "api_step opts ev s s1 \<Longrightarrow> api_run opts evs s1 s2 \<Longrightarrow> api_run opts (ev # evs) s s2"

inductive_cases runE: "api_run opts evs s s'"

inductive_simps run_simps: "api_run opts [] s s'" "api_run opts (ev # evs) s s'"

inductive_simps step_simps:
  "api_step opts (GrpcListenFails e) s s'" "api_step opts GrpcListens s s'" "api_step opts (HttpListenFails e) s s'"
  "api_step opts HttpListens s s'" "api_step opts MakeGrpc s s'" "api_step opts MakeHttp s s'"
  "api_step opts StartServing s s'" "api_step opts (ServiceExits x) s s'" "api_step opts (ContextDone e) s s'"
  "api_step opts Signal s s'" "api_step opts OnceStarts s s'" "api_step opts GrpcStopped s s'" "api_step opts OnceEnds s s'"
  "api_step opts ServeReturns s s'" "api_step opts MainReturns s s'" "api_step opts StreamOpens s s'" "api_step opts StreamEnds s s'"

lemma run_append:
  "api_run opts evs s s1 \<Longrightarrow> api_run opts evs' s1 s2 \<Longrightarrow> api_run opts (evs @ evs') s s2"
  by (induction rule: api_run.induct) (auto intro: api_run.step)

text \<open>A property that every step keeps holds after a run.\<close>

lemma run_keeps:
  assumes "api_run opts evs s s'" and "P s"
    and "\<And>ev s s'. ev \<in> set evs \<Longrightarrow> api_step opts ev s s' \<Longrightarrow> P s \<Longrightarrow> P s'"
  shows "P s'"
  using assms by (induction rule: api_run.induct) auto

section \<open>No way back\<close>

text \<open>A part is not there before the statement that makes it.\<close>

definition not_yet :: "api_server \<Rightarrow> bool" where
  "not_yet s \<longleftrightarrow> (av_serve s \<in> {AtGrpcListen, AtHttpListen, AtMakeGrpc} \<longrightarrow> av_grpc s = Unset)
     \<and> (av_serve s \<in> {AtGrpcListen, AtHttpListen, AtMakeGrpc, AtMakeHttp} \<longrightarrow> av_http s = Unset)"

lemma not_yet_step: "api_step opts ev s s' \<Longrightarrow> not_yet s \<Longrightarrow> not_yet s'"
  by (induction rule: api_step.cases) (auto simp: not_yet_def)

lemma step_forward:
  assumes "api_step opts ev s s'" and "not_yet s"
  shows "av_grpc s \<le> av_grpc s' \<and> av_http s \<le> av_http s' \<and> av_once s \<le> av_once s'"
  using assms by (induction rule: api_step.cases) (auto simp: not_yet_def stage_defs)

text \<open>Whatever the interleaving, each of the two servers is made at most once and, once it is stopping,
  never comes up again, and the body of \<open>closeOnce\<close> runs at most once.\<close>

theorem stages_forward:
  assumes "api_run opts evs api_new s" and "api_run opts evs' s s'"
  shows "av_grpc s \<le> av_grpc s' \<and> av_http s \<le> av_http s' \<and> av_once s \<le> av_once s'"
proof -
  have "not_yet s"
    by (rule run_keeps [where P = not_yet, OF assms(1)]) (simp_all add: not_yet_step, simp add: not_yet_def api_new_def)
  with assms(2) show ?thesis
  proof (induction rule: api_run.induct)
    case (step ev s s1 evs s2)
    then show ?case using step_forward [OF step.hyps(1)] not_yet_step [OF step.hyps(1)] by (meson order.trans)
  qed simp
qed

section \<open>An orderly end\<close>

text \<open>The stages of a server that was serving when the shutdown began.\<close>

definition orderly :: "api_server \<Rightarrow> bool" where
  "orderly s \<longleftrightarrow> (\<exists>e. av_serve s \<in> {InSelect, InShutdown e, Returned e}) \<and>
     (case av_once s of
        OnceFresh \<Rightarrow> av_grpc s = Up \<and> av_http s = Up \<and> av_main s \<noteq> Exited \<and> (\<forall>e. av_serve s \<noteq> Returned e)
      | OnceRunning \<Rightarrow> (av_grpc s = Draining \<or> av_grpc s = Down \<and> av_streams s = 0) \<and> \<not> av_grpc_bound s
          \<and> av_http s = Up \<and> av_main s \<noteq> Exited \<and> (\<forall>e. av_serve s \<noteq> Returned e)
      | OnceDone \<Rightarrow> av_grpc s = Down \<and> av_streams s = 0 \<and> \<not> av_grpc_bound s \<and> av_http s = Down \<and> \<not> av_http_bound s)"

lemma orderly_step: "api_step opts ev s s' \<Longrightarrow> orderly s \<Longrightarrow> orderly s'"
  by (induction rule: api_step.cases) (auto simp: orderly_def split: once.splits)

text \<open>What holds of every server before anybody has asked for a shutdown.\<close>

definition coming_up :: "api_server \<Rightarrow> bool" where
  "coming_up s \<longleftrightarrow> (av_once s = OnceFresh \<longrightarrow>
     av_main s \<noteq> Exited
     \<and> (av_grpc s = (case av_serve s of AtGrpcListen \<Rightarrow> Unset | AtHttpListen \<Rightarrow> Unset | AtMakeGrpc \<Rightarrow> Unset
          | Returned e \<Rightarrow> Unset | _ \<Rightarrow> Up))
     \<and> (av_serve s \<in> {AtStartServing, InSelect} \<or> (\<exists>e. av_serve s = InShutdown e) \<longrightarrow> av_http s = Up))"

lemma coming_up_step: "api_step opts ev s s' \<Longrightarrow> coming_up s \<Longrightarrow> coming_up s'"
  by (induction rule: api_step.cases) (auto simp: coming_up_def)

definition serving :: "api_server \<Rightarrow> bool" where
  "serving s \<longleftrightarrow> av_serve s = InSelect \<and> av_once s = OnceFresh"

lemma serving_orderly:
  assumes "api_run opts evs api_new s" and "serving s"
  shows "orderly s"
proof -
  have "coming_up s"
    by (rule run_keeps [where P = coming_up, OF assms(1)]) (simp_all add: coming_up_step, simp add: coming_up_def api_new_def)
  with assms(2) show ?thesis by (auto simp: coming_up_def orderly_def serving_def)
qed

text \<open>With a route table that panics, which is the one of every daemon \<open>run\<close> starts, no run serves.\<close>

lemma panicking_routes_never_serve:
  assumes "api_handler opts = None" and "api_run opts evs api_new s"
  shows "\<not> serving s"
proof -
  have "av_serve s \<in> {AtGrpcListen, AtHttpListen, AtMakeGrpc, AtMakeHttp, RoutesPanic} \<or> (\<exists>e. av_serve s = Returned e)"
  proof (rule run_keeps [where P = "\<lambda>s. av_serve s \<in> {AtGrpcListen, AtHttpListen, AtMakeGrpc, AtMakeHttp, RoutesPanic}
      \<or> (\<exists>e. av_serve s = Returned e)", OF assms(2)])
    fix ev t t'
    assume "api_step opts ev t t'" and "av_serve t \<in> {AtGrpcListen, AtHttpListen, AtMakeGrpc, AtMakeHttp, RoutesPanic}
      \<or> (\<exists>e. av_serve t = Returned e)"
    then show "av_serve t' \<in> {AtGrpcListen, AtHttpListen, AtMakeGrpc, AtMakeHttp, RoutesPanic} \<or> (\<exists>e. av_serve t' = Returned e)"
      using assms(1) by (induction rule: api_step.cases) auto
  qed (simp add: api_new_def)
  then show ?thesis by (auto simp: serving_def)
qed

text \<open>When a server that was serving is told to stop, neither \<open>Serve\<close> nor \<open>run\<close> returns before both of
  its parts are down, their ports are free again, and no call is left; whoever of the two stopped
  them, and however often it was asked.\<close>

theorem shutdown_complete:
  assumes "api_run opts evs api_new s" and "serving s" and "api_run opts evs' s s'"
    and "av_main s' = Exited \<or> av_serve s' = Returned e"
  shows "av_grpc s' = Down \<and> av_http s' = Down \<and> \<not> av_grpc_bound s' \<and> \<not> av_http_bound s' \<and> av_streams s' = 0"
proof -
  have "orderly s'" by (rule run_keeps [where P = orderly, OF assms(3) serving_orderly [OF assms(1,2)]]) (rule orderly_step)
  with assms(4) show ?thesis by (auto simp: orderly_def split: once.splits)
qed

section \<open>A daemon that does not end\<close>

definition held_up :: "api_server \<Rightarrow> bool" where
  "held_up s \<longleftrightarrow> orderly s \<and> av_once s \<noteq> OnceDone \<and> av_streams s > 0"

lemma held_up_step: "api_step opts ev s s' \<Longrightarrow> ev \<noteq> StreamEnds \<Longrightarrow> held_up s \<Longrightarrow> held_up s'"
  unfolding held_up_def
  by (frule (1) orderly_step [OF _ conjunct1], erule api_step.cases) (auto simp: orderly_def split: once.splits)

lemma streams_end:
  assumes "alive s"
  shows "api_run opts (replicate (av_streams s) StreamEnds) s (s\<lparr>av_streams := 0\<rparr>)"
proof -
  have "api_run opts (replicate n StreamEnds) s (s\<lparr>av_streams := 0\<rparr>)" if "av_streams s = n" "alive s" for n s
    using that
  proof (induction n arbitrary: s)
    case 0
    then have "s\<lparr>av_streams := 0\<rparr> = s" by simp
    then show ?case by (simp add: run_simps)
  next
    case (Suc n)
    have "api_step opts StreamEnds s (s\<lparr>av_streams := n\<rparr>)" using Suc.prems by (auto intro: api_step.stream_ends)
    moreover have "api_run opts (replicate n StreamEnds) (s\<lparr>av_streams := n\<rparr>) (s\<lparr>av_streams := n, av_streams := 0\<rparr>)"
      by (rule Suc.IH) (use Suc.prems in \<open>simp_all add: alive_def\<close>)
    ultimately show ?case by (auto simp: run_simps)
  qed
  with assms show ?thesis by simp
qed

text \<open>Once every stream has ended the body of \<open>closeOnce\<close> runs to its end.\<close>

lemma once_completes:
  assumes "alive s" and "av_main s = CallsShutdown" and "av_streams s = 0"
  shows "\<exists>evs s'. api_run opts evs s s' \<and> alive s' \<and> av_main s' = CallsShutdown \<and> av_once s' = OnceDone"
proof -
  have drained: ?thesis if "alive t" "av_main t = CallsShutdown" "av_once t = OnceRunning" "av_grpc t \<noteq> Draining"
    and "api_run opts evs s t" for evs t
  proof -
    have "api_run opts [OnceEnds] t (if av_http t = Up then t\<lparr>av_once := OnceDone, av_http := Down, av_http_bound := False\<rparr>
        else t\<lparr>av_once := OnceDone\<rparr>)"
      using that by (simp add: run_simps step_simps)
    note r = run_append [OF that(5) this]
    show ?thesis by (rule exI, rule exI, rule conjI [OF r]) (use that in \<open>simp add: alive_def\<close>)
  qed
  have running: ?thesis if "alive t" "av_main t = CallsShutdown" "av_once t = OnceRunning" "av_streams t = 0"
    and "api_run opts evs s t" for evs t
  proof (cases "av_grpc t = Draining")
    case True
    have "api_run opts [GrpcStopped] t (t\<lparr>av_grpc := Down\<rparr>)"
      using that True by (simp add: run_simps step_simps)
    from run_append [OF that(5) this] that show ?thesis
      by (intro drained [of "t\<lparr>av_grpc := Down\<rparr>" "evs @ [GrpcStopped]"]) (simp_all add: alive_def)
  qed (use drained that in blast)
  have nil: "api_run opts [] s s" by (rule api_run.stop)
  show ?thesis
  proof (cases "av_once s")
    case OnceFresh
    obtain t where t: "t = (if av_grpc s = Up then s\<lparr>av_once := OnceRunning, av_grpc := Draining, av_grpc_bound := False\<rparr>
      else s\<lparr>av_once := OnceRunning\<rparr>)" by blast
    have "api_run opts [OnceStarts] s t"
      using assms OnceFresh by (simp add: run_simps step_simps wants_once_def t)
    moreover have "alive t" "av_main t = CallsShutdown" "av_once t = OnceRunning" "av_streams t = 0"
      using assms by (simp_all add: t alive_def)
    ultimately show ?thesis by (rule running [rotated -1])
  next
    case OnceRunning
    with running [OF assms(1,2) _ assms(3) nil] show ?thesis by blast
  next
    case OnceDone
    with assms nil show ?thesis by blast
  qed
qed

lemma exit_possible:
  assumes "alive s" and "av_main s = CallsShutdown"
  shows "\<exists>evs' s'. api_run opts evs' s s' \<and> av_main s' = Exited"
proof -
  have "alive (s\<lparr>av_streams := 0\<rparr>)" "av_main (s\<lparr>av_streams := 0\<rparr>) = CallsShutdown" "av_streams (s\<lparr>av_streams := 0\<rparr>) = 0"
    using assms by (simp_all add: alive_def)
  from once_completes [OF this] obtain evs' s1 where 1: "api_run opts evs' (s\<lparr>av_streams := 0\<rparr>) s1"
    and s1: "alive s1" "av_main s1 = CallsShutdown" "av_once s1 = OnceDone" by blast
  have "api_run opts [MainReturns] s1 (s1\<lparr>av_main := Exited\<rparr>)"
    using s1 by (simp add: run_simps step_simps)
  note r = run_append [OF run_append [OF streams_end [OF assms(1)] 1] this]
  show ?thesis by (rule exI, rule exI, rule conjI [OF r]) simp
qed



end
