(* ===== verification/Rcon.thy ===== *)
theory Rcon
  imports GoStrings
begin

text \<open>
  daemon/internal/rcon/client.go: the RCON client. A connection is the bytes that arrive on it
  until reading fails, the error it then fails with (end of file, a timeout), what was
  written, and which writes fail after how many bytes. \<open>None\<close> is a crash of the process.
\<close>

section \<open>Connections\<close>

record conn =
  cn_in :: "u8 list"
  cn_end :: go_error
  cn_out :: "u8 list"
  cn_writes :: nat
  cn_fails :: "nat \<Rightarrow> (nat \<times> go_error) option"

text \<open>\<open>io.ReadFull\<close>: an end of file after some of the bytes is an unexpected one.\<close>

definition read_full :: "nat \<Rightarrow> conn \<Rightarrow> u8 list result \<times> conn" where
  "read_full n c =
     (if n \<le> length (cn_in c) then (Inr (take n (cn_in c)), c\<lparr>cn_in := drop n (cn_in c)\<rparr>)
      else (Inl (if cn_in c \<noteq> [] \<and> cn_end c = ErrEOF then ErrUnexpectedEOF else cn_end c), c\<lparr>cn_in := []\<rparr>))"

definition conn_write :: "u8 list \<Rightarrow> conn \<Rightarrow> err \<times> conn" where
  "conn_write bs c =
     (let c' = c\<lparr>cn_writes := Suc (cn_writes c)\<rparr> in
      case cn_fails c (cn_writes c) of
        None \<Rightarrow> (None, c'\<lparr>cn_out := cn_out c @ bs\<rparr>)
      | Some (n, e) \<Rightarrow> (Some e, c'\<lparr>cn_out := cn_out c @ take n bs\<rparr>))"

section \<open>Packets\<close>

text \<open>\<open>binary.LittleEndian\<close>, and \<open>copy(buf[off:], bs)\<close>.\<close>

definition le32 :: "u32 \<Rightarrow> u8 list" where
  "le32 x = [ucast x, ucast (drop_bit 8 x), ucast (drop_bit 16 x), ucast (drop_bit 24 x)]"

definition un_le32 :: "u8 list \<Rightarrow> u32" where
  "un_le32 bs = ucast (bs ! 0) OR push_bit 8 (ucast (bs ! 1)) OR push_bit 16 (ucast (bs ! 2))
     OR push_bit 24 (ucast (bs ! 3))"

definition copy_at :: "nat \<Rightarrow> u8 list \<Rightarrow> u8 list \<Rightarrow> u8 list" where
  "copy_at off bs buf = take off buf @ take (length buf - off) bs @ drop (off + length bs) buf"

definition packetTypeAuth :: u32 where "packetTypeAuth = 3"
definition packetTypeCommand :: u32 where "packetTypeCommand = 2"
definition maxPacketSize :: int where "maxPacketSize = 4096"

text \<open>
  The buffer of \<open>writePacket\<close>. The size is an \<open>int32\<close>; \<open>make\<close> panics on a negative length and
  the three \<open>PutUint32\<close> on a buffer shorter than 12 bytes.
\<close>

definition frame :: "u32 \<Rightarrow> u32 \<Rightarrow> string \<Rightarrow> u8 list option" where
  "frame pid ptype body =
     (let size = word_of_nat (4 + 4 + length body + 2) :: u32; n = sint (4 + size) in
      if n < 12 then None
      else Some (copy_at 12 (bytes_of body) (copy_at 8 (le32 ptype) (copy_at 4 (le32 pid)
             (copy_at 0 (le32 size) (replicate (nat n) 0))))))"

definition write_packet :: "u32 \<Rightarrow> u32 \<Rightarrow> string \<Rightarrow> conn \<Rightarrow> (err \<times> conn) option" where
  "write_packet pid ptype body c = map_option (\<lambda>buf. conn_write buf c) (frame pid ptype body)"

definition read_packet :: "conn \<Rightarrow> (u32 \<times> u32 \<times> u8 list) result \<times> conn" where
  "read_packet c =
     (case read_full 4 c of
        (Inl e, c1) \<Rightarrow> (Inl e, c1)
      | (Inr size_buf, c1) \<Rightarrow>
          (let size = uint (un_le32 size_buf) in
           if size < 10 \<or> size > maxPacketSize
           then (Inl (Errorf (''rcon: invalid packet size '' @ itoa size)), c1)
           else case read_full (nat size) c1 of
                  (Inl e, c2) \<Rightarrow> (Inl e, c2)
                | (Inr pkt, c2) \<Rightarrow>
                    (Inr (un_le32 pkt, un_le32 (drop 4 pkt),
                       if size > 10 then take (nat size - 2 - 8) (drop 8 pkt) else []), c2)))"

section \<open>The client\<close>

record client =
  rc_conn :: conn
  rc_counter :: u32

text \<open>The loop of \<open>Command\<close>: every packet takes bytes off the connection.\<close>

lemma read_full_shorter: "read_full n c = (Inr x, c') \<Longrightarrow> length (cn_in c) = n + length (cn_in c')"
  by (auto simp: read_full_def split: if_splits)

lemma read_packet_shorter: "read_packet c = (Inr p, c') \<Longrightarrow> length (cn_in c') < length (cn_in c)"
  by (auto simp: read_packet_def Let_def split: prod.splits sum.splits if_splits
      dest!: read_full_shorter)

function command_loop :: "u32 \<Rightarrow> u8 list \<Rightarrow> conn \<Rightarrow> (string \<times> err) \<times> conn" where
  "command_loop pid out c =
     (case read_packet c of
        (Inl e, c') \<Rightarrow> ((string_of out, Some e), c')
      | (Inr (rid, _, body), c') \<Rightarrow>
          if rid = pid then ((string_of (out @ body), None), c')
          else command_loop pid (out @ body) c')"
  by pat_completeness auto
termination
  by (relation "measure (\<lambda>(_, _, c). length (cn_in c))") (auto dest: read_packet_shorter [OF sym])

declare command_loop.simps [simp del]

definition rcon_command :: "string \<Rightarrow> client \<Rightarrow> ((string \<times> err) \<times> client) option" where
  "rcon_command cmd c =
     (let pid = rc_counter c + 1 in
      case write_packet pid packetTypeCommand cmd (rc_conn c) of
        None \<Rightarrow> None
      | Some (Some e, k) \<Rightarrow> Some (([], Some e), \<lparr>rc_conn = k, rc_counter = pid\<rparr>)
      | Some (None, k) \<Rightarrow>
          (case command_loop pid [] k of (r, k') \<Rightarrow> Some (r, \<lparr>rc_conn = k', rc_counter = pid\<rparr>)))"

definition rcon_auth :: "string \<Rightarrow> conn \<Rightarrow> (err \<times> conn) option" where
  "rcon_auth password c =
     (case write_packet 1 packetTypeAuth password c of
        None \<Rightarrow> None
      | Some (Some e, k) \<Rightarrow> Some (Some e, k)
      | Some (None, k) \<Rightarrow>
          Some (case read_packet k of
             (Inl e, k') \<Rightarrow> (Some e, k')
           | (Inr (_, ptype, _), k') \<Rightarrow>
               (if ptype = -1 then Some (Errorf ''authentication failed'') else None, k')))"

text \<open>\<open>Dial\<close>, given what \<open>net.DialTimeout\<close> answers.\<close>

definition rcon_dial :: "conn result \<Rightarrow> string \<Rightarrow> client result option" where
  "rcon_dial r password =
     (case r of
        Inl e \<Rightarrow> Some (Inl (ErrWrap ''rcon dial: '' e []))
      | Inr conn \<Rightarrow>
          (case rcon_auth password conn of
             None \<Rightarrow> None
           | Some (Some e, _) \<Rightarrow> Some (Inl (ErrWrap ''rcon auth: '' e []))
           | Some (None, k) \<Rightarrow> Some (Inr \<lparr>rc_conn = k, rc_counter = 0\<rparr>)))"

text \<open>\<open>DialWithRetry\<close>; the answers of the network are listed per attempt.\<close>

fun dial_attempts :: "(nat \<Rightarrow> conn result) \<Rightarrow> string \<Rightarrow> nat \<Rightarrow> nat \<Rightarrow> err \<Rightarrow> client result option" where
  "dial_attempts net password i 0 last_err =
     Some (Inl (case last_err of
        None \<Rightarrow> Errorf ''rcon: max retries exceeded: %!w(<nil>)''
      | Some e \<Rightarrow> ErrWrap ''rcon: max retries exceeded: '' e []))"
| "dial_attempts net password i (Suc n) last_err =
     (case rcon_dial (net i) password of
        None \<Rightarrow> None
      | Some (Inr c) \<Rightarrow> Some (Inr c)
      | Some (Inl e) \<Rightarrow> dial_attempts net password (Suc i) n (Some e))"

definition dial_with_retry :: "(nat \<Rightarrow> conn result) \<Rightarrow> string \<Rightarrow> int \<Rightarrow> client result option" where
  "dial_with_retry net password max_retries = dial_attempts net password 0 (nat max_retries) None"


section \<open>Packets on the wire\<close>

lemma length_le32 [simp]: "length (le32 x) = 4"
  by (simp add: le32_def)

lemma un_le32_le32 [simp]: "un_le32 (le32 x @ r) = x"
proof (rule bit_word_eqI)
  fix n :: nat assume "n < LENGTH(32)"
  then consider "n < 8" | "8 \<le> n" "n < 16" | "16 \<le> n" "n < 24" | "24 \<le> n" "n < 32" by force
  then show "bit (un_le32 (le32 x @ r)) n \<longleftrightarrow> bit x n"
    by cases (simp_all add: un_le32_def le32_def bit_simps less_diff_conv2)
qed

lemma un_le32_le32_nil [simp]: "un_le32 (le32 x) = x"
  using un_le32_le32 [of x "[]"] by simp

definition packet :: "u32 \<Rightarrow> u32 \<Rightarrow> string \<Rightarrow> u8 list" where
  "packet pid ptype body =
     le32 (word_of_nat (10 + length body)) @ le32 pid @ le32 ptype @ bytes_of body @ [0, 0]"

lemma copy_at_replicate:
  "length a = off \<Longrightarrow> copy_at off bs (a @ replicate (length bs + n) z) = a @ bs @ replicate n z"
  by (simp add: copy_at_def)

lemma frame_is_packet:
  assumes "length body < 2 ^ 31 - 14"
  shows "frame pid ptype body = Some (packet pid ptype body)"
proof -
  let ?z = "\<lambda>n. replicate n (0 :: u8)"
  have t: "4 + 4 + length body + 2 = 10 + length body" by simp
  have s: "(4 :: u32) + word_of_nat (10 + length body) = word_of_nat (14 + length body)" by simp
  have pos: "\<not> int (14 + length body) < 12" by simp
  have n: "sint (word_of_nat (14 + length body) :: u32) = int (14 + length body)"
    using assms by (simp add: signed_of_nat signed_take_bit_int_eq_self del: of_nat_add of_nat_numeral)
  have len: "nat (int (14 + length body)) = 4 + (4 + (4 + (length (bytes_of body) + 2)))" by simp
  have "copy_at 0 (le32 x) (?z (4 + n)) = le32 x @ ?z n" for x n
    using copy_at_replicate [of "[]" 0 "le32 x" n 0] by simp
  moreover have "copy_at 4 (le32 y) (le32 x @ ?z (4 + n)) = (le32 x @ le32 y) @ ?z n" for x y n
    using copy_at_replicate [of "le32 x" 4 "le32 y" n 0] by simp
  moreover have "copy_at 8 (le32 w) ((le32 x @ le32 y) @ ?z (4 + n)) = (le32 x @ le32 y @ le32 w) @ ?z n" for x y w n
    using copy_at_replicate [of "le32 x @ le32 y" 8 "le32 w" n 0] by simp
  moreover have "copy_at 12 b ((le32 x @ le32 y @ le32 w) @ ?z (length b + 2))
      = le32 x @ le32 y @ le32 w @ b @ [0, 0]" for x y w b
    using copy_at_replicate [of "le32 x @ le32 y @ le32 w" 12 b 2 0] by (simp add: numeral_2_eq_2)
  ultimately show ?thesis
    unfolding frame_def Let_def t s n if_not_P [OF pos] len packet_def by (simp only: append_assoc)
qed

lemma length_packet [simp]: "length (packet pid ptype body) = 14 + length body"
  by (simp add: packet_def)

text \<open>The reader accepts the packets whose body has at most 4086 bytes.\<close>

lemma read_full_append [simp]:
  "read_full (length a) (c\<lparr>cn_in := a @ b\<rparr>) = (Inr a, c\<lparr>cn_in := b\<rparr>)"
  by (simp add: read_full_def)

lemma read_packet_packet:
  assumes "length body < 2 ^ 31 - 14"
  shows "read_packet (c\<lparr>cn_in := packet pid ptype body @ rest\<rparr>) =
     (if length body \<le> 4086 then (Inr (pid, ptype, bytes_of body), c\<lparr>cn_in := rest\<rparr>)
      else (Inl (Errorf (''rcon: invalid packet size '' @ itoa (10 + int (length body)))),
            c\<lparr>cn_in := le32 pid @ le32 ptype @ bytes_of body @ [0, 0] @ rest\<rparr>))"
proof -
  let ?n = "10 + length body"
  let ?body = "le32 pid @ le32 ptype @ bytes_of body @ [0, 0]"
  have size: "uint (word_of_nat ?n :: u32) = int ?n"
    using assms by (simp add: unsigned_of_nat take_bit_nat_eq_self flip: uint_nat del: of_nat_add of_nat_numeral)
  have read4: "read_full 4 (c\<lparr>cn_in := packet pid ptype body @ rest\<rparr>) =
      (Inr (le32 (word_of_nat ?n)), c\<lparr>cn_in := ?body @ rest\<rparr>)"
    using read_full_append [of "le32 (word_of_nat ?n)" "?body @ rest" c] by (simp add: packet_def)
  have readn: "read_full ?n (c\<lparr>cn_in := ?body @ rest\<rparr>) = (Inr ?body, c\<lparr>cn_in := rest\<rparr>)"
    using read_full_append [of ?body rest c] by simp
  have parts: "un_le32 ?body = pid" "un_le32 (drop 4 ?body) = ptype"
    "(if int ?n > 10 then take (?n - 2 - 8) (drop 8 ?body) else []) = bytes_of body"
    by (simp_all, simp add: bytes_of_def)
  note read = read_packet_def read4 prod.case sum.case Let_def un_le32_le32_nil size
  show ?thesis
  proof (cases "length body \<le> 4086")
    case True
    then have ok: "\<not> (int ?n < 10 \<or> int ?n > maxPacketSize)" by (simp add: maxPacketSize_def)
    show ?thesis
      unfolding read if_not_P [OF ok] nat_int readn parts if_P [OF True] ..
  next
    case False
    then have big: "int ?n < 10 \<or> int ?n > maxPacketSize" by (simp add: maxPacketSize_def)
    show ?thesis
      unfolding read if_P [OF big] if_not_P [OF False] by simp
  qed
qed

section \<open>Commands\<close>

text \<open>Packets with other ids are passed over, their bodies kept.\<close>

definition packets :: "(u32 \<times> u32 \<times> string) list \<Rightarrow> u8 list" where
  "packets ps = concat (map (\<lambda>(pid, ptype, body). packet pid ptype body) ps)"

definition bodies :: "(u32 \<times> u32 \<times> string) list \<Rightarrow> string" where
  "bodies ps = concat (map (\<lambda>(_, _, body). body) ps)"

definition small :: "string \<Rightarrow> bool" where
  "small body \<longleftrightarrow> length body \<le> 4086"

lemma read_packet_small:
  "small body \<Longrightarrow> read_packet (c\<lparr>cn_in := packet pid ptype body @ rest\<rparr>) =
     (Inr (pid, ptype, bytes_of body), c\<lparr>cn_in := rest\<rparr>)"
  using read_packet_packet [where c = c and rest = rest] by (simp add: small_def)

lemma command_loop_packets:
  assumes "\<forall>(rid, _, b)\<in>set ps. rid \<noteq> pid \<and> small b" and "small body"
  shows "command_loop pid out (c\<lparr>cn_in := packets ps @ packet pid ptype body @ rest\<rparr>) =
    ((string_of out @ bodies ps @ body, None), c\<lparr>cn_in := rest\<rparr>)"
  using assms(1)
proof (induction ps arbitrary: out)
  case Nil
  show ?case
    by (subst command_loop.simps)
      (simp add: packets_def bodies_def read_packet_small [OF assms(2)])
next
  case (Cons p ps)
  obtain rid t b where p: "p = (rid, t, b)" by (cases p)
  with Cons.prems have b: "rid \<noteq> pid" "small b" and ps: "\<forall>(rid, _, b)\<in>set ps. rid \<noteq> pid \<and> small b" by auto
  have "packets (p # ps) @ packet pid ptype body @ rest
      = packet rid t b @ packets ps @ packet pid ptype body @ rest"
    by (simp add: packets_def p)
  with b Cons.IH [OF ps, where out = "out @ bytes_of b"] show ?case
    by (subst command_loop.simps) (simp add: read_packet_small bodies_def p)
qed

text \<open>The request a command sends, when the connection accepts it.\<close>

definition writable :: "conn \<Rightarrow> bool" where
  "writable c \<longleftrightarrow> cn_fails c (cn_writes c) = None"

definition sent :: "u8 list \<Rightarrow> conn \<Rightarrow> conn" where
  "sent bs c = c\<lparr>cn_out := cn_out c @ bs, cn_writes := Suc (cn_writes c)\<rparr>"

lemma write_packet_sent:
  "writable c \<Longrightarrow> length body < 2 ^ 31 - 14 \<Longrightarrow>
     write_packet pid ptype body c = Some (None, sent (packet pid ptype body) c)"
  by (simp add: write_packet_def frame_is_packet conn_write_def writable_def sent_def)

lemma rcon_command_answer:
  assumes "writable (rc_conn c)" and "length cmd < 2 ^ 31 - 14"
    and "cn_in (rc_conn c) = packets ps @ packet (rc_counter c + 1) ptype body @ rest"
    and "\<forall>(rid, _, b)\<in>set ps. rid \<noteq> rc_counter c + 1 \<and> small b" and "small body"
  shows "rcon_command cmd c = Some ((bodies ps @ body, None),
    \<lparr>rc_conn = (sent (packet (rc_counter c + 1) packetTypeCommand cmd) (rc_conn c))\<lparr>cn_in := rest\<rparr>,
     rc_counter = rc_counter c + 1\<rparr>)"
proof -
  let ?k = "sent (packet (rc_counter c + 1) packetTypeCommand cmd) (rc_conn c)"
  have "?k = ?k\<lparr>cn_in := packets ps @ packet (rc_counter c + 1) ptype body @ rest\<rparr>"
    using assms(3) by (simp add: sent_def)
  with command_loop_packets [OF assms(4,5), where out = "[]" and c = ?k and ptype = ptype and rest = rest]
  have loop: "command_loop (rc_counter c + 1) [] ?k =
      ((bodies ps @ body, None), ?k\<lparr>cn_in := rest\<rparr>)" by (simp add: string_of_def)
  show ?thesis
    by (simp add: rcon_command_def Let_def write_packet_sent [OF assms(1,2)] loop)
qed

text \<open>What was read off a connection.\<close>

lemma read_packet_consumes:
  "read_packet c = (r, c') \<Longrightarrow> \<exists>used. cn_in c = used @ cn_in c'
     \<and> (case r of Inl _ \<Rightarrow> True | Inr (_, _, b) \<Rightarrow> 14 + length b = length used)"
proof -
  have full: "read_full n d = (q, d') \<Longrightarrow> \<exists>used. cn_in d = used @ cn_in d'
     \<and> (case q of Inl _ \<Rightarrow> True | Inr x \<Rightarrow> x = used \<and> length used = n)" for n d q d'
    by (auto simp: read_full_def intro: exI [of _ "take n (cn_in d)"] split: if_splits)
  assume r: "read_packet c = (r, c')"
  obtain q c1 where q: "read_full 4 c = (q, c1)" by (cases "read_full 4 c")
  from full [OF q] obtain u where u: "cn_in c = u @ cn_in c1"
    "case q of Inl _ \<Rightarrow> True | Inr x \<Rightarrow> x = u \<and> length u = 4" by blast
  show ?thesis
  proof (cases q)
    case (Inl e)
    with r q u show ?thesis by (auto simp: read_packet_def)
  next
    case (Inr sz)
    let ?n = "uint (un_le32 sz)"
    show ?thesis
    proof (cases "?n < 10 \<or> ?n > maxPacketSize")
      case True
      with r q Inr u show ?thesis by (auto simp: read_packet_def Let_def)
    next
      case False
      obtain q2 c2 where q2: "read_full (nat ?n) c1 = (q2, c2)" by (cases "read_full (nat ?n) c1")
      from full [OF q2] obtain v where v: "cn_in c1 = v @ cn_in c2"
        "case q2 of Inl _ \<Rightarrow> True | Inr x \<Rightarrow> x = v \<and> length v = nat ?n" by blast
      show ?thesis
      proof (cases q2)
        case (Inl e)
        with r q q2 Inr False u v show ?thesis by (auto simp: read_packet_def Let_def)
      next
        case (Inr pkt)
        have "r = Inr (un_le32 pkt, un_le32 (drop 4 pkt),
            if ?n > 10 then take (nat ?n - 2 - 8) (drop 8 pkt) else [])" "c' = c2"
          using r q q2 \<open>q = Inr sz\<close> Inr False by (auto simp: read_packet_def Let_def)
        with u v \<open>q = Inr sz\<close> Inr False show ?thesis
          by (intro exI [of _ "u @ v"]) (auto simp: unat_eq_nat_uint simp del: nat_uint_eq)
      qed
    qed
  qed
qed

section \<open>Properties of the client\<close>

text \<open>C24. Packets survive the wire: what \<open>writePacket\<close> puts on a connection, \<open>readPacket\<close> takes
  off another one as the same id, type and body, leaving the bytes behind it, for every body
  of at most 4086 bytes. A longer body is still written, and refused by the reader.\<close>

theorem rcon_roundtrip:
  assumes "writable c" and "length body < 2 ^ 31 - 14"
  shows "\<exists>c' wire. write_packet pid ptype body c = Some (None, c') \<and> cn_out c' = cn_out c @ wire
    \<and> (length body \<le> 4086 \<longrightarrow>
        read_packet (d\<lparr>cn_in := wire @ rest\<rparr>) = (Inr (pid, ptype, bytes_of body), d\<lparr>cn_in := rest\<rparr>))
    \<and> (length body > 4086 \<longrightarrow> fst (read_packet (d\<lparr>cn_in := wire @ rest\<rparr>)) =
        Inl (Errorf (''rcon: invalid packet size '' @ itoa (10 + int (length body)))))"
  unfolding write_packet_sent [OF assms]
  by (intro exI [of _ "sent (packet pid ptype body) c"] exI [of _ "packet pid ptype body"])
    (simp add: sent_def read_packet_packet [OF assms(2)])

definition demo_conn :: "u8 list \<Rightarrow> conn" where
  "demo_conn bs = \<lparr>cn_in = bs, cn_end = ErrEOF, cn_out = [], cn_writes = 0, cn_fails = \<lambda>_. None\<rparr>"

lemma demo_conn_writable [simp]: "writable (demo_conn bs)" "writable (sent b (demo_conn bs))"
  by (simp_all add: writable_def demo_conn_def sent_def)

lemma demo_conn_in [simp]: "cn_in (demo_conn bs) = bs" "cn_out (demo_conn bs) = []"
  by (simp_all add: demo_conn_def)

theorem rcon_roundtrip_witness:
  "\<exists>c' wire. write_packet 7 2 ''list'' (demo_conn []) = Some (None, c') \<and> cn_out c' = wire
     \<and> read_packet ((demo_conn [])\<lparr>cn_in := wire @ [1]\<rparr>) =
         (Inr (7, 2, bytes_of ''list''), (demo_conn [])\<lparr>cn_in := [1]\<rparr>)"
  using rcon_roundtrip [where c = "demo_conn []" and body = "''list''" and pid = 7 and ptype = 2
      and d = "demo_conn []" and rest = "[1]"]
  by simp

text \<open>C26. One packet ends a command. When the server splits an answer over two packets with the
  request's id, as Minecraft does above 4096 bytes, \<open>Command\<close> returns the first part
  without an error and the next command returns the rest in front of its own answer.\<close>

theorem fragments_leak:
  assumes "writable (rc_conn k)" and "writable (sent (packet (rc_counter k + 1) 2 cmd) (rc_conn k))"
    and "small cmd" and "small cmd'" and "small a" and "small b" and "small c"
    and "cn_in (rc_conn k) =
      packet (rc_counter k + 1) 0 a @ packet (rc_counter k + 1) 0 b @ packet (rc_counter k + 2) 0 c"
  shows "\<exists>k1 k2. rcon_command cmd k = Some ((a, None), k1)
    \<and> rcon_command cmd' k1 = Some ((b @ c, None), k2)"
proof -
  have len: "length cmd < 2 ^ 31 - 14" "length cmd' < 2 ^ 31 - 14"
    using assms(3,4) by (simp_all add: small_def)
  let ?in1 = "packet (rc_counter k + 1) 0 b @ packet (rc_counter k + 2) 0 c"
  let ?k1 = "\<lparr>rc_conn = (sent (packet (rc_counter k + 1) packetTypeCommand cmd) (rc_conn k))\<lparr>cn_in := ?in1\<rparr>,
     rc_counter = rc_counter k + 1\<rparr>"
  have one: "rcon_command cmd k = Some ((a, None), ?k1)"
    using rcon_command_answer [OF assms(1) len(1), where ps = "[]" and ptype = 0 and body = a and rest = ?in1] assms(5,8)
    by (simp add: packets_def bodies_def)
  have "writable (rc_conn ?k1)"
    using assms(2) by (simp add: writable_def packetTypeCommand_def)
  from rcon_command_answer [OF this len(2), where ps = "[(rc_counter k + 1, 0, b)]" and ptype = 0 and body = c and rest = "[]"] assms(6,7)
  have "\<exists>k2. rcon_command cmd' ?k1 = Some ((b @ c, None), k2)"
    by (simp add: packets_def bodies_def add.assoc)
  with one show ?thesis by blast
qed

theorem fragments_leak_witness:
  "\<exists>k1 k2. rcon_command ''list'' \<lparr>rc_conn = demo_conn
       (packet 1 0 ''alice'' @ packet 1 0 ''bob'' @ packet 2 0 ''saved''), rc_counter = 0\<rparr>
       = Some ((''alice'', None), k1)
     \<and> rcon_command ''save'' k1 = Some ((''bobsaved'', None), k2)"
  using fragments_leak [of "\<lparr>rc_conn = demo_conn
       (packet 1 0 ''alice'' @ packet 1 0 ''bob'' @ packet 2 0 ''saved''), rc_counter = 0\<rparr>"
      "''list''" "''save''" "''alice''" "''bob''" "''saved''"]
  by (simp add: small_def)

text \<open>A refused password is taken for an accepted one. The protocol answers a wrong password
  with the id -1 and type 2; \<open>auth\<close> tests the type, so \<open>Dial\<close> hands out a client whatever
  id the server answers with, for every password.\<close>

theorem refused_password_accepted:
  assumes "writable conn" and "length password < 2 ^ 31 - 14" and "small body" and "ptype \<noteq> -1"
    and "cn_in conn = packet pid ptype body @ rest"
  shows "\<exists>c. rcon_dial (Inr conn) password = Some (Inr c) \<and> cn_in (rc_conn c) = rest"
proof -
  let ?k = "sent (packet 1 packetTypeAuth password) conn"
  have "?k = ?k\<lparr>cn_in := packet pid ptype body @ rest\<rparr>" using assms(5) by (simp add: sent_def)
  with read_packet_small [OF assms(3), where c = ?k and pid = pid and ptype = ptype and rest = rest]
  have "read_packet ?k = (Inr (pid, ptype, bytes_of body), ?k\<lparr>cn_in := rest\<rparr>)" by simp
  with assms(4) show ?thesis
    by (simp add: rcon_dial_def rcon_auth_def write_packet_sent [OF assms(1,2)])
qed

theorem refused_password_accepted_witness:
  "\<exists>c. rcon_dial (Inr (demo_conn (packet (-1) 2 []))) ''wrong'' = Some (Inr c)"
  using refused_password_accepted [where conn = "demo_conn (packet (-1) 2 [])" and password = "''wrong''"
      and body = "[]" and ptype = 2 and pid = "-1" and rest = "[]"]
  by (auto simp: small_def)

text \<open>What the read loop takes off the connection.\<close>

lemma command_loop_consumes:
  "command_loop pid out c = ((s, e), c') \<Longrightarrow>
    \<exists>used. cn_in c = used @ cn_in c' \<and> length s \<le> length out + length used
      \<and> (e = None \<longrightarrow> 14 + length s \<le> length out + length used)"
proof (induction pid out c rule: command_loop.induct)
  case (1 pid out c)
  obtain r c1 where r: "read_packet c = (r, c1)" by (cases "read_packet c")
  from read_packet_consumes [OF r] obtain u where u: "cn_in c = u @ cn_in c1"
    "case r of Inl _ \<Rightarrow> True | Inr (_, _, b) \<Rightarrow> 14 + length b = length u" by blast
  show ?case
  proof (cases r)
    case (Inl er)
    with r 1(2) u show ?thesis by (subst (asm) command_loop.simps) (auto simp: string_of_def)
  next
    case (Inr q)
    obtain rid t b where q: "q = (rid, t, b)" by (cases q)
    show ?thesis
    proof (cases "rid = pid")
      case True
      with r 1(2) u Inr q show ?thesis
        by (subst (asm) command_loop.simps) (auto simp: string_of_def)
    next
      case False
      have "command_loop pid (out @ b) c1 = ((s, e), c')"
        using r 1(2) Inr q False by (subst (asm) command_loop.simps) simp
      from 1(1) [OF r [symmetric] Inr q [symmetric] refl False this] obtain v where v:
        "cn_in c1 = v @ cn_in c'" "length s \<le> length (out @ b) + length v"
        "e = None \<longrightarrow> 14 + length s \<le> length (out @ b) + length v" by blast
      with u Inr q show ?thesis by (intro exI [of _ "u @ v"]) auto
    qed
  qed
qed



end
