(* ===== verification/Backup.thy ===== *)
theory Backup
  imports Rcon GoPath
begin

text \<open>
  daemon/internal/snapshot/engine.go: the backup of a running server: saving is switched off over
  RCON, the data directory is packed into an archive that is streamed to an object store, and
  saving is switched on again. The object store, \<open>filepath.Walk\<close> (the calls it makes, in order) and
  the reading of files are parameters; the compression is left out, the store gets the archive's
  parts.
\<close>

section \<open>The archive\<close>

datatype file_kind = KRegular | KDir | KSymlink | KDevice | KSocket

record tar_file =
  tf_path :: string
  tf_name :: string
  tf_kind :: file_kind
  tf_size :: nat
  tf_err :: err

datatype tar_part = TarHeader string file_kind nat string | TarData "u8 list"

text \<open>
  A \<open>tar.Writer\<close>: what it has put out, and how many bytes of the current member are missing. A
  header is refused while some are; a write beyond the size of the member is cut and refused.
\<close>

record tar_writer =
  tw_parts :: "tar_part list"
  tw_left :: nat

definition write_header :: "tar_part \<Rightarrow> nat \<Rightarrow> tar_writer \<Rightarrow> err \<times> tar_writer" where
  "write_header p sz w =
     (if tw_left w \<noteq> 0 then (Some (Errorf (''archive/tar: missed writing '' @ itoa (int (tw_left w)) @ '' bytes'')), w)
      else (None, \<lparr>tw_parts = tw_parts w @ [p], tw_left = sz\<rparr>))"

definition err_write_too_long :: go_error where
  "err_write_too_long = Errorf ''archive/tar: write too long''"

definition write_data :: "u8 list \<times> err \<Rightarrow> tar_writer \<Rightarrow> err \<times> tar_writer" where
  "write_data c w =
     (let (bs, e) = c; n = length bs in
      if n \<le> tw_left w then (e, \<lparr>tw_parts = tw_parts w @ [TarData bs], tw_left = tw_left w - n\<rparr>)
      else (Some err_write_too_long, \<lparr>tw_parts = tw_parts w @ [TarData (take (tw_left w) bs)], tw_left = 0\<rparr>))"

text \<open>\<open>tar.FileInfoHeader(fi, fi.Name())\<close>: only regular files have a sz, a link is given its own name
  as its target, sockets are refused. Reading: the error of opening, or the bytes and the error
  after them.\<close>

type_synonym 'h reader = "string \<Rightarrow> 'h \<Rightarrow> (u8 list \<times> err) result \<times> 'h"

definition tar_entry :: "'h reader \<Rightarrow> string \<Rightarrow> tar_file \<Rightarrow> tar_writer \<Rightarrow> 'h \<Rightarrow> err \<times> tar_writer \<times> 'h" where
  "tar_entry rd src f w h =
     (case tf_err f of
        Some e \<Rightarrow> (Some e, w, h)
      | None \<Rightarrow>
          (case path_rel src (tf_path f) of
             Inl e \<Rightarrow> (Some e, w, h)
           | Inr rel \<Rightarrow>
               if rel = ''.'' then (None, w, h)
               else if tf_kind f = KSocket then (Some (Errorf ''archive/tar: sockets not supported''), w, h)
               else
                 let sz = (if tf_kind f = KRegular then tf_size f else 0) in
                 (case write_header (TarHeader rel (tf_kind f) sz (if tf_kind f = KSymlink then tf_name f else [])) sz w of
                    (Some e, w') \<Rightarrow> (Some e, w', h)
                  | (None, w') \<Rightarrow>
                      if tf_kind f = KDir then (None, w', h)
                      else (case rd (tf_path f) h of
                              (Inl e, h') \<Rightarrow> (Some e, w', h')
                            | (Inr c, h') \<Rightarrow> (case write_data c w' of (e, w'') \<Rightarrow> (e, w'', h'))))))"

fun tar_entries :: "'h reader \<Rightarrow> string \<Rightarrow> tar_file list \<Rightarrow> tar_writer \<Rightarrow> 'h \<Rightarrow> err \<times> tar_writer \<times> 'h" where
  "tar_entries rd src [] w h = (None, w, h)"
| "tar_entries rd src (f # fs) w h =
     (case tar_entry rd src f w h of
        (Some e, w', h') \<Rightarrow> (Some e, w', h')
      | (None, w', h') \<Rightarrow> tar_entries rd src fs w' h')"

type_synonym 'h tar_walk = "string \<Rightarrow> 'h \<Rightarrow> tar_file list \<times> 'h"

definition tar_dir :: "'h reader \<Rightarrow> 'h tar_walk \<Rightarrow> string \<Rightarrow> 'h \<Rightarrow> err \<times> tar_part list \<times> 'h" where
  "tar_dir rd walk src h =
     (case walk src h of (fs, h1) \<Rightarrow>
        (case tar_entries rd src fs \<lparr>tw_parts = [], tw_left = 0\<rparr> h1 of (e, w, h2) \<Rightarrow> (e, tw_parts w, h2)))"

section \<open>The backup\<close>

record s3_options =
  so_endpoint :: string
  so_access_key :: string
  so_secret_key :: string
  so_use_ssl :: bool
  so_bucket :: string
  so_prefix :: string

text \<open>Making the engine: \<open>minio\<close> stands for the constructor of the storage client, from its endpoint, the
  two keys and the choice of TLS.\<close>

definition new_engine :: "(string \<Rightarrow> string \<times> string \<Rightarrow> bool \<Rightarrow> 'c result) \<Rightarrow> s3_options \<Rightarrow> 'c result" where
  "new_engine minio o' =
     (case minio (so_endpoint o') (so_access_key o', so_secret_key o') (so_use_ssl o') of
        Inl e \<Rightarrow> Inl (ErrWrap ''minio client: '' e [])
      | Inr c \<Rightarrow> Inr c)"

record 'h s3_ops =
  s3_exists :: "string \<Rightarrow> 'h \<Rightarrow> bool result \<times> 'h"
  s3_make :: "string \<Rightarrow> 'h \<Rightarrow> err \<times> 'h"
  s3_put :: "string \<Rightarrow> string \<Rightarrow> tar_part list \<Rightarrow> 'h \<Rightarrow> int result \<times> 'h"

definition object_key :: "s3_options \<Rightarrow> string \<Rightarrow> int \<Rightarrow> string" where
  "object_key o' server_id unix = so_prefix o' @ server_id @ ''/'' @ itoa unix @ ''.tar.gz''"

text \<open>
  The part between switching saving off and on. The writing end of the pipe is closed without an
  error however the packing ended, so the store sees a shorter archive and no failure; the error
  of the packing is looked at after the upload.
\<close>

definition upload ::
  "'h s3_ops \<Rightarrow> 'h reader \<Rightarrow> 'h tar_walk \<Rightarrow> s3_options \<Rightarrow> string \<Rightarrow> int \<Rightarrow> string \<Rightarrow> 'h \<Rightarrow> (string \<times> int) result \<times> 'h" where
  "upload store rd walk o' server_id unix data_dir h =
     (case (case s3_exists store (so_bucket o') h of
              (Inl e, h1) \<Rightarrow> (Some (ErrWrap ''check bucket: '' e []), h1)
            | (Inr True, h1) \<Rightarrow> (None, h1)
            | (Inr False, h1) \<Rightarrow>
                (case s3_make store (so_bucket o') h1 of
                   (Some e, h2) \<Rightarrow> (Some (ErrWrap ''make bucket: '' e []), h2)
                 | (None, h2) \<Rightarrow> (None, h2))) of
        (Some e, h3) \<Rightarrow> (Inl e, h3)
      | (None, h3) \<Rightarrow>
          (case tar_dir rd walk data_dir h3 of
             (tar_err, parts, h4) \<Rightarrow>
               (case s3_put store (so_bucket o') (object_key o' server_id unix) parts h4 of
                  (Inl e, h5) \<Rightarrow> (Inl (ErrWrap ''s3 put: '' e []), h5)
                | (Inr sz, h5) \<Rightarrow>
                    (case tar_err of
                       Some e \<Rightarrow> (Inl (ErrWrap ''tar failed: '' e []), h5)
                     | None \<Rightarrow> (Inr (object_key o' server_id unix, sz), h5)))))"

definition backup_server ::
  "'h s3_ops \<Rightarrow> 'h reader \<Rightarrow> 'h tar_walk \<Rightarrow> s3_options \<Rightarrow> conn result \<Rightarrow> string \<Rightarrow> string \<Rightarrow> int \<Rightarrow> string
    \<Rightarrow> 'h \<Rightarrow> ((string \<times> int) result \<times> client option \<times> 'h) option" where
  "backup_server store rd walk o' net password server_id unix data_dir h =
     (case rcon_dial net password of
        None \<Rightarrow> None
      | Some (Inl _) \<Rightarrow> (case upload store rd walk o' server_id unix data_dir h of (res, h') \<Rightarrow> Some (res, None, h'))
      | Some (Inr c) \<Rightarrow>
          (case rcon_command ''save-off'' c of
             None \<Rightarrow> None
           | Some (_, c1) \<Rightarrow>
               (case rcon_command ''save-all flush'' c1 of
                  None \<Rightarrow> None
                | Some (_, c2) \<Rightarrow>
                    (case upload store rd walk o' server_id unix data_dir h of (res, h') \<Rightarrow>
                       (case rcon_command ''save-on'' c2 of
                          None \<Rightarrow> None
                        | Some (_, c3) \<Rightarrow> Some (res, Some c3, h'))))))"

section \<open>What is stored\<close>

text \<open>Walking the tree below \<open>src\<close>: each file is there with its names below it.\<close>

definition at_names :: "string \<Rightarrow> tar_file \<Rightarrow> string list \<Rightarrow> bool" where
  "at_names src f es \<longleftrightarrow> tf_err f = None \<and> rooted (tf_path f) \<and> elems (tf_path f) = elems src @ es"

text \<open>A quiet tree: directories and regular files that have, when they are read, the size they had when
  they were listed.\<close>

definition quiet_file :: "'h reader \<Rightarrow> string \<Rightarrow> tar_file \<Rightarrow> string list \<Rightarrow> u8 list \<Rightarrow> bool" where
  "quiet_file rd src f es bs \<longleftrightarrow> at_names src f es \<and>
     (if tf_kind f = KDir then bs = []
      else tf_kind f = KRegular \<and> tf_size f = length bs \<and> es \<noteq> [] \<and> (\<forall>h. rd (tf_path f) h = (Inr (bs, None), h)))"

fun members_of :: "(tar_file \<times> string list \<times> u8 list) list \<Rightarrow> tar_part list" where
  "members_of [] = []"
| "members_of ((f, es, bs) # xs) =
     (if es = [] then []
      else TarHeader (join ''/'' es) (tf_kind f) (length bs) [] # (if tf_kind f = KDir then [] else [TarData bs]))
     @ members_of xs"

lemma at_names_rel:
  assumes "at_names src f es" and "rooted src"
  shows "path_rel src (tf_path f) = Inr (if es = [] then ''.'' else join ''/'' es)"
    and "es \<noteq> [] \<Longrightarrow> join ''/'' es \<noteq> ''.''"
proof -
  from assms show "path_rel src (tf_path f) = Inr (if es = [] then ''.'' else join ''/'' es)"
    by (intro path_rel_below) (simp_all add: at_names_def)
  assume ne: "es \<noteq> []"
  have pl: "\<forall>e\<in>set es. plain e" using elems_plain [of "tf_path f"] assms(1) by (simp add: at_names_def)
  show "join ''/'' es \<noteq> ''.''"
  proof
    assume "join ''/'' es = ''.''"
    moreover have "split CHR ''/'' (join ''/'' es) = es"
      using pl ne by (intro split_join) (auto simp: plain_def)
    ultimately have "es = [''.'']" by simp
    with pl show False by (simp add: plain_def)
  qed
qed

lemma quiet_entries:
  assumes "rooted src" and "list_all (\<lambda>(f, es, bs). quiet_file rd src f es bs) xs" and "tw_left w = 0"
  shows "tar_entries rd src (map fst xs @ fs) w h
    = tar_entries rd src fs \<lparr>tw_parts = tw_parts w @ members_of xs, tw_left = 0\<rparr> h"
  using assms(2,3)
proof (induction xs arbitrary: w)
  case Nil
  then have "w = \<lparr>tw_parts = tw_parts w, tw_left = 0\<rparr>" by simp
  then show ?case by simp
next
  case (Cons x xs)
  obtain f es bs where x: "x = (f, es, bs)" by (cases x)
  with Cons.prems have q: "quiet_file rd src f es bs" by simp
  then have at: "at_names src f es" and ok: "tf_err f = None" by (simp_all add: quiet_file_def at_names_def)
  have "tar_entry rd src f w h = (None, \<lparr>tw_parts = tw_parts w @ members_of [x], tw_left = 0\<rparr>, h)"
  proof (cases "es = []")
    case True
    have "w = \<lparr>tw_parts = tw_parts w, tw_left = 0\<rparr>" using Cons.prems(2) by simp
    with ok True show ?thesis
      by (simp add: tar_entry_def at_names_rel(1) [OF at assms(1)] x)
  next
    case False
    with q ok at_names_rel(2) [OF at assms(1) False] Cons.prems(2) show ?thesis
      by (auto simp: tar_entry_def at_names_rel(1) [OF at assms(1)] x quiet_file_def write_header_def
          write_data_def Let_def split: if_splits)
  qed
  with Cons x show ?case by simp
qed

text \<open>A backup of a quiet tree holds every directory and file of it, in order, under its name below the
  data directory and with its whole content, and is stored under the server's key.\<close>

theorem backup_complete:
  assumes "rooted data_dir" and "walk data_dir h = (map fst xs, h)"
    and "list_all (\<lambda>(f, es, bs). quiet_file rd data_dir f es bs) xs"
    and "s3_exists store (so_bucket o') h = (Inr True, h)"
    and "s3_put store (so_bucket o') (object_key o' server_id unix) (members_of xs) h = (Inr sz, h')"
  shows "upload store rd walk o' server_id unix data_dir h = (Inr (object_key o' server_id unix, sz), h')"
  using quiet_entries [OF assms(1,3), of "\<lparr>tw_parts = [], tw_left = 0\<rparr>" "[]" h] assms(2,4,5)
  by (simp add: upload_def tar_dir_def)


definition demo_link :: tar_file where
  "demo_link = \<lparr>tf_path = ''/data/world'', tf_name = ''world'', tf_kind = KSymlink, tf_size = 0, tf_err = None\<rparr>"

definition demo_options :: s3_options where
  "demo_options = \<lparr>so_endpoint = ''minio:9000'', so_access_key = ''k'', so_secret_key = ''s'', so_use_ssl = False,
     so_bucket = ''b'', so_prefix = ''backups/''\<rparr>"

definition demo_store :: "tar_part list s3_ops" where
  "demo_store = \<lparr>s3_exists = \<lambda>b h. (Inr True, h), s3_make = \<lambda>b h. (None, h), s3_put = \<lambda>b k ps h. (Inr 512, h @ ps)\<rparr>"


section \<open>Saving is switched on again\<close>

lemma command_answers:
  assumes "length cmd < 100"
  shows "\<exists>r c'. rcon_command cmd c = Some (r, c')"
proof -
  have "frame p t cmd \<noteq> None" for p t using frame_is_packet [of cmd p t] assms by simp
  then show ?thesis
    by (auto simp: rcon_command_def write_packet_def Let_def split: option.split prod.split)
qed

text \<open>When the server could be reached, switching saving on is sent last, whatever the server answered,
  and whatever became of the packing and the store; nothing panics.\<close>

theorem saving_restored:
  assumes "rcon_dial net password = Some (Inr c)"
  shows "\<exists>r1 c1 r2 c2 r3 c3. rcon_command ''save-off'' c = Some (r1, c1)
    \<and> rcon_command ''save-all flush'' c1 = Some (r2, c2) \<and> rcon_command ''save-on'' c2 = Some (r3, c3)
    \<and> backup_server store rd walk o' net password server_id unix data_dir h
       = Some (fst (upload store rd walk o' server_id unix data_dir h), Some c3, snd (upload store rd walk o' server_id unix data_dir h))"
proof -
  obtain r1 c1 where 1: "rcon_command ''save-off'' c = Some (r1, c1)" using command_answers [of "''save-off''" c] by auto
  obtain r2 c2 where 2: "rcon_command ''save-all flush'' c1 = Some (r2, c2)" using command_answers [of "''save-all flush''" c1] by auto
  obtain r3 c3 where 3: "rcon_command ''save-on'' c2 = Some (r3, c3)" using command_answers [of "''save-on''" c2] by auto
  from assms 1 2 3 show ?thesis by (simp add: backup_server_def case_prod_unfold)
qed

end
