(* ===== verification/HostFs.thy ===== *)
theory HostFs
  imports GoPath
begin

text \<open>
  The operating system's file operations the daemon calls, as a record of functions on a file
  system of any kind: a handle is a number, an answer a value or an error, and nothing is
  assumed of them. What is proved is which paths the code hands them: \<open>keeps\<close> says that a
  predicate of the file system survives every operation on an allowed path.
\<close>

record file_info =
  fi_name :: string
  fi_size :: int
  fi_dir :: bool

record 'f os_ops =
  os_open :: "string \<Rightarrow> 'f \<Rightarrow> nat result \<times> 'f"
  os_create :: "string \<Rightarrow> 'f \<Rightarrow> nat result \<times> 'f"
  os_open_file :: "string \<Rightarrow> nat \<Rightarrow> 'f \<Rightarrow> nat result \<times> 'f"
  os_mkdir_all :: "string \<Rightarrow> 'f \<Rightarrow> err \<times> 'f"
  os_rename :: "string \<Rightarrow> string \<Rightarrow> 'f \<Rightarrow> err \<times> 'f"
  os_remove :: "string \<Rightarrow> 'f \<Rightarrow> err \<times> 'f"
  os_remove_all :: "string \<Rightarrow> 'f \<Rightarrow> err \<times> 'f"
  os_read_dir :: "string \<Rightarrow> 'f \<Rightarrow> file_info result list result \<times> 'f"
  os_stat :: "string \<Rightarrow> 'f \<Rightarrow> file_info result \<times> 'f"
  os_read_file :: "string \<Rightarrow> 'f \<Rightarrow> string result \<times> 'f"
  os_write_file :: "string \<Rightarrow> string \<Rightarrow> 'f \<Rightarrow> err \<times> 'f"
  os_copy :: "nat \<Rightarrow> u8 list result \<Rightarrow> 'f \<Rightarrow> err \<times> 'f"
  os_copy_file :: "nat \<Rightarrow> nat \<Rightarrow> 'f \<Rightarrow> err \<times> 'f"
  os_close :: "nat \<Rightarrow> 'f \<Rightarrow> err \<times> 'f"
  os_is_not_exist :: "go_error \<Rightarrow> bool"

text \<open>
  \<open>os_open_file\<close> is \<open>OpenFile\<close> for writing, with a mode, created or truncated; \<open>os_copy\<close> is \<open>io.Copy\<close>
  of given content into a handle, \<open>os_copy_file\<close> of one handle into another (the first).
\<close>

definition keeps :: "'f os_ops \<Rightarrow> (string \<Rightarrow> bool) \<Rightarrow> ('f \<Rightarrow> bool) \<Rightarrow> bool" where
  "keeps os ok P \<longleftrightarrow>
     (\<forall>fs h c. P fs \<longrightarrow> P (snd (os_copy os h c fs))) \<and>
     (\<forall>fs h k. P fs \<longrightarrow> P (snd (os_copy_file os h k fs))) \<and>
     (\<forall>fs h. P fs \<longrightarrow> P (snd (os_close os h fs))) \<and>
     (\<forall>fs p. ok p \<longrightarrow> P fs \<longrightarrow>
        P (snd (os_open os p fs)) \<and> P (snd (os_create os p fs)) \<and> P (snd (os_mkdir_all os p fs))
        \<and> P (snd (os_remove os p fs)) \<and> P (snd (os_remove_all os p fs))
        \<and> P (snd (os_read_dir os p fs)) \<and> P (snd (os_stat os p fs))
        \<and> P (snd (os_read_file os p fs))
        \<and> (\<forall>m. P (snd (os_open_file os p m fs))) \<and> (\<forall>d. P (snd (os_write_file os p d fs)))
        \<and> (\<forall>q. ok q \<longrightarrow> P (snd (os_rename os p q fs))))"

lemma keepsD:
  assumes "keeps os ok P" and "P fs"
  shows "P (snd (os_copy os h c fs))" and "P (snd (os_copy_file os h k fs))" and "P (snd (os_close os h fs))"
    and "ok p \<Longrightarrow> P (snd (os_open os p fs))" and "ok p \<Longrightarrow> P (snd (os_create os p fs))"
    and "ok p \<Longrightarrow> P (snd (os_mkdir_all os p fs))" and "ok p \<Longrightarrow> P (snd (os_remove os p fs))"
    and "ok p \<Longrightarrow> P (snd (os_remove_all os p fs))" and "ok p \<Longrightarrow> P (snd (os_read_dir os p fs))"
    and "ok p \<Longrightarrow> P (snd (os_stat os p fs))" and "ok p \<Longrightarrow> ok q \<Longrightarrow> P (snd (os_rename os p q fs))"
    and "ok p \<Longrightarrow> P (snd (os_read_file os p fs))" and "ok p \<Longrightarrow> P (snd (os_open_file os p m fs))"
    and "ok p \<Longrightarrow> P (snd (os_write_file os p d fs))"
  using assms unfolding keeps_def by blast+

text \<open>The same for an equation that names the result.\<close>

lemma keeps_eq:
  assumes "keeps os ok P" and "P fs"
  shows "os_copy os h c fs = (x0, fs') \<Longrightarrow> P fs'"
    and "os_copy_file os h k fs = (x0, fs') \<Longrightarrow> P fs'"
    and "os_close os h fs = (x0, fs') \<Longrightarrow> P fs'"
    and "os_open os p fs = (x1, fs') \<Longrightarrow> ok p \<Longrightarrow> P fs'"
    and "os_create os p fs = (x2, fs') \<Longrightarrow> ok p \<Longrightarrow> P fs'"
    and "os_open_file os p m fs = (x2, fs') \<Longrightarrow> ok p \<Longrightarrow> P fs'"
    and "os_mkdir_all os p fs = (x3, fs') \<Longrightarrow> ok p \<Longrightarrow> P fs'"
    and "os_remove os p fs = (x4, fs') \<Longrightarrow> ok p \<Longrightarrow> P fs'"
    and "os_read_dir os p fs = (x5, fs') \<Longrightarrow> ok p \<Longrightarrow> P fs'"
    and "os_stat os p fs = (x6, fs') \<Longrightarrow> ok p \<Longrightarrow> P fs'"
    and "os_read_file os p fs = (x9, fs') \<Longrightarrow> ok p \<Longrightarrow> P fs'"
    and "os_write_file os p d fs = (x7, fs') \<Longrightarrow> ok p \<Longrightarrow> P fs'"
    and "os_rename os p q fs = (x7, fs') \<Longrightarrow> ok p \<Longrightarrow> ok q \<Longrightarrow> P fs'"
    and "os_remove_all os p fs = (x8, fs') \<Longrightarrow> ok p \<Longrightarrow> P fs'"
  using keepsD [OF assms] by (metis snd_conv)+

lemma keeps_mono:
  assumes "keeps os ok P" and "\<And>p. ok' p \<Longrightarrow> ok p"
  shows "keeps os ok' P"
  unfolding keeps_def [of os ok']
  by (intro conjI allI impI) (rule keepsD [OF assms(1)] assms(2); assumption?)+

text \<open>A file system that records the paths it is asked about, and has every one of them.\<close>

definition tracing :: "string list os_ops" where
  "tracing = \<lparr>os_open = \<lambda>p fs. (Inr 3, p # fs), os_create = \<lambda>p fs. (Inr 3, p # fs),
     os_open_file = \<lambda>p m fs. (Inr 3, p # fs),
     os_mkdir_all = \<lambda>p fs. (None, p # fs), os_rename = \<lambda>p q fs. (None, p # q # fs),
     os_remove = \<lambda>p fs. (None, p # fs), os_remove_all = \<lambda>p fs. (None, p # fs),
     os_read_dir = \<lambda>p fs. (Inr [Inr \<lparr>fi_name = ''world'', fi_size = 0, fi_dir = True\<rparr>], p # fs),
     os_stat = \<lambda>p fs. (Inr \<lparr>fi_name = p, fi_size = 0, fi_dir = True\<rparr>, p # fs),
     os_read_file = \<lambda>p fs. (Inr [], p # fs), os_write_file = \<lambda>p d fs. (None, p # fs),
     os_copy = \<lambda>h c fs. (None, fs), os_copy_file = \<lambda>h k fs. (None, fs),
     os_close = \<lambda>h fs. (None, fs), os_is_not_exist = \<lambda>e. False\<rparr>"

lemma tracing_keeps: "keeps tracing ok (list_all ok)"
  by (simp add: keeps_def tracing_def)

text \<open>A predicate that reading never changes, and writing only outside the allowed paths.\<close>

definition writes_kept :: "'f os_ops \<Rightarrow> (string \<Rightarrow> bool) \<Rightarrow> ('f \<Rightarrow> bool) \<Rightarrow> bool" where
  "writes_kept os ok P \<longleftrightarrow>
     (\<forall>fs p. P fs \<longrightarrow> P (snd (os_open os p fs)) \<and> P (snd (os_stat os p fs)) \<and> P (snd (os_read_dir os p fs))) \<and>
     (\<forall>fs h k. P fs \<longrightarrow> P (snd (os_copy_file os h k fs)) \<and> P (snd (os_close os h fs))) \<and>
     (\<forall>fs p. ok p \<longrightarrow> P fs \<longrightarrow> P (snd (os_mkdir_all os p fs)) \<and> P (snd (os_remove_all os p fs))
        \<and> (\<forall>m. P (snd (os_open_file os p m fs))))"

lemma writes_keptD:
  assumes "writes_kept os ok P" and "P fs"
  shows "os_open os p fs = (x1, fs') \<Longrightarrow> P fs'" and "os_stat os p fs = (x2, fs') \<Longrightarrow> P fs'"
    and "os_copy_file os h k fs = (x3, fs') \<Longrightarrow> P fs'" and "os_close os h fs = (x4, fs') \<Longrightarrow> P fs'"
    and "ok p \<Longrightarrow> os_mkdir_all os p fs = (x5, fs') \<Longrightarrow> P fs'"
    and "ok p \<Longrightarrow> os_remove_all os p fs = (x6, fs') \<Longrightarrow> P fs'"
    and "ok p \<Longrightarrow> os_open_file os p m fs = (x7, fs') \<Longrightarrow> P fs'"
  using assms unfolding writes_kept_def by (metis snd_conv)+

text \<open>A file system that records the paths it is asked to write.\<close>

definition recording :: "string list os_ops" where
  "recording = tracing\<lparr>os_open := \<lambda>p fs. (Inr 3, fs), os_stat := \<lambda>p fs. (Inr \<lparr>fi_name = p, fi_size = 0, fi_dir = True\<rparr>, fs),
     os_read_dir := \<lambda>p fs. (Inr [], fs)\<rparr>"

lemma recording_keeps: "writes_kept recording ok (list_all ok)"
  by (simp add: writes_kept_def recording_def tracing_def)

end
