(* ===== verification/FileSwap.thy ===== *)
theory FileSwap
  imports HostFs
begin

text \<open>
  Files as contents. \<open>file_laws\<close> is what a file system promises of the operations by which the
  managers replace a configuration file: write a temporary file, rename it over the old one. A
  failed write leaves anything in the file written and nothing elsewhere; a rename moves the
  whole content or changes nothing. \<open>file h p\<close> is the content of the file at \<open>p\<close>, if there is one.
\<close>

type_synonym 'h run = "string \<Rightarrow> string list \<Rightarrow> 'h \<Rightarrow> (string \<times> err) \<times> 'h"

definition file_laws :: "'h os_ops \<Rightarrow> ('h \<Rightarrow> string \<Rightarrow> string option) \<Rightarrow> bool" where
  "file_laws os file \<longleftrightarrow>
     (\<forall>p c h. case os_write_file os p c h of
        (None, h') \<Rightarrow> file h' = (file h)(p \<mapsto> c)
      | (Some _, h') \<Rightarrow> (\<forall>q. q \<noteq> p \<longrightarrow> file h' q = file h q))
     \<and> (\<forall>p q h. case os_rename os p q h of
        (None, h') \<Rightarrow> file h p \<noteq> None \<and> file h' = (file h)(p := None, q := file h p)
      | (Some _, h') \<Rightarrow> file h' = file h)
     \<and> (\<forall>p q h. q \<noteq> p \<longrightarrow> file (snd (os_remove os p h)) q = file h q)
     \<and> (\<forall>p h. file (snd (os_read_file os p h)) = file h)
     \<and> (\<forall>p h. file (snd (os_stat os p h)) = file h)
     \<and> (\<forall>p h. file (snd (os_mkdir_all os p h)) = file h)"

lemma file_write:
  assumes "file_laws os file"
  shows "os_write_file os p c h = (None, h') \<Longrightarrow> file h' = (file h)(p \<mapsto> c)"
    and "os_write_file os p c h = (e, h') \<Longrightarrow> q \<noteq> p \<Longrightarrow> file h' q = file h q"
proof -
  have w: "case os_write_file os p c h of (None, h') \<Rightarrow> file h' = (file h)(p \<mapsto> c)
      | (Some _, h') \<Rightarrow> (\<forall>q. q \<noteq> p \<longrightarrow> file h' q = file h q)"
    by (rule assms [unfolded file_laws_def, THEN conjunct1, THEN spec, THEN spec, THEN spec])
  show "os_write_file os p c h = (None, h') \<Longrightarrow> file h' = (file h)(p \<mapsto> c)" using w by simp
  show "os_write_file os p c h = (e, h') \<Longrightarrow> q \<noteq> p \<Longrightarrow> file h' q = file h q" using w by (cases e) simp_all
qed

lemma file_rename:
  assumes "file_laws os file"
  shows "os_rename os p q h = (None, h') \<Longrightarrow> file h p \<noteq> None \<and> file h' = (file h)(p := None, q := file h p)"
    and "os_rename os p q h = (Some e, h') \<Longrightarrow> file h' = file h"
proof -
  have r: "case os_rename os p q h of (None, h') \<Rightarrow> file h p \<noteq> None \<and> file h' = (file h)(p := None, q := file h p)
      | (Some _, h') \<Rightarrow> file h' = file h"
    by (rule assms [unfolded file_laws_def, THEN conjunct2, THEN conjunct1, THEN spec, THEN spec, THEN spec])
  show "os_rename os p q h = (None, h') \<Longrightarrow> file h p \<noteq> None \<and> file h' = (file h)(p := None, q := file h p)"
    using r by simp
  show "os_rename os p q h = (Some e, h') \<Longrightarrow> file h' = file h" using r by simp
qed

lemma file_quiet:
  assumes "file_laws os file"
  shows "q \<noteq> p \<Longrightarrow> file (snd (os_remove os p h)) q = file h q"
    and "file (snd (os_read_file os p h)) = file h"
    and "file (snd (os_stat os p h)) = file h"
    and "os_mkdir_all os p h = (e, h') \<Longrightarrow> file h' = file h"
    and "os_read_file os p h = (r, h') \<Longrightarrow> file h' = file h"
  using assms unfolding file_laws_def by (metis snd_conv)+

text \<open>A file system in memory that never fails.\<close>

definition mem_os :: "(string \<rightharpoonup> string) os_ops" where
  "mem_os = \<lparr>os_open = \<lambda>p h. (Inr 3, h), os_create = \<lambda>p h. (Inr 3, h), os_open_file = \<lambda>p m h. (Inr 3, h),
     os_mkdir_all = \<lambda>p h. (None, h),
     os_rename = \<lambda>p q h. (case h p of None \<Rightarrow> (Some (ErrExt 2), h) | Some c \<Rightarrow> (None, h(p := None, q := Some c))),
     os_remove = \<lambda>p h. (None, h(p := None)), os_remove_all = \<lambda>p h. (None, h(p := None)),
     os_read_dir = \<lambda>p h. (Inr [], h),
     os_stat = \<lambda>p h. (case h p of None \<Rightarrow> Inl (ErrExt 2) | Some c \<Rightarrow> Inr \<lparr>fi_name = p, fi_size = int (length c), fi_dir = False\<rparr>, h),
     os_read_file = \<lambda>p h. (case h p of None \<Rightarrow> Inl (ErrExt 2) | Some c \<Rightarrow> Inr c, h),
     os_write_file = \<lambda>p c h. (None, h(p := Some c)),
     os_copy = \<lambda>k c h. (None, h), os_copy_file = \<lambda>k l h. (None, h),
     os_close = \<lambda>k h. (None, h), os_is_not_exist = \<lambda>e. e = ErrExt 2\<rparr>"

lemma mem_os_laws: "file_laws mem_os (\<lambda>h. h)"
  by (auto simp: file_laws_def mem_os_def split: option.split)

lemma mem_os_simps [simp]:
  "os_mkdir_all mem_os p h = (None, h)" "os_write_file mem_os p c h = (None, h(p := Some c))"
  "h p = Some c \<Longrightarrow> os_rename mem_os p q h = (None, h(p := None, q := Some c))"
  "h p = Some c \<Longrightarrow> os_read_file mem_os p h = (Inr c, h)"
  "h p = None \<Longrightarrow> os_read_file mem_os p h = (Inl (ErrExt 2), h)"
  by (simp_all add: mem_os_def)

section \<open>Handles\<close>

text \<open>
  What is promised of files written through a handle: \<open>pos h k\<close> is the path the handle \<open>k\<close> was
  created for. A copy that fails may have written anything into that file.
\<close>

definition handle_laws :: "'h os_ops \<Rightarrow> ('h \<Rightarrow> string \<Rightarrow> string option) \<Rightarrow> ('h \<Rightarrow> nat \<Rightarrow> string option) \<Rightarrow> bool" where
  "handle_laws os file pos \<longleftrightarrow>
     (\<forall>p h. case os_create os p h of
        (Inr k, h') \<Rightarrow> pos h' k = Some p \<and> file h' = (file h)(p \<mapsto> [])
      | (Inl _, h') \<Rightarrow> (\<forall>q. q \<noteq> p \<longrightarrow> file h' q = file h q))
     \<and> (\<forall>k c h p. pos h k = Some p \<longrightarrow> (case os_copy os k c h of
        (None, h') \<Rightarrow> (\<exists>bs t. c = Inr bs \<and> file h p = Some t \<and> file h' = (file h)(p \<mapsto> t @ string_of bs))
      | (Some _, h') \<Rightarrow> (\<forall>q. q \<noteq> p \<longrightarrow> file h' q = file h q)))
     \<and> (\<forall>k h. file (snd (os_close os k h)) = file h)"

lemma handle_create:
  assumes "handle_laws os file pos"
  shows "os_create os p h = (Inr k, h') \<Longrightarrow> pos h' k = Some p \<and> file h' = (file h)(p \<mapsto> [])"
    and "os_create os p h = (Inl e, h') \<Longrightarrow> q \<noteq> p \<Longrightarrow> file h' q = file h q"
proof -
  have c: "case os_create os p h of
        (Inr k, h') \<Rightarrow> pos h' k = Some p \<and> file h' = (file h)(p \<mapsto> [])
      | (Inl _, h') \<Rightarrow> (\<forall>q. q \<noteq> p \<longrightarrow> file h' q = file h q)"
    by (rule assms [unfolded handle_laws_def, THEN conjunct1, THEN spec, THEN spec])
  show "os_create os p h = (Inr k, h') \<Longrightarrow> pos h' k = Some p \<and> file h' = (file h)(p \<mapsto> [])"
    and "os_create os p h = (Inl e, h') \<Longrightarrow> q \<noteq> p \<Longrightarrow> file h' q = file h q"
    using c by simp_all
qed

lemma handle_copy:
  assumes "handle_laws os file pos" and "pos h k = Some p"
  shows "os_copy os k c h = (None, h') \<Longrightarrow> \<exists>bs t. c = Inr bs \<and> file h p = Some t \<and> file h' = (file h)(p \<mapsto> t @ string_of bs)"
    and "os_copy os k c h = (Some e, h') \<Longrightarrow> q \<noteq> p \<Longrightarrow> file h' q = file h q"
proof -
  have c: "case os_copy os k c h of
        (None, h') \<Rightarrow> (\<exists>bs t. c = Inr bs \<and> file h p = Some t \<and> file h' = (file h)(p \<mapsto> t @ string_of bs))
      | (Some _, h') \<Rightarrow> (\<forall>q. q \<noteq> p \<longrightarrow> file h' q = file h q)"
    by (rule assms(1) [unfolded handle_laws_def, THEN conjunct2, THEN conjunct1, THEN spec, THEN spec, THEN spec, THEN spec, THEN mp, OF assms(2)])
  show "os_copy os k c h = (None, h') \<Longrightarrow> \<exists>bs t. c = Inr bs \<and> file h p = Some t \<and> file h' = (file h)(p \<mapsto> t @ string_of bs)"
    and "os_copy os k c h = (Some e, h') \<Longrightarrow> q \<noteq> p \<Longrightarrow> file h' q = file h q"
    using c by simp_all
qed

lemma handle_close:
  assumes "handle_laws os file pos"
  shows "os_close os k h = (e, h') \<Longrightarrow> file h' = file h"
  using assms unfolding handle_laws_def by (metis snd_conv)

text \<open>A file system in memory with handles: the last file created is the one written.\<close>

type_synonym disk = "(string \<rightharpoonup> string) \<times> string"

definition disk_os :: "disk os_ops" where
  "disk_os = \<lparr>os_open = \<lambda>p h. (Inr 3, h), os_create = \<lambda>p h. (Inr 3, (fst h)(p \<mapsto> []), p),
     os_open_file = \<lambda>p m h. (Inr 3, (fst h)(p \<mapsto> []), p),
     os_mkdir_all = \<lambda>p h. (None, h),
     os_rename = \<lambda>p q h. (case fst h p of None \<Rightarrow> (Some (ErrExt 2), h) | Some c \<Rightarrow> (None, (fst h)(p := None, q := Some c), snd h)),
     os_remove = \<lambda>p h. (None, (fst h)(p := None), snd h), os_remove_all = \<lambda>p h. (None, (fst h)(p := None), snd h),
     os_read_dir = \<lambda>p h. (Inr [], h),
     os_stat = \<lambda>p h. (case fst h p of None \<Rightarrow> Inl (ErrExt 2) | Some c \<Rightarrow> Inr \<lparr>fi_name = p, fi_size = int (length c), fi_dir = False\<rparr>, h),
     os_read_file = \<lambda>p h. (case fst h p of None \<Rightarrow> Inl (ErrExt 2) | Some c \<Rightarrow> Inr c, h),
     os_write_file = \<lambda>p c h. (None, (fst h)(p := Some c), snd h),
     os_copy = \<lambda>k c h. (case (c, fst h (snd h)) of
         (Inr bs, Some t) \<Rightarrow> (None, (fst h)(snd h \<mapsto> t @ string_of bs), snd h)
       | _ \<Rightarrow> (Some (ErrExt 5), h)),
     os_copy_file = \<lambda>k l h. (None, h), os_close = \<lambda>k h. (None, h), os_is_not_exist = \<lambda>e. e = ErrExt 2\<rparr>"

lemma disk_os_laws: "file_laws disk_os fst" "handle_laws disk_os fst (\<lambda>h k. Some (snd h))"
  by (auto simp: file_laws_def disk_os_def split: option.split)
     (auto simp: handle_laws_def disk_os_def split: option.splits sum.splits)

end
