(* ===== verification/Config.thy ===== *)
theory Config
  imports FileSwap
begin

text \<open>
  daemon/internal/config/config.go: the daemon's settings from the environment and a YAML file.
  \<open>getenv\<close> gives a variable's value (empty when unset); the YAML library is a function from the
  file's text and the settings it fills in. Host names are ASCII, one rune per byte.
\<close>

record docker_config =
  dk_endpoint :: string
  dk_scratch_path :: string
  dk_template_path :: string
  dk_network_name :: string

record config =
  cf_node_id :: string
  cf_data_dir :: string
  cf_raft_bind_addr :: string
  cf_raft_advertise_addr :: string
  cf_grpc_listen :: string
  cf_http_listen :: string
  cf_sftp_listen :: string
  cf_redis_addrs :: "string list"
  cf_redis_password :: string
  cf_mariadb_dsn :: string
  cf_mariadb_addr :: string
  cf_mariadb_user :: string
  cf_mariadb_pass :: string
  cf_docker :: docker_config

type_synonym getenv = "string \<Rightarrow> string"

definition env_or :: "getenv \<Rightarrow> string \<Rightarrow> string \<Rightarrow> string" where
  "env_or getenv key fallback = (if getenv key \<noteq> [] then getenv key else fallback)"

text \<open>The defaults of main.go's flags, and the level its logger gets.\<close>

definition env_bool :: "getenv \<Rightarrow> string \<Rightarrow> bool \<Rightarrow> bool" where
  "env_bool getenv key dflt =
     (let v = getenv key in
      if v \<in> {''true'', ''1'', ''yes''} then True
      else if v \<in> {''false'', ''0'', ''no''} then False
      else dflt)"

datatype log_level = LevelDebug | LevelInfo | LevelWarn | LevelError

definition logger_level :: "string \<Rightarrow> log_level" where
  "logger_level level =
     (if level = ''debug'' then LevelDebug
      else if level = ''warn'' then LevelWarn
      else if level = ''error'' then LevelError
      else LevelInfo)"

definition id_char :: "char \<Rightarrow> bool" where
  "id_char c \<longleftrightarrow> (let n = code c in (97 \<le> n \<and> n \<le> 122) \<or> (48 \<le> n \<and> n \<le> 57) \<or> n = 45 \<or> n = 95)"

definition sanitize_id :: "string \<Rightarrow> string" where
  "sanitize_id s = map (\<lambda>c. if id_char c then c else CHR ''-'') (to_lower (trim_space s))"

definition config_default :: "getenv \<Rightarrow> string \<Rightarrow> config" where
  "config_default getenv hostname =
     (let host = (if hostname = [] then ''node'' else hostname);
          node_id = env_or getenv ''AETHERNET_NODE_ID'' (sanitize_id host) in
      \<lparr>cf_node_id = node_id,
       cf_data_dir = env_or getenv ''AETHERNET_DATA_DIR'' ''/var/lib/aethernet'',
       cf_raft_bind_addr = env_or getenv ''AETHERNET_RAFT_BIND'' ''0.0.0.0:7000'',
       cf_raft_advertise_addr = env_or getenv ''AETHERNET_RAFT_ADVERTISE'' (node_id @ '':7000''),
       cf_grpc_listen = env_or getenv ''AETHERNET_GRPC_LISTEN'' ''0.0.0.0:7001'',
       cf_http_listen = env_or getenv ''AETHERNET_HTTP_LISTEN'' ''0.0.0.0:8081'',
       cf_sftp_listen = env_or getenv ''AETHERNET_SFTP_LISTEN'' ''0.0.0.0:2022'',
       cf_redis_addrs = split CHR '','' (env_or getenv ''AETHERNET_REDIS_ADDRS'' ''127.0.0.1:6379''),
       cf_redis_password = env_or getenv ''AETHERNET_REDIS_PASSWORD'' [],
       cf_mariadb_dsn = env_or getenv ''AETHERNET_MARIADB_DSN'' [],
       cf_mariadb_addr = env_or getenv ''AETHERNET_MARIADB_ADDR'' ''127.0.0.1:3306'',
       cf_mariadb_user = env_or getenv ''AETHERNET_MARIADB_USER'' ''aethernet'',
       cf_mariadb_pass = env_or getenv ''AETHERNET_MARIADB_PASS'' [],
       cf_docker = \<lparr>dk_endpoint = env_or getenv ''DOCKER_HOST'' ''unix:///var/run/docker.sock'',
         dk_scratch_path = ''/var/lib/aethernet/scratch'', dk_template_path = ''/var/lib/aethernet/templates'',
         dk_network_name = ''aethernet''\<rparr>\<rparr>)"

definition config_dsn :: "config \<Rightarrow> string" where
  "config_dsn c =
     (if cf_mariadb_dsn c \<noteq> [] then cf_mariadb_dsn c
      else cf_mariadb_user c @ '':'' @ cf_mariadb_pass c @ ''@tcp('' @ cf_mariadb_addr c
        @ '')/aethernet?parseTime=true&multiStatements=false'')"

type_synonym yaml_fill = "string \<Rightarrow> config \<Rightarrow> config result"

definition config_load ::
  "'h os_ops \<Rightarrow> yaml_fill \<Rightarrow> getenv \<Rightarrow> string \<Rightarrow> string \<Rightarrow> 'h \<Rightarrow> config result \<times> 'h" where
  "config_load os yaml getenv hostname path h =
     (let c = config_default getenv hostname in
      case os_read_file os path h of
        (Inl e, h') \<Rightarrow> (if os_is_not_exist os e then Inr c else Inl e, h')
      | (Inr b, h') \<Rightarrow>
          (case yaml b c of
             Inl e \<Rightarrow> (Inl (ErrWrap ''parse config: '' e []), h')
           | Inr c1 \<Rightarrow>
               let v = getenv ''AETHERNET_NODE_ID''; c2 = (if v \<noteq> [] then c1\<lparr>cf_node_id := v\<rparr> else c1)
               in (if cf_node_id c2 = [] then Inl (Errorf ''config: node_id is required'') else Inr c2, h')))"

definition config_save ::
  "'h os_ops \<Rightarrow> (config \<Rightarrow> string result) \<Rightarrow> config \<Rightarrow> string \<Rightarrow> 'h \<Rightarrow> err \<times> 'h" where
  "config_save os yaml_marshal c path h =
     (case os_mkdir_all os (path_dir path) h of
        (Some e, h1) \<Rightarrow> (Some e, h1)
      | (None, h1) \<Rightarrow>
          (case yaml_marshal c of
             Inl e \<Rightarrow> (Some e, h1)
           | Inr b \<Rightarrow> os_write_file os path b h1))"

section \<open>Who wins\<close>

lemma sanitize_chars: "list_all id_char (sanitize_id s)"
proof -
  have "id_char CHR ''-''" by (simp add: id_char_def code_def)
  then show ?thesis by (auto simp: sanitize_id_def list_all_iff)
qed

text \<open>Of all settings only the node id of the environment wins over the file: whenever a file is read,
  the other settings are the ones it gave, also where a variable is set. Without a file the
  environment and the defaults decide, and a loaded node id is never empty while a variable or
  host name gives one.\<close>

theorem load_precedence:
  assumes "config_load os yaml getenv hostname path h = (Inr c, h')"
    and "os_read_file os path h = (r, h')"
  shows "(case r of
      Inl e \<Rightarrow> c = config_default getenv hostname
    | Inr b \<Rightarrow> (\<exists>c1. yaml b (config_default getenv hostname) = Inr c1
        \<and> c = c1\<lparr>cf_node_id := env_or getenv ''AETHERNET_NODE_ID'' (cf_node_id c1)\<rparr> \<and> cf_node_id c \<noteq> []))"
  using assms
  by (auto simp: config_load_def Let_def env_or_def split: sum.splits if_splits)

text \<open>The variable asks for port 9000, the file for 8081, and the file wins.\<close>

definition demo_getenv :: getenv where
  "demo_getenv key = (if key = ''AETHERNET_HTTP_LISTEN'' then ''0.0.0.0:9000'' else [])"

definition demo_yaml :: yaml_fill where
  "demo_yaml b c = Inr (c\<lparr>cf_http_listen := ''0.0.0.0:8081'', cf_node_id := ''n1''\<rparr>)"

theorem load_precedence_witness:
  "\<exists>c. config_load mem_os demo_yaml demo_getenv ''host'' ''/c'' [''/c'' \<mapsto> ''x''] = (Inr c, [''/c'' \<mapsto> ''x''])
    \<and> demo_getenv ''AETHERNET_HTTP_LISTEN'' = ''0.0.0.0:9000'' \<and> cf_http_listen c = ''0.0.0.0:8081''"
proof -
  let ?h = "[''/c'' \<mapsto> ''x'']"
  have r: "os_read_file mem_os ''/c'' ?h = (Inr ''x'', ?h)" by simp
  then obtain c where l: "config_load mem_os demo_yaml demo_getenv ''host'' ''/c'' ?h = (Inr c, ?h)"
    by (simp add: config_load_def demo_yaml_def demo_getenv_def Let_def)
  from load_precedence [OF l r] have "cf_http_listen c = ''0.0.0.0:8081''"
    by (auto simp: demo_yaml_def)
  with l show ?thesis by (auto simp: demo_getenv_def)
qed

text \<open>Saving and loading again gives back the settings, when the YAML library reads what it wrote.\<close>

theorem save_load:
  assumes "file_laws os file" and "\<And>b z. yaml_marshal c = Inr b \<Longrightarrow> yaml b z = Inr c"
    and "config_save os yaml_marshal c path h = (None, h1)"
    and "\<And>t. file h1 path = Some t \<Longrightarrow> fst (os_read_file os path h1) = Inr t"
    and "getenv ''AETHERNET_NODE_ID'' = []" and "cf_node_id c \<noteq> []"
  shows "fst (config_load os yaml getenv hostname path h1) = Inr c"
proof -
  from assms(3) obtain b h0 where b: "yaml_marshal c = Inr b" and w: "os_write_file os path b h0 = (None, h1)"
    by (auto simp: config_save_def split: prod.splits option.splits sum.splits)
  have "file h1 path = Some b" using file_write(1) [OF assms(1) w] by simp
  with assms(4) obtain h2 where "os_read_file os path h1 = (Inr b, h2)" by (metis prod.collapse)
  then show ?thesis by (simp add: config_load_def Let_def assms(2) [OF b] assms(5,6))
qed

theorem save_load_witness:
  "fst (config_load mem_os (\<lambda>b z. Inr (config_default (\<lambda>_. []) ''Alpha'')) (\<lambda>_. []) ''host'' ''/c''
      (snd (config_save mem_os (\<lambda>c. Inr ''x'') (config_default (\<lambda>_. []) ''Alpha'') ''/c'' (\<lambda>_. None))))
    = Inr (config_default (\<lambda>_. []) ''Alpha'')"
proof -
  let ?c = "config_default (\<lambda>_. []) ''Alpha''"
  have s: "config_save mem_os (\<lambda>c. Inr ''x'') ?c ''/c'' (\<lambda>_. None) = (None, [''/c'' \<mapsto> ''x''])"
    by (simp add: config_save_def)
  have n: "cf_node_id ?c = ''alpha''"
    by (simp add: config_default_def Let_def env_or_def sanitize_id_def trim_space_def to_lower_def lower_char_def
        is_space_def id_char_def code_def char_of_eq_iff)
  have r: "fst (os_read_file mem_os p g) = Inr t" if "g p = Some t" for p t and g :: "string \<rightharpoonup> string"
    using that by simp
  from save_load [OF mem_os_laws _ s, where yaml = "\<lambda>b z. Inr ?c" and getenv = "\<lambda>_. []" and hostname = "''host''"] n r
  show ?thesis unfolding s by simp
qed

end
