(* ===== verification/Docker.thy ===== *)
theory Docker
  imports HostFs ClusterTypes GoMap
begin

text \<open>
  daemon/internal/docker (controller.go, helpers.go): one container per server, its scratch
  directory on the host mounted at \<open>/data\<close>. The docker client is a record of functions on the
  host's state, like the operating system's; a controller that could not be created is nil,
  here \<open>None\<close>. A stream of the engine is what \<open>stdcopy\<close> makes of it: the text and its error.
\<close>

section \<open>The controller and the engine\<close>

record paths =
  pt_template_root :: string
  pt_scratch_root :: string
  pt_network :: string

type_synonym controller = "paths option"

definition docker_new :: "err \<Rightarrow> controller result" where
  "docker_new client_err =
     (case client_err of
        Some e \<Rightarrow> Inl (ErrWrap ''docker client: '' e [])
      | None \<Rightarrow> Inr (Some \<lparr>pt_template_root = ''/var/lib/aethernet/templates'',
          pt_scratch_root = ''/var/lib/aethernet/scratch'', pt_network = ''aethernet''\<rparr>))"

text \<open>\<open>SetPaths\<close> and \<open>ContainerDataPath\<close> dereference the receiver: on a nil one they panic.\<close>

definition set_paths :: "controller \<Rightarrow> paths \<Rightarrow> controller option" where
  "set_paths c p = map_option (\<lambda>_. Some p) c"

definition container_data_path :: "controller \<Rightarrow> string \<Rightarrow> string option" where
  "container_data_path c server_id = map_option (\<lambda>p. path_join [pt_scratch_root p, server_id]) c"

datatype mount_type = Bind | Tmpfs

record mount =
  mt_type :: mount_type
  mt_source :: string
  mt_target :: string
  mt_read_only :: bool
  mt_tmpfs :: "(int \<times> nat) option"

record container_config =
  cc_image :: string
  cc_env :: "string list"
  cc_exposed :: "string list"
  cc_labels :: "(string \<times> string) list"
  cc_working_dir :: string
  cc_attach_stdout :: bool
  cc_attach_stderr :: bool

text \<open>\<open>container_PortBinding\<close>, which \<open>convertPortMap\<close> copies into the engine's type.\<close>

record port_binding =
  pb_host_ip :: string
  pb_host_port :: string

record host_config =
  hc_mounts :: "mount list"
  hc_port_bindings :: "(string \<times> port_binding list) list"
  hc_memory :: int
  hc_nano_cpus :: int
  hc_auto_remove :: bool
  hc_restart_policy :: string
  hc_network_mode :: string

record logs_options =
  lo_stdout :: bool
  lo_stderr :: bool
  lo_follow :: bool
  lo_tail :: string

datatype tar_type = TypeDir | TypeReg | TypeOther nat

record tar_header =
  th_name :: string
  th_type :: tar_type
  th_mode :: nat

text \<open>What \<open>tar.Reader.Next\<close> gives, the content of an entry with it; the end of the list is EOF.\<close>

datatype tar_item = TarEntry tar_header "u8 list result" | TarFail go_error

record 'h engine =
  api_create :: "container_config \<Rightarrow> host_config \<Rightarrow> string list \<Rightarrow> string \<Rightarrow> 'h \<Rightarrow> string result \<times> 'h"
  api_start :: "string \<Rightarrow> 'h \<Rightarrow> err \<times> 'h"
  api_stop :: "string \<Rightarrow> int \<Rightarrow> 'h \<Rightarrow> err \<times> 'h"
  api_remove :: "string \<Rightarrow> bool \<Rightarrow> 'h \<Rightarrow> err \<times> 'h"
  api_copy_from :: "string \<Rightarrow> string \<Rightarrow> 'h \<Rightarrow> tar_item list result \<times> 'h"
  api_logs :: "string \<Rightarrow> logs_options \<Rightarrow> 'h \<Rightarrow> (string \<times> err) result \<times> 'h"
  api_exec_create :: "string \<Rightarrow> string list \<Rightarrow> 'h \<Rightarrow> string result \<times> 'h"
  api_exec_attach :: "string \<Rightarrow> 'h \<Rightarrow> (string \<times> err) result \<times> 'h"
  api_exec_inspect :: "string \<Rightarrow> 'h \<Rightarrow> int \<times> 'h"
  api_not_found :: "go_error \<Rightarrow> bool"
  api_ram_in_bytes :: "string \<Rightarrow> int"

definition err_disabled :: go_error where
  "err_disabled = Errorf ''docker: controller not available''"

definition container_name :: "string \<Rightarrow> string" where
  "container_name i = ''aether-'' @ i"

section \<open>The processor quota\<close>

text \<open>
  \<open>int64(spec.CPUQuota * 1e9)\<close>: the product rounded to 53 bits, half to even, then cut off
  towards zero; out of range the conversion gives the least integer (as amd64 does). A result
  below the normal range is cut off to zero either way.
\<close>

fun bit_len :: "nat \<Rightarrow> nat" where
  "bit_len n = (if n = 0 then 0 else Suc (bit_len (n div 2)))"

declare bit_len.simps [simp del]

definition round_53 :: "nat \<Rightarrow> nat \<times> nat" where
  "round_53 p =
     (let sh = bit_len p - 53; q = p div 2 ^ sh; r = p mod 2 ^ sh in
      if 2 * r > 2 ^ sh \<or> (2 * r = 2 ^ sh \<and> odd q) then (Suc q, sh) else (q, sh))"

definition nano_cpus :: "f64 \<Rightarrow> int" where
  "nano_cpus x =
     (let n = unat x; neg = n div 2 ^ 63 = 1; e = (n div 2 ^ 52) mod 2048; frac = n mod 2 ^ 52;
          m = (if e = 0 then frac else frac + 2 ^ 52); ex = int (max e 1) - 1075;
          (q, sh) = round_53 (m * 10 ^ 9); k = int sh + ex;
          v = (if k \<ge> 0 then q * 2 ^ nat k else q div 2 ^ nat (- k));
          i = (if neg then - int v else int v) in
      if e = 2047 \<or> \<not> int64_ok i then - (2 ^ 63) else i)"

section \<open>Starting and stopping\<close>

text \<open>The port the kernel gives a listener on port 0, closed at once.\<close>

definition pick_free_port :: "int result \<Rightarrow> u32 result" where
  "pick_free_port listened = rbind listened (\<lambda>p. Inr (word_of_int p))"

definition server_mounts :: "paths \<Rightarrow> server_spec \<Rightarrow> mount list" where
  "server_mounts p spec =
     [\<lparr>mt_type = Bind, mt_source = path_join [pt_template_root p, sp_template_id spec],
        mt_target = ''/template'', mt_read_only = True, mt_tmpfs = None\<rparr>,
      \<lparr>mt_type = Bind, mt_source = path_join [pt_scratch_root p, sp_id spec],
        mt_target = ''/data'', mt_read_only = False, mt_tmpfs = None\<rparr>,
      \<lparr>mt_type = Tmpfs, mt_source = [], mt_target = ''/tmp'', mt_read_only = False,
        mt_tmpfs = Some (64 * 1024 * 1024, 1023)\<rparr>]"

definition port_key :: "server_spec \<Rightarrow> string" where
  "port_key spec = itoa (uint (sp_minecraft_port spec)) @ ''/tcp''"

text \<open>The environment: three variables of the daemon, then the map of the spec in any order.\<close>

definition server_env :: "order \<Rightarrow> server_spec \<Rightarrow> string list" where
  "server_env ord spec =
     [''EULA=TRUE'', ''AETHERNET_SERVER_ID='' @ sp_id spec, ''AETHERNET_TEMPLATE='' @ sp_template_id spec]
     @ map (\<lambda>(k, v). k @ ''='' @ v) (mrange ord (GoMap (sp_env spec)))"

definition server_container :: "order \<Rightarrow> server_spec \<Rightarrow> container_config" where
  "server_container ord spec =
     \<lparr>cc_image = sp_image spec, cc_env = server_env ord spec, cc_exposed = [port_key spec],
      cc_labels = [(''aethernet.server_id'', sp_id spec), (''aethernet.template_id'', sp_template_id spec),
        (''aethernet.group_id'', sp_group_id spec)],
      cc_working_dir = ''/data'', cc_attach_stdout = True, cc_attach_stderr = True\<rparr>"

text \<open>\<open>memBytes\<close>: the error of \<open>RAMInBytes\<close> is dropped, a zero becomes two gibibytes.\<close>

definition memory_bytes :: "'h engine \<Rightarrow> server_spec \<Rightarrow> int" where
  "memory_bytes api spec =
     (let b = api_ram_in_bytes api (itoa (uint (sp_memory_mb spec)) @ ''m'')
      in if b = 0 then 2 * 1024 * 1024 * 1024 else b)"

definition server_host_config :: "'h engine \<Rightarrow> paths \<Rightarrow> server_spec \<Rightarrow> u32 \<Rightarrow> host_config" where
  "server_host_config api p spec host_port =
     \<lparr>hc_mounts = server_mounts p spec,
      hc_port_bindings = [(port_key spec, [\<lparr>pb_host_ip = ''0.0.0.0'', pb_host_port = itoa (uint host_port)\<rparr>])],
      hc_memory = memory_bytes api spec, hc_nano_cpus = nano_cpus (sp_cpu_quota spec),
      hc_auto_remove = False, hc_restart_policy = ''unless-stopped'', hc_network_mode = pt_network p\<rparr>"

definition start_server ::
  "'h os_ops \<Rightarrow> 'h engine \<Rightarrow> controller \<Rightarrow> order \<Rightarrow> int result \<Rightarrow> server_spec \<Rightarrow> 'h
     \<Rightarrow> (string \<times> u32) result \<times> 'h" where
  "start_server os api c ord listened spec h =
     (case c of
        None \<Rightarrow> (Inl err_disabled, h)
      | Some p \<Rightarrow>
          (case os_mkdir_all os (path_join [pt_scratch_root p, sp_id spec]) h of
             (Some e, h1) \<Rightarrow> (Inl (ErrWrap ''scratch mkdir: '' e []), h1)
           | (None, h1) \<Rightarrow>
               (case pick_free_port listened of
                  Inl e \<Rightarrow> (Inl e, h1)
                | Inr host_port \<Rightarrow>
                    (case api_create api (server_container ord spec) (server_host_config api p spec host_port)
                            [pt_network p] (container_name (sp_id spec)) h1 of
                       (Inl e, h2) \<Rightarrow> (Inl (ErrWrap ''container create: '' e []), h2)
                     | (Inr cid, h2) \<Rightarrow>
                         (case api_start api cid h2 of
                            (Some e, h3) \<Rightarrow> (Inl (ErrWrap ''container start: '' e []), h3)
                          | (None, h3) \<Rightarrow> (Inr (cid, host_port), h3))))))"

definition stop_container :: "'h engine \<Rightarrow> controller \<Rightarrow> string \<Rightarrow> u32 \<Rightarrow> 'h \<Rightarrow> err \<times> 'h" where
  "stop_container api c server_id grace_sec h =
     (case c of
        None \<Rightarrow> (Some err_disabled, h)
      | Some p \<Rightarrow>
          let g = uint grace_sec; timeout = (if g \<le> 0 then 30 else g)
          in api_stop api (container_name server_id) timeout h)"

section \<open>Removing\<close>

text \<open>The name of an entry: what follows its first slash.\<close>

definition strip_first :: "string \<Rightarrow> string" where
  "strip_first name = (case index_byte name CHR ''/'' of None \<Rightarrow> name | Some i \<Rightarrow> drop (Suc i) name)"

definition extract_entry ::
  "'h os_ops \<Rightarrow> string \<Rightarrow> tar_header \<Rightarrow> u8 list result \<Rightarrow> 'h \<Rightarrow> err \<times> 'h" where
  "extract_entry os dest_dir hdr content h =
     (let name = strip_first (th_name hdr) in
      if name = [] \<or> contains name ''..'' then (None, h)
      else let dest = path_join [dest_dir, name] in
        case th_type hdr of
          TypeDir \<Rightarrow> os_mkdir_all os dest h
        | TypeReg \<Rightarrow>
            (case os_mkdir_all os (path_dir dest) h of
               (Some e, h1) \<Rightarrow> (Some e, h1)
             | (None, h1) \<Rightarrow>
                 (case os_open_file os dest (th_mode hdr) h1 of
                    (Inl e, h2) \<Rightarrow> (Some e, h2)
                  | (Inr f, h2) \<Rightarrow>
                      (case os_copy os f content h2 of
                         (copy_err, h3) \<Rightarrow> (copy_err, snd (os_close os f h3)))))
        | TypeOther _ \<Rightarrow> (None, h))"

fun extract_tar :: "'h os_ops \<Rightarrow> string \<Rightarrow> tar_item list \<Rightarrow> 'h \<Rightarrow> err \<times> 'h" where
  "extract_tar os dest_dir [] h = (None, h)"
| "extract_tar os dest_dir (TarFail e # items) h = (Some e, h)"
| "extract_tar os dest_dir (TarEntry hdr content # items) h =
     (case extract_entry os dest_dir hdr content h of
        (Some e, h') \<Rightarrow> (Some e, h')
      | (None, h') \<Rightarrow> extract_tar os dest_dir items h')"

definition salvage_logs :: "'h os_ops \<Rightarrow> 'h engine \<Rightarrow> controller \<Rightarrow> string \<Rightarrow> 'h \<Rightarrow> err \<times> 'h" where
  "salvage_logs os api c server_id h =
     (case c of
        None \<Rightarrow> (Some err_disabled, h)
      | Some p \<Rightarrow>
          (case api_copy_from api (container_name server_id) ''/tmp'' h of
             (Inl e, h1) \<Rightarrow>
               if api_not_found api e then (None, h1)
               else (Some (ErrWrap ''copy /tmp from container: '' e []), h1)
           | (Inr items, h1) \<Rightarrow>
               let dest = path_join [pt_scratch_root p, server_id, ''salvage''] in
               (case os_mkdir_all os dest h1 of
                  (Some e, h2) \<Rightarrow> (Some (ErrWrap ''mkdir salvage: '' e []), h2)
                | (None, h2) \<Rightarrow>
                    (case extract_tar os dest items h2 of
                       (Some e, h3) \<Rightarrow> (Some (ErrWrap ''extract salvage tar: '' e []), h3)
                     | (None, h3) \<Rightarrow> (None, h3)))))"

definition remove_container ::
  "'h os_ops \<Rightarrow> 'h engine \<Rightarrow> controller \<Rightarrow> string \<Rightarrow> bool \<Rightarrow> 'h \<Rightarrow> err \<times> 'h" where
  "remove_container os api c server_id purge_volume h =
     (case c of
        None \<Rightarrow> (Some err_disabled, h)
      | Some p \<Rightarrow>
          (case api_remove api (container_name server_id) True (snd (salvage_logs os api c server_id h)) of
             (e, h1) \<Rightarrow>
               (case e of
                  Some x \<Rightarrow>
                    if \<not> api_not_found api x then (Some x, h1)
                    else if purge_volume then os_remove_all os (path_join [pt_scratch_root p, server_id]) h1
                    else (None, h1)
                | None \<Rightarrow>
                    if purge_volume then os_remove_all os (path_join [pt_scratch_root p, server_id]) h1
                    else (None, h1))))"

section \<open>Logs and commands\<close>

text \<open>\<open>StreamLogs\<close>: what is written to \<open>dst\<close>, and the error.\<close>

definition docker_stream_logs ::
  "'h engine \<Rightarrow> controller \<Rightarrow> string \<Rightarrow> bool \<Rightarrow> u32 \<Rightarrow> 'h \<Rightarrow> (string \<times> err) \<times> 'h" where
  "docker_stream_logs api c server_id follow tail_lines h =
     (case c of
        None \<Rightarrow> (([], Some err_disabled), h)
      | Some p \<Rightarrow>
          let tail = (if tail_lines > 0 then itoa (uint tail_lines) else ''all'') in
          (case api_logs api (container_name server_id)
                  \<lparr>lo_stdout = True, lo_stderr = True, lo_follow = follow, lo_tail = tail\<rparr> h of
             (Inl e, h1) \<Rightarrow> (([], Some e), h1)
           | (Inr (text, e), h1) \<Rightarrow> ((text, if e = Some ErrEOF then None else e), h1)))"

definition docker_exec ::
  "'h engine \<Rightarrow> controller \<Rightarrow> string \<Rightarrow> string \<Rightarrow> 'h \<Rightarrow> (string \<times> int \<times> err) \<times> 'h" where
  "docker_exec api c server_id cmd h =
     (case c of
        None \<Rightarrow> (([], -1, Some err_disabled), h)
      | Some p \<Rightarrow>
          (case api_exec_create api (container_name server_id) [''/bin/sh'', ''-c'', cmd] h of
             (Inl e, h1) \<Rightarrow> (([], -1, Some e), h1)
           | (Inr x, h1) \<Rightarrow>
               (case api_exec_attach api x h1 of
                  (Inl e, h2) \<Rightarrow> (([], -1, Some e), h2)
                | (Inr (text, e), h2) \<Rightarrow>
                    if e \<noteq> None \<and> e \<noteq> Some ErrEOF then (([], -1, e), h2)
                    else (case api_exec_inspect api x h2 of (status, h3) \<Rightarrow> ((text, status, None), h3)))))"

end
