(* ===== verification/Sql.thy ===== *)
theory Sql
  imports GoStrings
begin

text \<open>
  How MariaDB splits a statement into tokens, the yardstick for the code that pastes names into
  statements: words, identifiers in backticks, texts in single quotes (a quote is doubled or
  follows a backslash) and single characters; space separates. Comments are left out.
\<close>

datatype sql_token = Word string | Quoted string | Text string | Sym char | Unclosed

datatype lex_mode = Plain | InTick | InText

definition tick :: char where "tick = CHR 0x60"
definition squote :: char where "squote = CHR 0x27"
definition backslash :: char where "backslash = CHR 0x5C"

definition word_char :: "char \<Rightarrow> bool" where
  "word_char c \<longleftrightarrow> (let n = code c in
     (48 \<le> n \<and> n \<le> 57) \<or> (65 \<le> n \<and> n \<le> 90) \<or> (97 \<le> n \<and> n \<le> 122) \<or> n = 95 \<or> n = 36 \<or> 128 \<le> n)"

definition flush_word :: "string \<Rightarrow> sql_token list" where
  "flush_word w = (if w = [] then [] else [Word w])"

fun lex :: "lex_mode \<Rightarrow> string \<Rightarrow> string \<Rightarrow> sql_token list" where
  "lex Plain w [] = flush_word w"
| "lex Plain w (c # cs) =
     (if word_char c then lex Plain (w @ [c]) cs
      else flush_word w @
        (if c = tick then lex InTick [] cs
         else if c = squote then lex InText [] cs
         else if is_space c then lex Plain [] cs
         else Sym c # lex Plain [] cs))"
| "lex InTick w [] = [Unclosed]"
| "lex InTick w (c # cs) =
     (if c \<noteq> tick then lex InTick (w @ [c]) cs
      else case cs of
             [] \<Rightarrow> [Quoted w]
           | d # ds \<Rightarrow> if d = tick then lex InTick (w @ [tick]) ds else Quoted w # lex Plain [] (d # ds))"
| "lex InText w [] = [Unclosed]"
| "lex InText w (c # cs) =
     (if c = backslash then (case cs of [] \<Rightarrow> [Unclosed] | d # ds \<Rightarrow> lex InText (w @ [d]) ds)
      else if c \<noteq> squote then lex InText (w @ [c]) cs
      else case cs of
             [] \<Rightarrow> [Text w]
           | d # ds \<Rightarrow> if d = squote then lex InText (w @ [squote]) ds else Text w # lex Plain [] (d # ds))"

definition sql_lex :: "string \<Rightarrow> sql_token list" where
  "sql_lex s = lex Plain [] s"

section \<open>Splitting a statement at its quotes\<close>

lemma word_not_quote: "word_char c \<Longrightarrow> c \<noteq> tick \<and> c \<noteq> squote \<and> c \<noteq> backslash"
  by (auto simp: word_char_def tick_def squote_def backslash_def code_def Let_def)

lemma lex_word: "list_all word_char s \<Longrightarrow> lex Plain w (s @ rest) = lex Plain (w @ s) rest"
  by (induction s arbitrary: w) simp_all

lemma lex_tick:
  assumes "list_all word_char s"
  shows "c \<noteq> tick \<Longrightarrow> lex InTick w (s @ tick # c # rest) = Quoted (w @ s) # lex Plain [] (c # rest)"
    and "lex InTick w (s @ [tick]) = [Quoted (w @ s)]"
  using assms by (induction s arbitrary: w) (auto dest: word_not_quote)

lemma lex_text:
  assumes "list_all word_char s"
  shows "c \<noteq> squote \<Longrightarrow> lex InText w (s @ squote # c # rest) = Text (w @ s) # lex Plain [] (c # rest)"
    and "lex InText w (s @ [squote]) = [Text (w @ s)]"
proof -
  have nb: "squote \<noteq> backslash" by (simp add: squote_def backslash_def)
  show "c \<noteq> squote \<Longrightarrow> lex InText w (s @ squote # c # rest) = Text (w @ s) # lex Plain [] (c # rest)"
    and "lex InText w (s @ [squote]) = [Text (w @ s)]"
    using assms nb by (induction s arbitrary: w) (auto dest: word_not_quote)
qed

text \<open>Evaluation of the literal parts.\<close>

lemmas lex_eval = word_char_def code_def Let_def flush_word_def is_space_def tick_def squote_def

end
