(* ===== verification/Workbench.thy ===== *)
theory Workbench
  imports Sql ClusterTypes Json
begin

text \<open>
  daemon/internal/database/workbench.go: the SQL gateway of the panel. A pool of connections is a
  value the driver hands out for a data source name; what it answers is a function of the
  database's state. \<open>elapsed\<close> is \<open>time.Since(start)\<close>.
\<close>

section \<open>The driver\<close>

text \<open>
  What a column of a row scans to behind \<open>any\<close>: SQL's NULL, a number, bytes (what the driver's
  text protocol gives for every text column), or another value with the text \<open>fmt\<close> prints for it.
\<close>

datatype sql_value = VNull | VInt int | VBytes "u8 list" | VOther string

record column_type =
  ct_name :: string
  ct_db_type :: string
  ct_nullable :: bool

record sql_rows =
  sr_types :: "column_type list result"
  sr_rows :: "sql_value list result list"

record ('p, 'd) sql_driver =
  sd_open :: "string \<Rightarrow> 'p result"
  sd_query :: "'p \<Rightarrow> string \<Rightarrow> 'd \<Rightarrow> sql_rows result \<times> 'd"
  sd_exec :: "'p \<Rightarrow> string \<Rightarrow> 'd \<Rightarrow> int result \<times> 'd"

section \<open>Pools\<close>

record pool_config =
  pc_host :: string
  pc_port :: u32
  pc_admin_user :: string
  pc_admin_password :: string
  pc_max_row_limit :: u32
  pc_connect_timeout :: duration

text \<open>The map of pools is never nil: \<open>NewWorkbench\<close> makes it.\<close>

record 'p workbench =
  wk_pools :: "(string \<times> 'p) list"
  wk_cfg :: pool_config

definition new_workbench :: "pool_config \<Rightarrow> 'p workbench" where
  "new_workbench c =
     (let c1 = (if pc_max_row_limit c = 0 then c\<lparr>pc_max_row_limit := 10000\<rparr> else c);
          c2 = (if pc_connect_timeout c1 = 0 then c1\<lparr>pc_connect_timeout := 5 * second\<rparr> else c1)
      in \<lparr>wk_pools = [], wk_cfg = c2\<rparr>)"

text \<open>\<open>Duration.String\<close>: hours, minutes and seconds, or a unit below the second.\<close>

definition frac_digits :: "nat \<Rightarrow> nat \<Rightarrow> string" where
  "frac_digits v prec =
     (let ds = nat_digits v; padded = replicate (prec - length ds) CHR ''0'' @ ds;
          t = rev (dropWhile (\<lambda>c. c = CHR ''0'') (rev padded))
      in if t = [] then [] else ''.'' @ t)"

definition with_frac :: "nat \<Rightarrow> nat \<Rightarrow> string" where
  "with_frac u prec = nat_digits (u div 10 ^ prec) @ frac_digits (u mod 10 ^ prec) prec"

definition duration_string :: "duration \<Rightarrow> string" where
  "duration_string d =
     (let u = nat \<bar>d\<bar>; sign = (if d < 0 then ''-'' else []) in
      if u = 0 then ''0s''
      else if u < 1000 then sign @ nat_digits u @ ''ns''
      else if u < 1000000 then sign @ with_frac u 3 @ map char_of [194 :: nat, 181] @ ''s''
      else if u < 1000000000 then sign @ with_frac u 6 @ ''ms''
      else let s = u div 1000000000; m = s div 60; h = m div 60 in
        sign @ (if h > 0 then nat_digits h @ ''h'' else [])
             @ (if m > 0 then nat_digits (m mod 60) @ ''m'' else [])
             @ nat_digits (s mod 60) @ frac_digits (u mod 1000000000) 9 @ ''s'')"

definition dsn :: "pool_config \<Rightarrow> database \<Rightarrow> string" where
  "dsn c db = pc_admin_user c @ '':'' @ pc_admin_password c @ ''@tcp('' @ pc_host c @ '':'' @ itoa (uint (pc_port c))
     @ '')/'' @ d_name db @ ''?multiStatements=false&parseTime=true&timeout='' @ duration_string (pc_connect_timeout c)"

definition pool_for ::
  "('p, 'd) sql_driver \<Rightarrow> database \<Rightarrow> 'p workbench \<Rightarrow> 'p result \<times> 'p workbench" where
  "pool_for sd db w =
     (case map_of (wk_pools w) (d_name db) of
        Some p \<Rightarrow> (Inr p, w)
      | None \<Rightarrow>
          (case sd_open sd (dsn (wk_cfg w) db) of
             Inl e \<Rightarrow> (Inl e, w)
           | Inr p \<Rightarrow> (Inr p, w\<lparr>wk_pools := AList.update (d_name db) p (wk_pools w)\<rparr>)))"

section \<open>Results\<close>

record column =
  co_name :: string
  co_type :: string
  co_nullable :: bool

record query_result =
  qr_columns :: "column list"
  qr_rows :: "string list list"
  qr_null_masks :: "u64 list"
  qr_rows_affected :: u64
  qr_duration_ms :: int

definition enc_column :: "column \<Rightarrow> json" where
  "enc_column c = JObj [(''name'', JStr (co_name c)), (''type'', JStr (co_type c)), (''nullable'', JBool (co_nullable c))]"

text \<open>A slice that nothing was appended to is nil and encodes to \<open>null\<close>.\<close>

definition enc_nilable :: "('a \<Rightarrow> json) \<Rightarrow> 'a list \<Rightarrow> json" where
  "enc_nilable f xs = (if xs = [] then JNull else JArr (map f xs))"

definition enc_query_result :: "query_result \<Rightarrow> json" where
  "enc_query_result q = JObj
     ([(''columns'', enc_nilable enc_column (qr_columns q)),
       (''rows'', enc_nilable (\<lambda>row. JArr (map JStr row)) (qr_rows q))]
      @ (if qr_null_masks q = [] then [] else [(''null_masks'', JArr (map (\<lambda>m. JInt (uint m)) (qr_null_masks q)))])
      @ [(''rows_affected'', JInt (uint (qr_rows_affected q))), (''duration_ms'', JInt (qr_duration_ms q))])"

text \<open>\<open>Duration.Milliseconds\<close>.\<close>

definition milliseconds :: "duration \<Rightarrow> int" where
  "milliseconds d = (if d < 0 then - ((- d) div 1000000) else d div 1000000)"

text \<open>\<open>fmt.Sprint\<close> of a value: bytes print as their numbers.\<close>

definition sprint_bytes :: "u8 list \<Rightarrow> string" where
  "sprint_bytes bs = ''['' @ join '' '' (map (\<lambda>b. nat_digits (unat b)) bs) @ '']''"

fun cell :: "sql_value \<Rightarrow> string" where
  "cell VNull = []"
| "cell (VInt i) = itoa i"
| "cell (VBytes bs) = sprint_bytes bs"
| "cell (VOther s) = s"

definition null_mask :: "sql_value list \<Rightarrow> u64" where
  "null_mask vs = fold (\<lambda>(i, v) m. if v = VNull then m OR push_bit i 1 else m) (enumerate 0 vs) 0"

fun scan_rows :: "u32 \<Rightarrow> sql_value list result list \<Rightarrow> query_result \<Rightarrow> query_result result" where
  "scan_rows limit [] out = Inr out"
| "scan_rows limit (r # rs) out =
     (if \<not> (word_of_nat (length (qr_rows out)) < limit) then Inr out
      else case r of
             Inl e \<Rightarrow> Inl e
           | Inr vs \<Rightarrow> scan_rows limit rs
               (out\<lparr>qr_rows := qr_rows out @ [map cell vs], qr_null_masks := qr_null_masks out @ [null_mask vs]\<rparr>))"

definition empty_result :: "duration \<Rightarrow> query_result" where
  "empty_result dur = \<lparr>qr_columns = [], qr_rows = [], qr_null_masks = [], qr_rows_affected = 0,
     qr_duration_ms = milliseconds dur\<rparr>"

definition scan_result :: "sql_rows \<Rightarrow> u32 \<Rightarrow> duration \<Rightarrow> query_result result" where
  "scan_result rows limit dur =
     (case sr_types rows of
        Inl e \<Rightarrow> Inl e
      | Inr cts \<Rightarrow> scan_rows limit (sr_rows rows) ((empty_result dur)\<lparr>qr_columns :=
          map (\<lambda>ct. \<lparr>co_name = ct_name ct, co_type = ct_db_type ct, co_nullable = ct_nullable ct\<rparr>) cts\<rparr>))"

section \<open>Queries\<close>

definition dangerous_pragmas :: "string list" where
  "dangerous_pragmas = [''information_schema'', ''mysql.user'', ''mysql.db'', ''performance_schema'']"

definition blocked_by :: "string \<Rightarrow> string option" where
  "blocked_by low = find (contains low) dangerous_pragmas"

definition is_selectish :: "string \<Rightarrow> bool" where
  "is_selectish low \<longleftrightarrow> list_ex (has_prefix low) [''select'', ''show'', ''describe'', ''explain'', ''with'']"

definition clamp_rows :: "pool_config \<Rightarrow> u32 \<Rightarrow> u32" where
  "clamp_rows c limit = (if limit = 0 \<or> limit > pc_max_row_limit c then pc_max_row_limit c else limit)"

definition run_query ::
  "('p, 'd) sql_driver \<Rightarrow> duration \<Rightarrow> 'p \<Rightarrow> string \<Rightarrow> u32 \<Rightarrow> 'd \<Rightarrow> query_result result \<times> 'd" where
  "run_query sd elapsed p q limit d =
     (if is_selectish (to_lower q) then
        (case sd_query sd p q d of
           (Inl e, d') \<Rightarrow> (Inl e, d')
         | (Inr rows, d') \<Rightarrow> (scan_result rows limit elapsed, d'))
      else
        (case sd_exec sd p q d of
           (Inl e, d') \<Rightarrow> (Inl e, d')
         | (Inr n, d') \<Rightarrow> (Inr ((empty_result elapsed)\<lparr>qr_rows_affected := word_of_int n\<rparr>), d')))"

definition workbench_query ::
  "('p, 'd) sql_driver \<Rightarrow> duration \<Rightarrow> database \<Rightarrow> string \<Rightarrow> u32 \<Rightarrow> 'p workbench \<times> 'd
     \<Rightarrow> query_result result \<times> 'p workbench \<times> 'd" where
  "workbench_query sd elapsed db query row_limit st =
     (let q = trim_space query; (w, d) = st in
      if q = [] then (Inl (Errorf ''empty query''), st)
      else case blocked_by (to_lower q) of
        Some b \<Rightarrow> (Inl (Errorf (''queries against '' @ b @ '' are not allowed in workbench'')), st)
      | None \<Rightarrow>
          (case pool_for sd db w of
             (Inl e, w') \<Rightarrow> (Inl e, w', d)
           | (Inr p, w') \<Rightarrow>
               (case run_query sd elapsed p q (clamp_rows (wk_cfg w) row_limit) d of (r, d') \<Rightarrow> (r, w', d'))))"

text \<open>\<open>rows.Scan\<close> into string variables, with the conversion an argument; the first error ends it.\<close>

fun collect :: "('a \<Rightarrow> 'b result) \<Rightarrow> 'a list \<Rightarrow> 'b list result" where
  "collect f [] = Inr []"
| "collect f (x # xs) = rbind (f x) (\<lambda>y. rbind (collect f xs) (\<lambda>ys. Inr (y # ys)))"

definition workbench_tables ::
  "('p, 'd) sql_driver \<Rightarrow> (sql_value list \<Rightarrow> string result) \<Rightarrow> database \<Rightarrow> 'p workbench \<times> 'd
     \<Rightarrow> string list result \<times> 'p workbench \<times> 'd" where
  "workbench_tables sd scan1 db st =
     (let (w, d) = st in
      case pool_for sd db w of
        (Inl e, w') \<Rightarrow> (Inl e, w', d)
      | (Inr p, w') \<Rightarrow>
          (case sd_query sd p ''SHOW TABLES'' d of
             (Inl e, d') \<Rightarrow> (Inl e, w', d')
           | (Inr rows, d') \<Rightarrow> (collect (\<lambda>r. rbind r scan1) (sr_rows rows), w', d')))"

text \<open>The pattern \<open>ident\<close>: a letter or underscore, then up to 63 letters, digits, underscores, dollars.\<close>

definition is_letter :: "char \<Rightarrow> bool" where
  "is_letter c \<longleftrightarrow> (let n = code c in (97 \<le> n \<and> n \<le> 122) \<or> (65 \<le> n \<and> n \<le> 90) \<or> n = 95)"

definition ident_match :: "string \<Rightarrow> bool" where
  "ident_match s \<longleftrightarrow> (case s of
     [] \<Rightarrow> False
   | c # cs \<Rightarrow> is_letter c \<and> length cs \<le> 63
       \<and> list_all (\<lambda>x. is_letter x \<or> (48 \<le> code x \<and> code x \<le> 57) \<or> code x = 36) cs)"

text \<open>A row of DESCRIBE scans to the field, its type and whether it may be null, and three more.\<close>

definition workbench_describe ::
  "('p, 'd) sql_driver \<Rightarrow> (sql_value list \<Rightarrow> (string \<times> string \<times> string) result) \<Rightarrow> database \<Rightarrow> string
     \<Rightarrow> 'p workbench \<times> 'd \<Rightarrow> column list result \<times> 'p workbench \<times> 'd" where
  "workbench_describe sd scan6 db table st =
     (let (w, d) = st in
      if \<not> ident_match table then (Inl (Errorf ''invalid table name''), st)
      else case pool_for sd db w of
        (Inl e, w') \<Rightarrow> (Inl e, w', d)
      | (Inr p, w') \<Rightarrow>
          (case sd_query sd p (''DESCRIBE '' @ [tick] @ table @ [tick]) d of
             (Inl e, d') \<Rightarrow> (Inl e, w', d')
           | (Inr rows, d') \<Rightarrow>
               (collect (\<lambda>r. rbind (rbind r scan6) (\<lambda>(field, ty, null). Inr
                  \<lparr>co_name = field, co_type = ty, co_nullable = (null = ''YES'')\<rparr>)) (sr_rows rows), w', d')))"

end
