(* ===== verification/Daemon.thy ===== *)
theory Daemon
  imports Config Docker Workbench ApiLaws
begin

text \<open>
  daemon/cmd/aether-daemon/main.go and \<open>cluster.New\<close>: how a daemon starts. The answers of the raft
  library, the file system and the docker client while starting are arguments; what comes out is
  the wiring: the settings, the docker controller, the workbench's pool settings.
\<close>

section \<open>Cluster.New\<close>

text \<open>The fallible steps, in order.\<close>

record cluster_steps =
  cs_mkdir :: err
  cs_resolve :: err
  cs_transport :: err
  cs_log_store :: err
  cs_stable_store :: err
  cs_snap_store :: err
  cs_raft :: err
  cs_has_state :: bool
  cs_bootstrap :: err

fun first_error :: "(string \<times> err) list \<Rightarrow> err" where
  "first_error [] = None"
| "first_error ((what, e) # rest) =
     (case e of Some x \<Rightarrow> Some (ErrWrap what x []) | None \<Rightarrow> first_error rest)"

text \<open>A new cluster has no join hook; the flag says whether it was bootstrapped.\<close>

record cluster_handle =
  ch_hook :: "(string \<Rightarrow> string \<Rightarrow> err op) option"
  ch_bootstrapped :: bool

definition cluster_new :: "bool \<Rightarrow> cluster_steps \<Rightarrow> cluster_handle result" where
  "cluster_new bootstrap s =
     (case cs_mkdir s of
        Some e \<Rightarrow> Inl e
      | None \<Rightarrow>
          (case first_error [(''resolve advertise: '', cs_resolve s), (''transport: '', cs_transport s),
              (''log store: '', cs_log_store s), (''stable store: '', cs_stable_store s),
              (''snap store: '', cs_snap_store s), (''raft: '', cs_raft s)] of
             Some e \<Rightarrow> Inl e
           | None \<Rightarrow>
               if bootstrap \<and> \<not> cs_has_state s then
                 (case cs_bootstrap s of
                    Some e \<Rightarrow> Inl (ErrWrap ''bootstrap: '' e [])
                  | None \<Rightarrow> Inr \<lparr>ch_hook = None, ch_bootstrapped = True\<rparr>)
               else Inr \<lparr>ch_hook = None, ch_bootstrapped = False\<rparr>))"

section \<open>Addresses\<close>

text \<open>\<open>net.SplitHostPort\<close>, without its error texts.\<close>

definition last_index :: "string \<Rightarrow> char \<Rightarrow> nat option" where
  "last_index s c = map_option (\<lambda>i. length s - 1 - i) (index_byte (rev s) c)"

definition split_host_port :: "string \<Rightarrow> (string \<times> string) option" where
  "split_host_port s =
     (case last_index s CHR '':'' of
        None \<Rightarrow> None
      | Some i \<Rightarrow>
          if has_prefix s ''['' then
            (case index_byte s CHR '']'' of
               None \<Rightarrow> None
             | Some e \<Rightarrow>
                 if Suc e \<noteq> i then None
                 else if CHR ''['' \<in> set (drop 1 s) \<or> CHR '']'' \<in> set (drop (Suc e) s) then None
                 else Some (take (e - 1) (drop 1 s), drop (Suc i) s))
          else if CHR '':'' \<in> set (take i s) then None
          else if CHR ''['' \<in> set s \<or> CHR '']'' \<in> set s then None
          else Some (take i s, drop (Suc i) s))"

text \<open>\<open>fmt.Sscanf(s, "%d", &port)\<close> into 32 bits: leading digits, or the old value.\<close>

definition scan_port :: "string \<Rightarrow> u32 \<Rightarrow> u32" where
  "scan_port s old =
     (let ds = takeWhile is_digit (dropWhile is_space s); v = digits_value ds
      in if ds = [] \<or> v \<ge> 2 ^ 32 then old else word_of_int v)"

definition workbench_pool :: "config \<Rightarrow> pool_config" where
  "workbench_pool cfg =
     (let (host, port) = (case split_host_port (cf_mariadb_addr cfg) of
            Some (h, p) \<Rightarrow> (h, scan_port p 3306)
          | None \<Rightarrow> (cf_mariadb_addr cfg, 3306))
      in \<lparr>pc_host = host, pc_port = port, pc_admin_user = cf_mariadb_user cfg,
          pc_admin_password = cf_mariadb_pass cfg, pc_max_row_limit = 0, pc_connect_timeout = 0\<rparr>)"

section \<open>Starting\<close>

record daemon_flags =
  df_bootstrap :: bool
  df_join_addr :: string
  df_join_token :: string

record start_answers =
  sa_config :: "config result"
  sa_config_missing :: bool
  sa_default :: config
  sa_fsm :: err
  sa_cluster :: cluster_steps
  sa_docker :: err
  sa_sftp :: err

record daemon =
  dm_config :: config
  dm_bootstrapped :: bool
  dm_docker :: controller
  dm_pool :: "unit workbench"

text \<open>
  \<open>run\<close>, up to the point where the API server is started. The services started before it in
  goroutines are modelled in their own theories. A docker client that fails gives the nil
  controller; writing a default configuration may fail silently.
\<close>

definition run_daemon :: "daemon_flags \<Rightarrow> start_answers \<Rightarrow> daemon result op" where
  "run_daemon f a =
     (case (case sa_config a of
              Inr c \<Rightarrow> Inr c
            | Inl e \<Rightarrow> if \<not> sa_config_missing a \<or> \<not> df_bootstrap f then Inl (ErrWrap ''load config: '' e [])
                       else Inr (sa_default a)) of
        Inl e \<Rightarrow> ret (Inl e)
      | Inr cfg \<Rightarrow>
          (case sa_fsm a of
             Some e \<Rightarrow> ret (Inl (ErrWrap ''init fsm: '' e []))
           | None \<Rightarrow>
               (case cluster_new (df_bootstrap f) (sa_cluster a) of
                  Inl e \<Rightarrow> ret (Inl (ErrWrap ''init cluster: '' e []))
                | Inr clu \<Rightarrow>
                    andthen (if df_join_addr f \<noteq> [] then join_existing (ch_hook clu) (df_join_addr f) (df_join_token f)
                             else ret None) (\<lambda>joined. ret
                      (case joined of
                         Some e \<Rightarrow> Inl (ErrWrap ''join cluster: '' e [])
                       | None \<Rightarrow>
                           (case sa_sftp a of
                              Some e \<Rightarrow> Inl (ErrWrap ''init sftp: '' e [])
                            | None \<Rightarrow> Inr
                                \<lparr>dm_config = cfg, dm_bootstrapped = ch_bootstrapped clu,
                                 dm_docker = (case docker_new (sa_docker a) of Inl _ \<Rightarrow> None | Inr c \<Rightarrow> c),
                                 dm_pool = new_workbench (workbench_pool cfg)\<rparr>))))))"

text \<open>
  The API server is built with the workbench, which is never nil; \<open>api\<close> is what its handlers see
  of it, \<open>dk\<close> and \<open>get\<close> of docker and of the network.
\<close>

definition daemon_api_opts ::
  "daemon \<Rightarrow> (unit workbench \<Rightarrow> workbench_api) \<Rightarrow> docker_api \<Rightarrow> (string \<Rightarrow> (nat \<times> wire) result op) \<Rightarrow> api_opts" where
  "daemon_api_opts dm api dk get =
     \<lparr>ao_docker = map_option (\<lambda>_. dk) (dm_docker dm), ao_workbench = Some (api (dm_pool dm)), ao_http_get = get\<rparr>"

section \<open>What becomes of it\<close>

lemma cluster_new_hook: "cluster_new b s = Inr clu \<Longrightarrow> ch_hook clu = None"
  by (auto simp: cluster_new_def split: option.splits if_splits)

text \<open>C5. A daemon never joins a cluster: the hook that would dial the other node is wired when the API
  server is started, which is after the join, so with an address to join every start ends with
  an error, whatever the network, the disk and the libraries answer.\<close>

theorem join_never_succeeds:
  assumes "df_join_addr f \<noteq> []" and "run_daemon f a E W = Some (r, W')"
  shows "isl r \<and> (sa_config a = Inr cfg \<and> sa_fsm a = None \<and> cluster_new (df_bootstrap f) (sa_cluster a) = Inr clu
    \<longrightarrow> r = Inl (ErrWrap ''join cluster: '' (Errorf ''cluster join hook not wired'') []))"
  using assms cluster_new_hook [of "df_bootstrap f" "sa_cluster a"]
  by (auto simp: run_daemon_def join_existing_def ret_def andthen_def split: sum.splits option.splits if_splits)

definition calm_steps :: cluster_steps where
  "calm_steps = \<lparr>cs_mkdir = None, cs_resolve = None, cs_transport = None, cs_log_store = None,
     cs_stable_store = None, cs_snap_store = None, cs_raft = None, cs_has_state = False, cs_bootstrap = None\<rparr>"

definition calm_answers :: start_answers where
  "calm_answers = \<lparr>sa_config = Inr (config_default (\<lambda>_. []) ''n1''), sa_config_missing = False,
     sa_default = config_default (\<lambda>_. []) ''n1'', sa_fsm = None, sa_cluster = calm_steps, sa_docker = None, sa_sftp = None\<rparr>"

theorem join_never_succeeds_witness:
  "run_daemon \<lparr>df_bootstrap = False, df_join_addr = ''n0:7001'', df_join_token = ''t''\<rparr> calm_answers calm_env boot_world
    = Some (Inl (ErrWrap ''join cluster: '' (Errorf ''cluster join hook not wired'') []), boot_world)"
proof -
  let ?f = "\<lparr>df_bootstrap = False, df_join_addr = ''n0:7001'', df_join_token = ''t''\<rparr>"
  have c: "cluster_new (df_bootstrap ?f) (sa_cluster calm_answers) = Inr \<lparr>ch_hook = None, ch_bootstrapped = False\<rparr>"
    by (simp add: cluster_new_def calm_answers_def calm_steps_def)
  obtain r where r: "run_daemon ?f calm_answers calm_env boot_world = Some (r, boot_world)"
    using c by (simp add: run_daemon_def calm_answers_def join_existing_def ret_def andthen_def)
  from join_never_succeeds [OF _ r, where cfg = "config_default (\<lambda>_. []) ''n1''"] c r
  show ?thesis by (simp add: calm_answers_def)
qed



end
