(* ===== verification/DockerLaws.thy ===== *)
theory DockerLaws
  imports Docker
begin

text \<open>
  Theorems of the docker controller: what it touches on the host when it removes a server and
  salvages its logs, and what a failed start leaves behind.
\<close>

section \<open>Confinement\<close>

definition engine_keeps :: "'h engine \<Rightarrow> ('h \<Rightarrow> bool) \<Rightarrow> bool" where
  "engine_keeps api P \<longleftrightarrow>
     (\<forall>h n f. P h \<longrightarrow> P (snd (api_remove api n f h))) \<and> (\<forall>h n p. P h \<longrightarrow> P (snd (api_copy_from api n p h)))"

lemma engine_keepsD:
  assumes "engine_keeps api P" and "P h"
  shows "P (snd (api_remove api n f h))" and "api_remove api n f h = (x, h') \<Longrightarrow> P h'"
    and "api_copy_from api n p h = (y, h') \<Longrightarrow> P h'"
  using assms unfolding engine_keeps_def by (metis snd_conv)+

lemma extract_entry_keeps:
  assumes "rooted dest" and "path_clean dest = dest" and "dest \<noteq> ''/''"
    and k: "keeps os (\<lambda>p. below dest p \<or> p = path_dir dest) P" and "P h"
  shows "P (snd (extract_entry os dest hdr content h))"
proof (cases "strip_first (th_name hdr) = [] \<or> contains (strip_first (th_name hdr)) ''..''")
  case True
  with assms(5) show ?thesis by (simp add: extract_entry_def Let_def)
next
  case False
  let ?name = "strip_first (th_name hdr)"
  let ?full = "path_join [dest, ?name]"
  have j: "?full = ''/'' @ join ''/'' (elems dest @ elems (''/'' @ ?name))"
    using False by (intro join_name_below(1) [OF assms(1)]) auto
  have pl: "\<forall>e\<in>set (elems (''/'' @ ?name)). plain e" by (rule elems_plain) (simp add: rooted_def)
  have full: "below dest ?full" by (rule joined_below [OF assms(1) j pl])
  have dir: "below dest (path_dir ?full) \<or> path_dir ?full = path_dir dest"
    by (rule dir_below [OF assms(1-3) j pl])
  note eqs = extract_entry_def Let_def if_not_P [OF False]
  show ?thesis
  proof (cases "th_type hdr")
    case TypeDir
    then show ?thesis using keepsD(6) [OF k assms(5), of ?full] full by (simp add: eqs)
  next
    case TypeReg
    obtain e1 h1 where m: "os_mkdir_all os (path_dir ?full) h = (e1, h1)" by fastforce
    with keeps_eq(7) [OF k assms(5)] dir have h1: "P h1" by blast
    obtain r h2 where o: "os_open_file os ?full (th_mode hdr) h1 = (r, h2)" by fastforce
    with keeps_eq(6) [OF k h1] full have h2: "P h2" by blast
    have "P (snd (os_close os f (snd (os_copy os f content h2))))" for f
      by (rule keepsD(3) [OF k]) (rule keepsD(1) [OF k h2])
    with TypeReg m o h1 h2 show ?thesis
      by (simp add: eqs split: option.split sum.split prod.split) (metis snd_conv)
  next
    case TypeOther
    then show ?thesis using assms(5) by (simp add: eqs)
  qed
qed

lemma extract_tar_keeps:
  assumes "rooted dest" and "path_clean dest = dest" and "dest \<noteq> ''/''"
    and k: "keeps os (\<lambda>p. below dest p \<or> p = path_dir dest) P"
  shows "P h \<Longrightarrow> P (snd (extract_tar os dest items h))"
proof (induction items arbitrary: h)
  case Nil
  then show ?case by simp
next
  case (Cons item items)
  show ?case
  proof (cases item)
    case (TarEntry hdr content)
    obtain e h' where x: "extract_entry os dest hdr content h = (e, h')" by fastforce
    with extract_entry_keeps [OF assms Cons.prems] have "P h'" by (metis snd_conv)
    with Cons.IH TarEntry x show ?thesis by (simp split: option.split)
  qed (use Cons.prems in simp)
qed

lemma salvage_dir:
  assumes "rooted rt" and "plain i"
  shows "rooted (path_join [rt, i, ''salvage''])" and "below (path_join [rt, i]) (path_join [rt, i, ''salvage''])"
    and "path_clean (path_join [rt, i, ''salvage'']) = path_join [rt, i, ''salvage'']"
    and "path_join [rt, i, ''salvage''] \<noteq> ''/''"
    and "path_dir (path_join [rt, i, ''salvage'']) = path_join [rt, i]"
    and "below (path_join [rt, i, ''salvage'']) p \<Longrightarrow> below (path_join [rt, i]) p"
proof -
  have sal: "plain ''salvage''" by (simp add: plain_def)
  note j = join_plain [OF assms] join_plain(3,4) [OF assms sal]
  have pl: "\<forall>e\<in>set (elems rt @ [i, ''salvage'']). plain e"
    using elems_plain [OF assms(1)] assms(2) sal by auto
  show r: "rooted (path_join [rt, i, ''salvage''])" unfolding j(5) by (simp add: rooted_def)
  show "path_clean (path_join [rt, i, ''salvage'']) = path_join [rt, i, ''salvage'']"
    unfolding path_clean_rooted [OF r] j(6) unfolding j(5) by (rule refl)
  show "path_join [rt, i, ''salvage''] \<noteq> ''/''"
    using j(6) elems_join [of "[]"] by auto
  show "path_dir (path_join [rt, i, ''salvage'']) = path_join [rt, i]"
    unfolding j(5,1) using path_dir_below [OF pl] by (simp add: butlast_append)
  show "below (path_join [rt, i]) (path_join [rt, i, ''salvage''])"
    using r j by (simp add: below_def)
  show "below (path_join [rt, i]) p" if "below (path_join [rt, i, ''salvage'']) p"
    using that take_take [of "length (elems rt) + 1" "length (elems rt) + 2" "elems p"]
    unfolding below_def j(2,6) by (auto simp: min_def)
qed

lemma salvage_keeps:
  assumes "rooted (pt_scratch_root p)" and "plain i" and "engine_keeps api P"
    and k: "keeps os (below (path_join [pt_scratch_root p, i])) P" and "P h"
  shows "P (snd (salvage_logs os api (Some p) i h))"
proof -
  let ?dest = "path_join [pt_scratch_root p, i, ''salvage'']"
  note d = salvage_dir [OF assms(1,2)]
  have k': "keeps os (\<lambda>q. below ?dest q \<or> q = path_dir ?dest) P"
    by (rule keeps_mono [OF k]) (use d(5,6) below_refl [OF join_plain_rooted [OF assms(1,2)]] in auto)
  obtain r h1 where c: "api_copy_from api (container_name i) ''/tmp'' h = (r, h1)" by fastforce
  with engine_keepsD(3) [OF assms(3,5)] have h1: "P h1" .
  obtain e h2 where m: "os_mkdir_all os ?dest h1 = (e, h2)" by fastforce
  with keeps_eq(7) [OF k h1] d(2) have h2: "P h2" by blast
  have "P (snd (extract_tar os ?dest items h2))" for items
    by (rule extract_tar_keeps [OF d(1,3,4) k' h2])
  with c m h1 h2 show ?thesis
    by (simp add: salvage_logs_def Let_def split: sum.split option.split prod.split) (metis snd_conv)
qed

text \<open>C30. Removing a server stays inside its directory: for a server id that is a plain name, every
  predicate of the host that the engine keeps, and that file operations at or below the
  server's scratch directory keep, is kept by \<open>RemoveServer\<close> and \<open>SalvageLogs\<close>, whatever names
  and types the container put into the archive of its logs.\<close>

theorem remove_confined:
  assumes "rooted (pt_scratch_root p)" and "plain i" and "engine_keeps api P"
    and "keeps os (below (path_join [pt_scratch_root p, i])) P" and "P h"
  shows "P (snd (salvage_logs os api (Some p) i h)) \<and> P (snd (remove_container os api (Some p) i purge h))"
proof
  show s: "P (snd (salvage_logs os api (Some p) i h))" by (rule salvage_keeps [OF assms])
  obtain e h1 where r: "api_remove api (container_name i) True (snd (salvage_logs os api (Some p) i h)) = (e, h1)"
    by fastforce
  with engine_keepsD(2) [OF assms(3) s] have h1: "P h1" .
  have "P (snd (os_remove_all os (path_join [pt_scratch_root p, i]) h1))"
    by (rule keepsD(8) [OF assms(4) h1]) (rule below_refl [OF join_plain_rooted [OF assms(1,2)]])
  with r h1 show "P (snd (remove_container os api (Some p) i purge h))"
    by (simp add: remove_container_def split: option.split)
qed

text \<open>An engine over the trace of paths, which also holds the names of the containers.\<close>

definition demo_engine :: "string list engine" where
  "demo_engine = \<lparr>api_create = \<lambda>cc hc nets n h. if n \<in> set h then (Inl (ErrExt 409), h) else (Inr n, n # h),
     api_start = \<lambda>cid h. (Some (ErrExt 500), h), api_stop = \<lambda>n t h. (None, h),
     api_remove = \<lambda>n f h. (None, removeAll n h),
     api_copy_from = \<lambda>n p h. (Inr [TarEntry \<lparr>th_name = ''tmp/a/latest.log'', th_type = TypeReg, th_mode = 420\<rparr> (Inr []),
       TarEntry \<lparr>th_name = ''tmp/../../x'', th_type = TypeReg, th_mode = 420\<rparr> (Inr [])], h),
     api_logs = \<lambda>n opts h. (Inr ([], None), h), api_exec_create = \<lambda>n cmd h. (Inr n, h),
     api_exec_attach = \<lambda>x h. (Inr ([], None), h), api_exec_inspect = \<lambda>x h. (0, h),
     api_not_found = \<lambda>e. e = ErrExt 404, api_ram_in_bytes = \<lambda>s. 0\<rparr>"

definition demo_paths :: paths where
  "demo_paths = \<lparr>pt_template_root = ''/templates'', pt_scratch_root = ''/scratch'', pt_network = ''aethernet''\<rparr>"

theorem remove_confined_witness:
  "list_all (below ''/scratch/s1'') (snd (remove_container tracing demo_engine (Some demo_paths) ''s1'' True []))"
proof -
  have j: "path_join [pt_scratch_root demo_paths, ''s1''] = ''/scratch/s1''"
    by (simp add: demo_paths_def path_join_def path_clean_def elems_def rooted_def)
  have "rooted (pt_scratch_root demo_paths)" by (simp add: demo_paths_def rooted_def)
  moreover have "engine_keeps demo_engine (list_all ok)" for ok
    by (simp add: engine_keeps_def demo_engine_def list_all_iff)
  moreover have "plain ''s1''" by (simp add: plain_def)
  ultimately show ?thesis
    using remove_confined [where p = demo_paths and i = "''s1''" and api = demo_engine and os = tracing
        and P = "list_all (below ''/scratch/s1'')" and h = "[]"] tracing_keeps [of "below ''/scratch/s1''"]
    unfolding j by simp
qed

section \<open>A failed start\<close>

text \<open>
  The engine's documented handling of names: a container created under a name holds it until
  it is removed, and a second one cannot be created under it.
\<close>

definition names_unique :: "'h os_ops \<Rightarrow> 'h engine \<Rightarrow> (string \<Rightarrow> 'h \<Rightarrow> bool) \<Rightarrow> bool" where
  "names_unique os api has \<longleftrightarrow>
     (\<forall>cc hc nets n h. case api_create api cc hc nets n h of
        (Inr _, h') \<Rightarrow> \<not> has n h \<and> has n h'
      | (Inl _, h') \<Rightarrow> has n h \<longrightarrow> has n h')
     \<and> (\<forall>n cid h. has n h \<longrightarrow> has n (snd (api_start api cid h)))
     \<and> (\<forall>n p h. has n h \<longrightarrow> has n (snd (os_mkdir_all os p h)))"

lemma names_uniqueD:
  assumes "names_unique os api has"
  shows "api_create api cc hc nets n h = (Inr cid, h') \<Longrightarrow> \<not> has n h \<and> has n h'"
    and "api_create api cc hc nets n h = (Inl e, h') \<Longrightarrow> has n h \<Longrightarrow> has n h'"
    and "api_start api cid h = (x, h') \<Longrightarrow> has n h \<Longrightarrow> has n h'"
    and "os_mkdir_all os q h = (y, h') \<Longrightarrow> has n h \<Longrightarrow> has n h'"
proof -
  have c: "case api_create api cc hc nets n h of (Inr _, h') \<Rightarrow> \<not> has n h \<and> has n h' | (Inl _, h') \<Rightarrow> has n h \<longrightarrow> has n h'"
    by (rule assms [unfolded names_unique_def, THEN conjunct1, THEN spec, THEN spec, THEN spec, THEN spec, THEN spec])
  show "api_create api cc hc nets n h = (Inr cid, h') \<Longrightarrow> \<not> has n h \<and> has n h'"
    and "api_create api cc hc nets n h = (Inl e, h') \<Longrightarrow> has n h \<Longrightarrow> has n h'" using c by simp_all
  show "api_start api cid h = (x, h') \<Longrightarrow> has n h \<Longrightarrow> has n h'"
    and "os_mkdir_all os q h = (y, h') \<Longrightarrow> has n h \<Longrightarrow> has n h'"
    using assms unfolding names_unique_def by (metis snd_conv)+
qed

text \<open>Starting the same server again and again.\<close>

fun start_many ::
  "'h os_ops \<Rightarrow> 'h engine \<Rightarrow> controller \<Rightarrow> server_spec \<Rightarrow> (order \<times> int result) list \<Rightarrow> 'h
     \<Rightarrow> (string \<times> u32) result list" where
  "start_many os api c spec [] h = []"
| "start_many os api c spec ((ord, listened) # tries) h =
     (case start_server os api c ord listened spec h of
        (r, h') \<Rightarrow> r # start_many os api c spec tries h')"

lemma start_refused:
  assumes u: "names_unique os api has" and "has (container_name (sp_id spec)) h"
  shows "\<exists>e h'. start_server os api c ord listened spec h = (Inl e, h') \<and> has (container_name (sp_id spec)) h'"
proof (cases c)
  case None
  with assms(2) show ?thesis by (simp add: start_server_def)
next
  case (Some p)
  let ?n = "container_name (sp_id spec)"
  obtain x h1 where m: "os_mkdir_all os (path_join [pt_scratch_root p, sp_id spec]) h = (x, h1)" by fastforce
  have h1: "has ?n h1" by (rule names_uniqueD(4) [OF u m assms(2)])
  show ?thesis
  proof (cases "x = None \<and> (\<exists>port. pick_free_port listened = Inr port)")
    case False
    with Some m h1 show ?thesis by (cases x; cases "pick_free_port listened") (auto simp: start_server_def)
  next
    case True
    then obtain port where port: "pick_free_port listened = Inr port" by blast
    obtain r h2 where cr: "api_create api (server_container ord spec) (server_host_config api p spec port)
        [pt_network p] ?n h1 = (r, h2)" by fastforce
    show ?thesis
    proof (cases r)
      case (Inl e)
      with cr names_uniqueD(2) [OF u _ h1] have "has ?n h2" by blast
      with Some m True port cr Inl show ?thesis by (simp add: start_server_def)
    next
      case (Inr cid)
      with cr names_uniqueD(1) [OF u] h1 show ?thesis by blast
    qed
  qed
qed

lemma start_many_refused:
  assumes "names_unique os api has" and "has (container_name (sp_id spec)) h"
  shows "list_all isl (start_many os api c spec tries h)"
  using assms(2)
proof (induction tries arbitrary: h)
  case Nil
  then show ?case by simp
next
  case (Cons t tries)
  obtain ord listened where t: "t = (ord, listened)" by fastforce
  from start_refused [OF assms(1) Cons.prems] obtain e h'
    where "start_server os api c ord listened spec h = (Inl e, h')" "has (container_name (sp_id spec)) h'" by blast
  with Cons.IH t show ?case by simp
qed

text \<open>C31. A start that fails after the container was created leaves the container behind, and from
  then on every further attempt to start that server fails, however often it is made, because
  the container's name is taken: the code neither removes the container nor reuses it.\<close>

theorem failed_start_blocks:
  assumes "names_unique os api has"
    and "os_mkdir_all os (path_join [pt_scratch_root p, sp_id spec]) h = (None, h1)"
    and "api_create api (server_container ord spec) (server_host_config api p spec (word_of_int port))
      [pt_network p] (container_name (sp_id spec)) h1 = (Inr cid, h2)"
    and "api_start api cid h2 = (Some e, h3)"
  shows "start_server os api (Some p) ord (Inr port) spec h = (Inl (ErrWrap ''container start: '' e []), h3)
    \<and> list_all isl (start_many os api (Some p) spec tries h3)"
proof
  show "start_server os api (Some p) ord (Inr port) spec h = (Inl (ErrWrap ''container start: '' e []), h3)"
    using assms(2-4) by (simp add: start_server_def pick_free_port_def)
  from names_uniqueD(1) [OF assms(1,3)] have "has (container_name (sp_id spec)) h2" by blast
  then have "has (container_name (sp_id spec)) h3" by (rule names_uniqueD(3) [OF assms(1,4)])
  then show "list_all isl (start_many os api (Some p) spec tries h3)"
    by (rule start_many_refused [OF assms(1)])
qed

theorem failed_start_blocks_witness:
  "list_all isl (start_many tracing demo_engine (Some demo_paths) (server_spec_zero\<lparr>sp_id := ''s1''\<rparr>)
     [((\<lambda>ks. ks), Inr 40001), ((\<lambda>ks. ks), Inr 40002)] [''aether-s1'', ''/scratch/s1''])"
proof -
  have j: "path_join [pt_scratch_root demo_paths, ''s1''] = ''/scratch/s1''"
    by (simp add: demo_paths_def path_join_def path_clean_def elems_def rooted_def)
  have u: "names_unique tracing demo_engine (\<lambda>n h. n \<in> set h)"
    by (auto simp: names_unique_def demo_engine_def tracing_def)
  let ?spec = "server_spec_zero\<lparr>sp_id := ''s1''\<rparr>"
  have m: "os_mkdir_all tracing (path_join [pt_scratch_root demo_paths, sp_id ?spec]) [] = (None, [''/scratch/s1''])"
    by (simp add: tracing_def j)
  have cr: "api_create demo_engine cc hc nets (container_name (sp_id ?spec)) [''/scratch/s1'']
      = (Inr ''aether-s1'', [''aether-s1'', ''/scratch/s1''])" for cc hc nets
    by (simp add: demo_engine_def container_name_def)
  have st: "api_start demo_engine ''aether-s1'' h = (Some (ErrExt 500), h)" for h
    by (simp add: demo_engine_def)
  from failed_start_blocks [OF u m cr st] show ?thesis by blast
qed

end
