(* ===== verification/Grpc.thy ===== *)
theory Grpc
  imports Docker Rcon ClusterLaws
begin

text \<open>
  daemon/internal/api/grpc.go: the services for other daemons and for the proxies, except for the event
  stream, which has a theory of its own. What the network answers is a parameter: dialling, the
  HTTP client, the connection to the RCON port.
\<close>

section \<open>Joining\<close>

record join_request =
  jq_node_id :: string
  jq_raft_addr :: string
  jq_join_token :: string

record join_response =
  jr_accepted :: bool
  jr_leader_id :: string
  jr_leader_addr :: string
  jr_error :: err

definition grpc_join_handler :: "join_request \<Rightarrow> join_response op" where
  "grpc_join_handler req =
     andthen (add_voter (jq_node_id req) (jq_raft_addr req)) (\<lambda>e.
     andthen leader_id (\<lambda>i.
     andthen leader_addr (\<lambda>a. ret
       \<lparr>jr_accepted = (e = None), jr_leader_id = i, jr_leader_addr = a, jr_error = e\<rparr>)))"

text \<open>The join hook: \<open>rpc\<close> is the call of the other node's \<open>Join\<close>.\<close>

definition grpc_join ::
  "(string \<Rightarrow> err) \<Rightarrow> (join_request \<Rightarrow> join_response result) \<Rightarrow> string \<Rightarrow> string \<Rightarrow> string \<Rightarrow> string \<Rightarrow> err" where
  "grpc_join dial rpc local_id advertise addr token =
     (if addr = [] then Some (Errorf ''empty join address'')
      else case dial addr of
             Some e \<Rightarrow> Some e
           | None \<Rightarrow>
               (case rpc \<lparr>jq_node_id = local_id, jq_raft_addr = advertise, jq_join_token = token\<rparr> of
                  Inl e \<Rightarrow> Some e
                | Inr resp \<Rightarrow>
                    if \<not> jr_accepted resp
                    then Some (case jr_error resp of
                        None \<Rightarrow> Errorf ''join rejected by leader: ''
                      | Some e \<Rightarrow> ErrWrap ''join rejected by leader: '' e [])
                    else None))"

section \<open>Forwarding\<close>

record forward_request =
  fq_method :: string
  fq_path :: string
  fq_body :: string
  fq_headers :: "(string \<times> string) list"

record forward_response =
  fp_status :: u32
  fp_body :: string
  fp_headers :: "(string \<times> string) list"

definition local_url :: "string \<Rightarrow> string \<Rightarrow> string" where
  "local_url listen path =
     (let addr = (if has_prefix listen '':'' then ''127.0.0.1'' @ listen else listen) in ''http://'' @ addr @ path)"

text \<open>What the HTTP client answers: the status, the headers with all their values, the body or the error
  of reading it.\<close>

type_synonym 'h forward_client =
  "string \<Rightarrow> string \<Rightarrow> (string \<times> string) list \<Rightarrow> string \<Rightarrow> 'h
    \<Rightarrow> (nat \<times> (string \<times> string list) list \<times> string result) result \<times> 'h"

definition first_values :: "(string \<times> string list) list \<Rightarrow> (string \<times> string) list" where
  "first_values hs = List.map_filter (\<lambda>(k, vs). case vs of [] \<Rightarrow> None | v # _ \<Rightarrow> Some (k, v)) hs"

definition forward_mutation ::
  "'h forward_client \<Rightarrow> string \<Rightarrow> forward_request \<Rightarrow> 'h \<Rightarrow> forward_response result \<times> 'h" where
  "forward_mutation client listen req h =
     (case client (fq_method req) (local_url listen (fq_path req)) (fq_headers req) (fq_body req) h of
        (Inl e, h') \<Rightarrow> (Inl e, h')
      | (Inr (status, hs, body), h') \<Rightarrow>
          (map_sum (\<lambda>e. e) (\<lambda>b. \<lparr>fp_status = word_of_nat status, fp_body = b, fp_headers = first_values hs\<rparr>) body, h'))"

section \<open>The proxies' other calls\<close>

text \<open>\<open>UpdateSign\<close> and \<open>UpdateTablist\<close> acknowledge and do nothing.\<close>

definition update_sign :: "'r \<Rightarrow> bool" where
  "update_sign req = True"

definition update_tablist :: "'r \<Rightarrow> bool" where
  "update_tablist req = True"

section \<open>The agent\<close>

record rcon_response =
  rr_output :: string
  rr_success :: bool
  rr_error :: err

definition rcon_password :: string where
  "rcon_password = ''aethernet_secure_rcon''"

definition rcon_addr :: "server \<Rightarrow> string" where
  "rcon_addr v = ''127.0.0.1:'' @ itoa (uint (sv_host_port v + 1000))"

text \<open>\<open>dial\<close> is the answer to a connection attempt to an address.\<close>

definition send_rcon :: "(string \<Rightarrow> conn result) \<Rightarrow> string \<Rightarrow> string \<Rightarrow> rcon_response result op" where
  "send_rcon dial i command =
     andthen (read_fsm (\<lambda>_. fsm_server i)) (\<lambda>s E W.
       case s of
         None \<Rightarrow> Some (Inl (Errorf (''server '' @ i @ '' not found'')), W)
       | Some v \<Rightarrow>
           (case rcon_dial (dial (rcon_addr v)) rcon_password of
              None \<Rightarrow> None
            | Some (Inl e) \<Rightarrow> Some (Inr \<lparr>rr_output = [], rr_success = False, rr_error = Some e\<rparr>, W)
            | Some (Inr c) \<Rightarrow>
                (case rcon_command command c of
                   None \<Rightarrow> None
                 | Some ((out, Some e), _) \<Rightarrow> Some (Inr \<lparr>rr_output = [], rr_success = False, rr_error = Some e\<rparr>, W)
                 | Some ((out, None), _) \<Rightarrow> Some (Inr \<lparr>rr_output = out, rr_success = True, rr_error = None\<rparr>, W))))"

definition grpc_stream_logs ::
  "'h engine \<Rightarrow> controller \<Rightarrow> string \<Rightarrow> bool \<Rightarrow> u32 \<Rightarrow> 'h \<Rightarrow> (string \<times> err) \<times> 'h" where
  "grpc_stream_logs api c server_id follow tail_lines h =
     (if c = None then (([], Some (Errorf ''docker controller not available'')), h)
      else docker_stream_logs api c server_id follow tail_lines h)"

text \<open>A chunk of the log, and what \<open>Write\<close> returns for the error of sending it.\<close>

definition log_write :: "err \<Rightarrow> string \<Rightarrow> nat \<times> err" where
  "log_write e b = (case e of Some x \<Rightarrow> (0, Some x) | None \<Rightarrow> (length b, None))"

section \<open>Who may join\<close>

text \<open>The join token decides nothing: the leader admits every caller the raft library admits, with any
  token or none; every other node refuses every caller.\<close>

theorem any_token_joins:
  "grpc_join_handler req E W = grpc_join_handler (req\<lparr>jq_join_token := t\<rparr>) E W
   \<and> (grpc_join_handler req E W = Some (resp, W') \<longrightarrow>
       jr_accepted resp = (jr_error resp = None) \<and> (jr_accepted resp \<longrightarrow> e_leads E (w_step W)))"
  by (auto simp: grpc_join_handler_def add_voter_def is_leader_def andthen_def ret_def sync_def
      split: option.splits if_splits prod.splits)

section \<open>Where a forwarded request goes\<close>

text \<open>The host of an address, as \<open>net/url\<close> finds it: without query and fragment, up to the first slash,
  after the last at sign.\<close>

definition url_host :: "string \<Rightarrow> string" where
  "url_host u =
     (let rest = takeWhile (\<lambda>c. c \<notin> set ''#?/'') (trim_prefix u ''http://'')
      in rev (takeWhile (\<lambda>c. c \<noteq> CHR ''@'') (rev rest)))"

definition plain_host :: "string \<Rightarrow> bool" where
  "plain_host a \<longleftrightarrow> list_all (\<lambda>c. c \<notin> set ''#?/@'') a"

lemma host_take:
  assumes "plain_host a" and "rest = [] \<or> hd rest \<in> set ''#?/''"
  shows "takeWhile (\<lambda>c. c \<notin> set ''#?/'') (a @ rest) = a"
proof -
  have "takeWhile (\<lambda>c. c \<notin> set ''#?/'') rest = []" using assms(2) by (cases rest) auto
  moreover have "\<forall>c\<in>set a. c \<notin> set ''#?/''" using assms(1) by (auto simp: plain_host_def list_all_iff)
  ultimately show ?thesis by (simp add: takeWhile_append2)
qed

lemma trim_http: "trim_prefix (''http://'' @ t) ''http://'' = t"
  by (simp add: trim_prefix_def)

text \<open>A forwarded request stays with the daemon when its path begins with a slash; the path is not
  checked, and one that begins with an at sign and a host is sent to that host, with the method,
  the headers and the body the caller chose.\<close>

theorem forward_target:
  assumes "plain_host listen" and "plain_host h" and "rest = [] \<or> hd rest = CHR ''/''"
  shows "url_host (local_url listen (CHR ''/'' # path)) = (if has_prefix listen '':'' then ''127.0.0.1'' @ listen else listen)
    \<and> url_host (local_url listen (CHR ''@'' # h @ rest)) = h"
proof -
  obtain addr where addr_def: "addr = (if has_prefix listen '':'' then ''127.0.0.1'' @ listen else listen)" by blast
  have url: "local_url listen p = ''http://'' @ addr @ p" for p by (simp add: local_url_def Let_def addr_def)
  have a: "plain_host addr" using assms(1) by (simp add: plain_host_def addr_def)
  have noat: "takeWhile (\<lambda>c. c \<noteq> CHR ''@'') (rev x) = rev x" if "plain_host x" for x
    using that by (simp add: plain_host_def list_all_iff takeWhile_eq_all_conv)
  have 1: "url_host (local_url listen (CHR ''/'' # path)) = addr"
  proof -
    have "takeWhile (\<lambda>c. c \<notin> set ''#?/'') (addr @ CHR ''/'' # path) = addr" by (rule host_take [OF a]) simp
    then show ?thesis unfolding url_host_def url trim_http Let_def by (simp only: noat [OF a] rev_rev_ident)
  qed
  have "takeWhile (\<lambda>c. c \<notin> set ''#?/'') (addr @ CHR ''@'' # h @ rest) = addr @ CHR ''@'' # h"
  proof -
    have c: "\<forall>c\<in>set addr. c \<notin> set ''#?/''" using a by (auto simp: plain_host_def list_all_iff)
    have r: "takeWhile (\<lambda>c. c \<notin> set ''#?/'') (h @ rest) = h"
      using assms(3) by (intro host_take [OF assms(2)]) auto
    have "CHR ''@'' \<notin> set ''#?/''" by simp
    with c r show ?thesis by (simp add: takeWhile_append2 del: set_simps)
  qed
  moreover have "takeWhile (\<lambda>c. c \<noteq> CHR ''@'') (rev (addr @ CHR ''@'' # h)) = rev h"
    using noat [OF assms(2)] assms(2) by (simp add: takeWhile_append plain_host_def list_all_iff)
  ultimately have "url_host (local_url listen (CHR ''@'' # h @ rest)) = h"
    unfolding url_host_def url trim_http Let_def by simp
  with 1 show ?thesis by (simp add: addr_def)
qed

theorem forward_target_witness:
  "url_host (local_url '':8081'' ''/api/v1/nodes'') = ''127.0.0.1:8081''
    \<and> url_host (local_url '':8081'' ''@evil.example/api/v1/nodes'') = ''evil.example''"
  using forward_target [of "'':8081''" "''evil.example''" "''/api/v1/nodes''" "''api/v1/nodes''"]
  by (simp add: plain_host_def)

section \<open>Which server gets a command\<close>

text \<open>A command for a server goes to the local machine, whatever node hosts the server: a server of another
  node that has the same port is commanded instead of it, and the answer is reported as its own.\<close>

theorem rcon_by_port_only:
  assumes "\<And>n. e_others E n = []" and "fsm_server i (w_fsm W) = Some v" and "fsm_server j (w_fsm W) = Some v'"
    and "sv_host_port v = sv_host_port v'"
  shows "send_rcon dial i command E W = send_rcon dial j command E W"
  using assms(2-4)
  by (simp add: send_rcon_def read_fsm_def sync_def andthen_def assms(1) rcon_addr_def)

end
