(* ===== verification/Haproxy.thy ===== *)
theory Haproxy
  imports FileSwap ClusterTypes
begin

text \<open>
  daemon/internal/haproxy/manager.go: the configuration of the load balancer, rendered from the
  cluster's nodes and servers, validated under a temporary name, renamed into place, and the
  reload of the process. Commands are run through \<open>run\<close>, which gives their output.
\<close>

section \<open>The template\<close>

definition cfg_head :: "string list" where
  "cfg_head =
     ['''',
      ''global'',
      ''    log /dev/log local0'',
      ''    log /dev/log local1 notice'',
      ''    chroot /var/lib/haproxy'',
      ''    stats socket /run/haproxy/admin.sock mode 660 level admin expose-fd listeners'',
      ''    stats timeout 30s'',
      ''    user haproxy'',
      ''    group haproxy'',
      ''    daemon'',
      ''    maxconn 50000'',
      ''    tune.ssl.default-dh-param 2048'',
      '''',
      ''defaults'',
      ''    log     global'',
      ''    mode    tcp'',
      ''    option  tcplog'',
      ''    option  dontlognull'',
      ''    timeout connect 5s'',
      ''    timeout client  50s'',
      ''    timeout server  50s'',
      ''    errorfile 400 /etc/haproxy/errors/400.http'',
      ''    errorfile 403 /etc/haproxy/errors/403.http'',
      ''    errorfile 408 /etc/haproxy/errors/408.http'',
      ''    errorfile 500 /etc/haproxy/errors/500.http'',
      ''    errorfile 502 /etc/haproxy/errors/502.http'',
      ''    errorfile 503 /etc/haproxy/errors/503.http'',
      ''    errorfile 504 /etc/haproxy/errors/504.http'',
      '''',
      ''#----- L4 Rate-Limit Stick Table ------------------------------------------------'',
      ''backend st_src_conn_rate'',
      ''    stick-table type ip size 1m expire 10m store conn_rate(10s),conn_cur'',
      '''',
      ''#----- API / Panel Ingress ------------------------------------------------------'',
      ''frontend fe_api'',
      ''    bind *:8080'',
      ''    mode http'',
      ''    option httplog'',
      ''    default_backend be_api'',
      '''',
      ''backend be_api'',
      ''    mode http'',
      ''    balance leastconn'',
      ''    option httpchk GET /healthz'']"

definition cfg_mid :: "string list" where
  "cfg_mid =
     ['''',
      ''#----- Minecraft TCP Proxy -------------------------------------------------------'',
      ''frontend fe_minecraft'',
      ''    bind *:25565'',
      ''    mode tcp'',
      ''    # Anti-flood: track connection rate per source IP'',
      ''    stick-table type ip size 200k expire 30s store conn_rate(3s),conn_cur'',
      ''    tcp-request connection track-sc0 src'']"

definition cfg_minecraft :: "string list" where
  "cfg_minecraft =
     [''    default_backend be_minecraft'',
      '''',
      ''backend be_minecraft'',
      ''    mode tcp'',
      ''    balance roundrobin'',
      ''    option tcp-check'']"

definition cfg_tail :: "string list" where
  "cfg_tail =
     ['''',
      ''#----- Stats (internal only) ---------------------------------------------------'',
      ''frontend fe_stats'',
      ''    bind 127.0.0.1:8404'',
      ''    mode http'',
      ''    stats enable'',
      ''    stats uri /stats'',
      ''    stats refresh 10s'',
      ''    stats admin if TRUE'',
      '''']"

record server_entry =
  se_spec :: server_spec
  se_host_port :: u32
  se_node_address :: string

record haproxy_config =
  hx_config_path :: string
  hx_max_conn_rate :: int
  hx_max_conn_cur :: int

definition node_line :: "node \<Rightarrow> string" where
  "node_line n = ''    server '' @ n_id n @ '' '' @ n_address n @ '' check inter 2s fall 3 rise 2''"

definition entry_line :: "server_entry \<Rightarrow> string" where
  "entry_line s = ''    server '' @ sp_id (se_spec s) @ '' '' @ se_node_address s @ '':'' @ itoa (uint (se_host_port s))
     @ '' check inter 2s fall 2 rise 1''"

definition cfg_lines :: "haproxy_config \<Rightarrow> node list \<Rightarrow> server_entry list \<Rightarrow> string list" where
  "cfg_lines cfg nodes servers =
     cfg_head @ map node_line nodes @ cfg_mid
     @ [''    tcp-request connection reject if { sc_conn_rate(0) gt '' @ itoa (hx_max_conn_rate cfg) @ '' }'',
        ''    tcp-request connection reject if { sc_conn_cur(0) gt '' @ itoa (hx_max_conn_cur cfg) @ '' }'']
     @ cfg_minecraft @ map entry_line servers @ cfg_tail"

definition render :: "haproxy_config \<Rightarrow> node list \<Rightarrow> server_entry list \<Rightarrow> string" where
  "render cfg nodes servers = join [CHR 0x0A] (cfg_lines cfg nodes servers)"

section \<open>The manager\<close>

definition default_config_path :: string where
  "default_config_path = ''/etc/haproxy/aethernet.cfg''"

definition pid_file :: string where
  "pid_file = ''/run/haproxy/haproxy.pid''"

definition haproxy_new :: "haproxy_config \<Rightarrow> haproxy_config" where
  "haproxy_new cfg =
     (let c1 = (if hx_config_path cfg = [] then cfg\<lparr>hx_config_path := default_config_path\<rparr> else cfg);
          c2 = (if hx_max_conn_rate c1 = 0 then c1\<lparr>hx_max_conn_rate := 30\<rparr> else c1)
      in if hx_max_conn_cur c2 = 0 then c2\<lparr>hx_max_conn_cur := 50\<rparr> else c2)"

text \<open>A pid file that cannot be read counts as empty; words that are no numbers are left out.\<close>

definition read_pids :: "'h os_ops \<Rightarrow> 'h \<Rightarrow> string list \<times> 'h" where
  "read_pids os h =
     (case os_read_file os pid_file h of
        (Inl e, h') \<Rightarrow> ([], h')
      | (Inr data, h') \<Rightarrow>
          (filter (\<lambda>l. l \<noteq> [] \<and> atoi l \<noteq> None) (map trim_space (str_fields data)), h'))"

definition haproxy_reload :: "'h os_ops \<Rightarrow> 'h run \<Rightarrow> haproxy_config \<Rightarrow> 'h \<Rightarrow> err \<times> 'h" where
  "haproxy_reload os run cfg h =
     (case read_pids os h of (pids, h1) \<Rightarrow>
        (case run ''haproxy'' ([''-f'', hx_config_path cfg, ''-p'', pid_file, ''-D'']
                @ concat (map (\<lambda>p. [''-sf'', p]) pids)) h1 of
           ((out, Some e), h2) \<Rightarrow> (Some (ErrWrap ''haproxy reload: '' e ('': '' @ trim_space out)), h2)
         | ((out, None), h2) \<Rightarrow> (None, h2)))"

definition haproxy_sync ::
  "'h os_ops \<Rightarrow> 'h run \<Rightarrow> haproxy_config \<Rightarrow> node list \<Rightarrow> server_entry list \<Rightarrow> 'h \<Rightarrow> err \<times> 'h" where
  "haproxy_sync os run cfg nodes servers h =
     (let up_nodes = filter (\<lambda>n. n_state n = NodeUp) nodes;
          ready_servers = filter (\<lambda>s. se_host_port s > 0) servers;
          text = render cfg up_nodes ready_servers;
          tmp = hx_config_path cfg @ ''.tmp'' in
      case os_write_file os tmp text h of
        (Some e, h1) \<Rightarrow> (Some (ErrWrap ''haproxy: write tmp: '' e []), h1)
      | (None, h1) \<Rightarrow>
          (case run ''haproxy'' [''-c'', ''-f'', tmp] h1 of
             ((out, Some e), h2) \<Rightarrow>
               (Some (ErrWrap ''haproxy: config validation failed: '' e ('': '' @ trim_space out)),
                snd (os_remove os tmp h2))
           | ((out, None), h2) \<Rightarrow>
               (case os_rename os tmp (hx_config_path cfg) h2 of
                  (Some e, h3) \<Rightarrow> (Some (ErrWrap ''haproxy: rename: '' e []), h3)
                | (None, h3) \<Rightarrow> haproxy_reload os run cfg h3)))"

definition start_if_not_running :: "'h os_ops \<Rightarrow> 'h run \<Rightarrow> haproxy_config \<Rightarrow> 'h \<Rightarrow> err \<times> 'h" where
  "start_if_not_running os run cfg h =
     (case os_stat os (hx_config_path cfg) h of (st, h1) \<Rightarrow>
        if (case st of Inl e \<Rightarrow> os_is_not_exist os e | Inr _ \<Rightarrow> False) then (None, h1)
        else (case read_pids os h1 of (pids, h2) \<Rightarrow>
          (let (running, h3) =
             (case pids of
                [] \<Rightarrow> (False, h2)
              | p # _ \<Rightarrow> (case os_stat os (path_join [''/proc'', p]) h2 of (r, h') \<Rightarrow> (\<not> isl r, h'))) in
           if running then (None, h3)
           else (case run ''haproxy'' [''-f'', hx_config_path cfg, ''-p'', pid_file, ''-D''] h3 of
             ((out, Some e), h4) \<Rightarrow> (Some (ErrWrap ''haproxy start: '' e ('': '' @ trim_space out)), h4)
           | ((out, None), h4) \<Rightarrow> (None, h4)))))"

text \<open>\<open>WatchAndSync\<close> on the states it reads at each tick; an error is only logged.\<close>

fun watch_and_sync ::
  "'h os_ops \<Rightarrow> 'h run \<Rightarrow> haproxy_config \<Rightarrow> (node list \<times> server_entry list) list \<Rightarrow> 'h \<Rightarrow> 'h" where
  "watch_and_sync os run cfg [] h = h"
| "watch_and_sync os run cfg ((ns, ss) # ticks) h =
     watch_and_sync os run cfg ticks (snd (haproxy_sync os run cfg ns ss h))"

section \<open>What the file lists\<close>

lemma fixed_lines:
  "list_all (\<lambda>l. CHR 0x0A \<notin> set l) (cfg_head @ cfg_mid @ cfg_minecraft @ cfg_tail)"
  by (simp add: cfg_head_def cfg_mid_def cfg_minecraft_def cfg_tail_def)

lemma itoa_no_newline: "CHR 0x0A \<notin> set (itoa i)"
proof -
  have d: "CHR 0x0A \<notin> set (nat_digits n)" for n
  proof (induction n rule: nat_digits.induct)
    case (1 n)
    have nn: False if "CHR 0x0A = char_of (48 + m)" "m < 10" for m :: nat
      using arg_cong [OF that(1), of "of_char :: char \<Rightarrow> nat"] that(2) by (simp add: take_bit_eq_mod)
    from 1 show ?case by (subst nat_digits.simps) (auto dest: nn)
  qed
  then show ?thesis by (simp add: itoa_def)
qed

text \<open>The configuration lists what it should: when no name holds a line break, the lines of the
  rendered file are the fixed ones, one \<open>server\<close> line per node given and one per server entry,
  in order and nothing else.\<close>

theorem config_lines:
  assumes "list_all (\<lambda>n. CHR 0x0A \<notin> set (n_id n) \<union> set (n_address n)) nodes"
    and "list_all (\<lambda>s. CHR 0x0A \<notin> set (sp_id (se_spec s)) \<union> set (se_node_address s)) servers"
  shows "split CHR 0x0A (render cfg nodes servers) = cfg_lines cfg nodes servers"
proof -
  have "\<forall>l\<in>set (cfg_lines cfg nodes servers). CHR 0x0A \<notin> set l"
    using assms fixed_lines itoa_no_newline
    by (auto simp: cfg_lines_def node_line_def entry_line_def list_all_iff)
  moreover have "cfg_lines cfg nodes servers \<noteq> []" by (simp add: cfg_lines_def)
  ultimately show ?thesis unfolding render_def by (intro split_join)
qed

theorem config_lines_witness:
  "split CHR 0x0A (render \<lparr>hx_config_path = [], hx_max_conn_rate = 30, hx_max_conn_cur = 50\<rparr>
      [node_zero\<lparr>n_id := ''n1'', n_address := ''10.0.0.1:7000''\<rparr>] [])
   = cfg_lines \<lparr>hx_config_path = [], hx_max_conn_rate = 30, hx_max_conn_cur = 50\<rparr>
      [node_zero\<lparr>n_id := ''n1'', n_address := ''10.0.0.1:7000''\<rparr>] []"
  by (rule config_lines) simp_all

section \<open>What is live has been validated\<close>

text \<open>
  What is relied on of the commands: they leave the two configuration files alone, and
  \<open>haproxy -c\<close> accepts a file only if its content is a valid configuration.
\<close>

definition checker_laws ::
  "'h run \<Rightarrow> ('h \<Rightarrow> string \<Rightarrow> string option) \<Rightarrow> (string \<Rightarrow> bool) \<Rightarrow> haproxy_config \<Rightarrow> bool" where
  "checker_laws run file valid cfg \<longleftrightarrow>
     (\<forall>args h. file (snd (run ''haproxy'' args h)) (hx_config_path cfg) = file h (hx_config_path cfg)
        \<and> file (snd (run ''haproxy'' args h)) (hx_config_path cfg @ ''.tmp'') = file h (hx_config_path cfg @ ''.tmp''))
     \<and> (\<forall>h out h' c. run ''haproxy'' [''-c'', ''-f'', hx_config_path cfg @ ''.tmp''] h = ((out, None), h')
        \<longrightarrow> file h (hx_config_path cfg @ ''.tmp'') = Some c \<longrightarrow> valid c)"

lemma checkerD:
  assumes "checker_laws run file valid cfg" and "run ''haproxy'' args h = (r, h')"
  shows "file h' (hx_config_path cfg) = file h (hx_config_path cfg)"
    and "file h' (hx_config_path cfg @ ''.tmp'') = file h (hx_config_path cfg @ ''.tmp'')"
  using assms unfolding checker_laws_def by (metis snd_conv)+

lemma checker_valid:
  assumes "checker_laws run file valid cfg"
    and "run ''haproxy'' [''-c'', ''-f'', hx_config_path cfg @ ''.tmp''] h = ((out, None), h')"
    and "file h (hx_config_path cfg @ ''.tmp'') = Some c"
  shows "valid c"
  using assms unfolding checker_laws_def by blast

lemma reload_quiet:
  assumes "file_laws os file" and "checker_laws run file valid cfg"
  shows "file (snd (haproxy_reload os run cfg h)) (hx_config_path cfg) = file h (hx_config_path cfg)"
proof -
  obtain pids h1 where p: "read_pids os h = (pids, h1)" by fastforce
  then have f: "file h1 = file h"
    by (auto simp: read_pids_def split: sum.splits prod.splits dest: file_quiet(5) [OF assms(1)])
  let ?args = "[''-f'', hx_config_path cfg, ''-p'', pid_file, ''-D''] @ concat (map (\<lambda>p. [''-sf'', p]) pids)"
  obtain out e h2 where r: "run ''haproxy'' ?args h1 = ((out, e), h2)" by (metis surj_pair)
  from checkerD(1) [OF assms(2) r] f p r show ?thesis
    by (cases e) (simp_all add: haproxy_reload_def)
qed

lemma sync_swaps:
  assumes "file_laws os file" and "checker_laws run file valid cfg"
    and "haproxy_sync os run cfg nodes servers h = (e, h')"
  defines "text \<equiv> render cfg (filter (\<lambda>n. n_state n = NodeUp) nodes) (filter (\<lambda>s. se_host_port s > 0) servers)"
  shows "file h' (hx_config_path cfg) = file h (hx_config_path cfg) \<and> e \<noteq> None
    \<or> file h' (hx_config_path cfg) = Some text \<and> valid text"
proof -
  let ?p = "hx_config_path cfg" and ?tmp = "hx_config_path cfg @ ''.tmp''"
  have ne: "?p \<noteq> ?tmp" by simp
  note s = assms(3) [unfolded haproxy_sync_def Let_def, folded text_def]
  obtain e1 h1 where w: "os_write_file os ?tmp text h = (e1, h1)" by fastforce
  have h1: "file h1 ?p = file h ?p" by (rule file_write(2) [OF assms(1) w ne])
  show ?thesis
  proof (cases e1)
    case (Some x)
    with s w h1 show ?thesis by auto
  next
    case None
    have t1: "file h1 ?tmp = Some text" using file_write(1) [OF assms(1)] w None by simp
    obtain out e2 h2 where r: "run ''haproxy'' [''-c'', ''-f'', ?tmp] h1 = ((out, e2), h2)" by (metis surj_pair)
    note q = checkerD [OF assms(2) r]
    show ?thesis
    proof (cases e2)
      case (Some x)
      with s w r None h1 q file_quiet(1) [OF assms(1) ne] show ?thesis by auto
    next
      case n2: None
      have v: "valid text" by (rule checker_valid [OF assms(2) r [unfolded n2] t1])
      obtain e3 h3 where m: "os_rename os ?tmp ?p h2 = (e3, h3)" by fastforce
      show ?thesis
      proof (cases e3)
        case (Some x)
        with s w r None n2 m h1 q file_rename(2) [OF assms(1)] show ?thesis by auto
      next
        case n3: None
        have "file h3 ?p = Some text" using file_rename(1) [OF assms(1) m [unfolded n3]] q t1 by simp
        moreover have "snd (haproxy_reload os run cfg h3) = h'" using s w r m None n2 n3 by simp
        ultimately show ?thesis using reload_quiet [OF assms(1,2), of h3] v by auto
      qed
    qed
  qed
qed

text \<open>C7. The live configuration is always one that was validated: whatever states the watcher sees, in
  whatever order, and whichever of its steps fail, the file HAProxy starts from stays as it was or
  is a rendering that \<open>haproxy -c\<close> accepted, and never anything in between.\<close>

theorem live_config_valid:
  assumes "file_laws os file" and "checker_laws run file valid cfg"
    and "case file h (hx_config_path cfg) of None \<Rightarrow> True | Some c \<Rightarrow> valid c"
  shows "case file (watch_and_sync os run cfg ticks h) (hx_config_path cfg) of
      None \<Rightarrow> file h (hx_config_path cfg) = None
    | Some c \<Rightarrow> valid c \<and> (file h (hx_config_path cfg) = Some c \<or> (\<exists>ns ss. c = render cfg ns ss))"
  using assms(3)
proof (induction ticks arbitrary: h)
  case Nil
  then show ?case by (auto split: option.splits)
next
  case (Cons t ticks)
  obtain ns ss where t: "t = (ns, ss)" by fastforce
  obtain e h' where s: "haproxy_sync os run cfg ns ss h = (e, h')" by fastforce
  note sw = sync_swaps [OF assms(1,2) s]
  have ok: "case file h' (hx_config_path cfg) of None \<Rightarrow> True | Some c \<Rightarrow> valid c"
    using sw Cons.prems by (auto split: option.split)
  from Cons.IH [OF ok] sw show ?case by (auto simp: t s split: option.splits)
qed

text \<open>Two ticks on a memory that holds nothing yet, with a checker that wants a line of output.\<close>

theorem live_config_valid_witness:
  "\<exists>c. (watch_and_sync mem_os (\<lambda>p a h. (([], None), h)) \<lparr>hx_config_path = ''/cfg'', hx_max_conn_rate = 30, hx_max_conn_cur = 50\<rparr>
      [([], []), ([node_zero\<lparr>n_state := NodeUp\<rparr>], [])] (\<lambda>_. None)) ''/cfg'' = Some c \<and> c \<noteq> []"
proof -
  let ?cfg = "\<lparr>hx_config_path = ''/cfg'', hx_max_conn_rate = 30, hx_max_conn_cur = 50\<rparr>"
  let ?run = "\<lambda>p a h. (([], None), h) :: (string \<times> err) \<times> (string \<rightharpoonup> string)"
  have ne: "render ?cfg ns ss \<noteq> []" for ns ss
    by (simp add: render_def cfg_lines_def cfg_head_def)
  have "checker_laws ?run (\<lambda>h. h) (\<lambda>c. True) ?cfg" by (simp add: checker_laws_def)
  from live_config_valid [OF mem_os_laws this, where h = "\<lambda>_. None" and ticks = "[([], []), ([node_zero\<lparr>n_state := NodeUp\<rparr>], [])]"]
  have "case watch_and_sync mem_os ?run ?cfg [([], []), ([node_zero\<lparr>n_state := NodeUp\<rparr>], [])] (\<lambda>_. None) ''/cfg'' of
      None \<Rightarrow> True | Some c \<Rightarrow> \<exists>ns ss. c = render ?cfg ns ss" by (simp split: option.splits)
  moreover have "watch_and_sync mem_os ?run ?cfg [([], []), ([node_zero\<lparr>n_state := NodeUp\<rparr>], [])] (\<lambda>_. None) ''/cfg'' \<noteq> None"
    by (simp add: haproxy_sync_def haproxy_reload_def read_pids_def pid_file_def Let_def)
  ultimately show ?thesis using ne by (auto split: option.splits)
qed

end
