(* ===== verification/Heartbeat.thy ===== *)
theory Heartbeat
  imports SchedulerTheorems
begin

text \<open>
  daemon/internal/heartbeat/heartbeat.go: the periodic report of this node's resources. The
  kernel's \<open>sysinfo\<close> (a failing call or its counters), the number of processors and the
  percentage the load average is turned into are given by the host.
\<close>

section \<open>Sampling\<close>

record sysinfo =
  si_totalram :: u64
  si_freeram :: u64
  si_unit :: u32
  si_load :: u64

text \<open>\<open>hs_percent load cpus\<close> is the capped floating point percentage of lines 117 to 120.\<close>

record host =
  hs_sysinfo :: "sysinfo option"
  hs_cpus :: u32
  hs_percent :: "u64 \<Rightarrow> u32 \<Rightarrow> f64"

definition f64_ten :: f64 where
  "f64_ten = 0x4024000000000000"

text \<open>Total and used memory in MB and the load, from the fallback values given.\<close>

definition sysinfo_sample :: "host \<Rightarrow> u64 \<times> u64 \<times> f64 \<Rightarrow> u64 \<times> u64 \<times> f64" where
  "sysinfo_sample h fallback =
     (case hs_sysinfo h of
        None \<Rightarrow> fallback
      | Some sys \<Rightarrow>
          (let tot = si_totalram sys * ucast (si_unit sys) div (1024 * 1024);
               free = si_freeram sys * ucast (si_unit sys) div (1024 * 1024)
           in (tot, tot - free, hs_percent h (si_load sys) (hs_cpus h))))"

definition sample_resources :: "host \<Rightarrow> resources" where
  "sample_resources h =
     (case sysinfo_sample h (8192, 4096, f64_ten) of (tot, used, cpu) \<Rightarrow>
        resources_zero\<lparr>memory_total_mb := tot, memory_used_mb := used,
          cpu_cores := hs_cpus h, cpu_load := cpu\<rparr>)"

section \<open>Broadcast\<close>

record hb_opts =
  hb_node_id :: string
  hb_address :: string
  hb_interval :: duration

definition hb_new :: "hb_opts \<Rightarrow> hb_opts" where
  "hb_new o1 = (if hb_interval o1 = 0 then o1\<lparr>hb_interval := 500 * millisecond\<rparr> else o1)"

definition beat_node :: "hb_opts \<Rightarrow> host \<Rightarrow> bool \<Rightarrow> time \<Rightarrow> node" where
  "beat_node opts h leader now =
     \<lparr>n_id = hb_node_id opts, n_address = hb_address opts, n_state = NodeUp,
      n_resources = sample_resources h, n_last_heartbeat = now, n_is_leader = leader,
      n_version = ''0.1.0''\<rparr>"

definition broadcast :: "hb_opts \<Rightarrow> host \<Rightarrow> err op" where
  "broadcast opts h =
     andthen is_leader (\<lambda>leader. andthen time_now (\<lambda>now. andthen now_unix_nano (\<lambda>ts.
       case encode CmdHeartbeat (enc_node (beat_node opts h leader now)) [] ts of
         Inl e \<Rightarrow> ret (Some e)
       | Inr w \<Rightarrow> andthen is_leader (\<lambda>l. if \<not> l then ret None else cluster_apply w))))"

section \<open>Memory accounting\<close>

lemma mb_div: "unat (x * ucast u div (1024 * 1024) :: u64) = unat x * unat u div 2 ^ 20"
  if "unat x * unat (u :: u32) < 2 ^ 64"
proof -
  have "unat u < 2 ^ 32" using unsigned_less [of u, where 'a = nat] by simp
  then have "unat (ucast u :: u64) = unat u"
    by (simp add: unsigned_ucast_eq take_bit_nat_eq_self)
  then have "unat (x * ucast u :: u64) = unat x * unat u"
    using that by (simp add: unat_mult_lem [THEN iffD1])
  then show ?thesis by (simp add: unat_div)
qed

text \<open>The memory report is exact: with counters that fit (bytes below 2 ^ 64, no more free than
  total) the reported total is the floor of the total in MB, used never exceeds it, and the
  headroom placement works with is exactly the floor of the free memory in MB.\<close>

theorem memory_report_exact:
  assumes "hs_sysinfo h = Some sys"
    and "unat (si_totalram sys) * unat (si_unit sys) < 2 ^ 64"
    and "unat (si_freeram sys) \<le> unat (si_totalram sys)"
  shows "unat (memory_total_mb (sample_resources h)) = unat (si_totalram sys) * unat (si_unit sys) div 2 ^ 20
    \<and> memory_used_mb (sample_resources h) \<le> memory_total_mb (sample_resources h)
    \<and> unat (free_memory_mb (sample_resources h)) = unat (si_freeram sys) * unat (si_unit sys) div 2 ^ 20"
proof -
  let ?tot = "si_totalram sys * ucast (si_unit sys) div (1024 * 1024) :: u64"
  let ?free = "si_freeram sys * ucast (si_unit sys) div (1024 * 1024) :: u64"
  have fits: "unat (si_freeram sys) * unat (si_unit sys) < 2 ^ 64"
    using assms(2,3) by (meson le_less_trans mult_le_mono1)
  have le: "?free \<le> ?tot"
    unfolding word_le_nat_alt mb_div [OF assms(2)] mb_div [OF fits]
    using assms(3) by (intro div_le_mono mult_le_mono1)
  have r: "memory_total_mb (sample_resources h) = ?tot" "memory_used_mb (sample_resources h) = ?tot - ?free"
    by (simp_all add: sample_resources_def sysinfo_sample_def assms(1) Let_def)
  have sub: "unat (?tot - ?free) = unat ?tot - unat ?free" using le by (rule unat_sub)
  have "?tot - ?free \<le> ?tot" unfolding word_le_nat_alt sub by simp
  moreover have "unat (free_memory_mb (sample_resources h)) = unat ?free"
    unfolding unat_free_memory r sub using le by (simp add: word_le_nat_alt)
  ultimately show ?thesis unfolding r mb_div [OF assms(2)] mb_div [OF fits] by simp
qed

theorem memory_report_witness:
  "unat (free_memory_mb (sample_resources \<lparr>hs_sysinfo = Some \<lparr>si_totalram = 8589934592,
      si_freeram = 3221225472, si_unit = 1, si_load = 0\<rparr>, hs_cpus = 4, hs_percent = \<lambda>_ _. 0\<rparr>)) = 3072"
proof -
  let ?h = "\<lparr>hs_sysinfo = Some \<lparr>si_totalram = 8589934592, si_freeram = 3221225472, si_unit = 1, si_load = 0\<rparr>,
      hs_cpus = 4, hs_percent = \<lambda>_ _. 0\<rparr>"
  from memory_report_exact [of ?h "\<lparr>si_totalram = 8589934592, si_freeram = 3221225472, si_unit = 1, si_load = 0\<rparr>"]
  show ?thesis by simp
qed

section \<open>Who is heard\<close>

text \<open>A daemon that is not the leader sends no heartbeat at all: it builds its report and drops
  it, nothing is proposed and nil is returned. (So no entry ever refreshes a follower's
  \<open>LastHeartbeat\<close>, and by the liveness rule the leader marks it down 3 s later.)\<close>

theorem follower_heartbeat_dropped:
  assumes "env_ok E" and "\<forall>n. \<not> e_leads E n" and "fsm_ok (w_fsm W)" and "f64_finite (cpu_load (sample_resources h))"
    and "\<forall>n. time_marshals (e_now E n)"
  shows "\<exists>W'. broadcast opts h E W = Some (None, W') \<and> w_sent W' = w_sent W"
proof -
  obtain W1 where W1: "sync E W = Some (w_step W, W1)" "fsm_ok (w_fsm W1)" "w_sent W1 = w_sent W"
    using assms(1,3) by (rule sync_returns)
  obtain W2 where W2: "sync E W1 = Some (w_step W1, W2)" "fsm_ok (w_fsm W2)" "w_sent W2 = w_sent W1"
    using assms(1) W1(2) by (rule sync_returns)
  obtain W3 where W3: "sync E W2 = Some (w_step W2, W3)" "fsm_ok (w_fsm W3)" "w_sent W3 = w_sent W2"
    using assms(1) W2(2) by (rule sync_returns)
  obtain W4 where W4: "sync E W3 = Some (w_step W3, W4)" "w_sent W4 = w_sent W3"
    using assms(1) W3(2) by (rule sync_returns)
  have "node_valid (beat_node opts h False (e_now E (w_step W1)))"
    using assms(4,5) by (simp add: node_valid_def beat_node_def)
  then obtain p where "enc_node (beat_node opts h False (e_now E (w_step W1))) = Inr p"
    using node_codec.enc_valid by blast
  then obtain w where "encode CmdHeartbeat (enc_node (beat_node opts h False (e_now E (w_step W1)))) []
      (unix_nano (e_now E (w_step W2))) = Inr w"
    using encode_total by metis
  with W1 W2 W3 W4 assms(2) show ?thesis
    by (simp add: broadcast_def is_leader_def time_now_def now_unix_nano_def andthen_def ret_def)
qed

definition demo_host :: host where
  "demo_host = \<lparr>hs_sysinfo = None, hs_cpus = 4, hs_percent = \<lambda>_ _. 0\<rparr>"

lemma demo_host_load [simp]: "f64_finite (cpu_load (sample_resources demo_host))"
  by (simp add: sample_resources_def sysinfo_sample_def demo_host_def f64_ten_def f64_finite_def)

lemma demo_clock [simp]: "time_marshals (63900000000 * second)"
  by (simp add: time_marshals_def second_def)

theorem follower_heartbeat_witness:
  "\<exists>W'. broadcast \<lparr>hb_node_id = ''b'', hb_address = ''10.0.0.2'', hb_interval = 0\<rparr> demo_host follower_env demo_world
     = Some (None, W') \<and> w_sent W' = w_sent demo_world"
  by (rule follower_heartbeat_dropped) (simp_all add: follower_env_def env_ok_def)

text \<open>The leader's own heartbeat, in a calm environment, stores this node as up with the sample
  just taken, whatever state it was in before: a suspect or down node recovers, and a
  draining node stops draining.\<close>

theorem leader_heartbeat_resets_state:
  assumes "calm E" and "fsm_ok (w_fsm W)" and "f64_finite (cpu_load (sample_resources h))"
    and "\<forall>n. time_marshals (e_now E n)"
  shows "\<exists>W' now. broadcast opts h E W = Some (None, W') \<and> fsm_ok (w_fsm W')
    \<and> mget (f_nodes (w_fsm W')) = (mget (f_nodes (w_fsm W)))(hb_node_id opts \<mapsto> beat_node opts h True now)
    \<and> f_servers (w_fsm W') = f_servers (w_fsm W)"
proof -
  let ?n = "beat_node opts h True (e_now E (Suc (w_step W)))"
  let ?ts = "unix_nano (e_now E (Suc (Suc (w_step W))))"
  let ?W4 = "W\<lparr>w_step := Suc (Suc (Suc (Suc (w_step W))))\<rparr>"
  have v: "node_valid ?n" using assms(3,4) by (simp add: node_valid_def beat_node_def)
  then obtain p where p: "enc_node ?n = Inr p" "dec_struct node_fields p node_zero = Inr ?n"
    using node_codec.enc_valid node_codec.dec_enc by blast
  then obtain w where w: "encode CmdHeartbeat (enc_node ?n) [] ?ts = Inr w"
    using encode_total by metis
  have ts: "int64_ok ?ts" by (simp add: unix_nano_def wrap64_range)
  have "\<exists>s'. fsm_apply i w (w_fsm ?W4) = Some (None, s') \<and> fsm_ok s'
      \<and> mget (f_nodes s') = (mget (f_nodes (w_fsm W)))(n_id ?n \<mapsto> ?n) \<and> f_servers s' = f_servers (w_fsm W)" for i
  proof -
    have a: "fsm_apply i w (w_fsm W) = upsert_with (Inr ?n) n_id f_nodes (\<lambda>m s. s\<lparr>f_nodes := m\<rparr>)
        (\<lambda>r. publish CmdHeartbeat (EvNode r)) (w_fsm W)"
      using fsm_apply_encoded [OF w [unfolded p(1)] ts, of i "w_fsm W"] p(2)
      by (simp add: apply_command_def unmarshal_def cmd_defs)
    have "applied_ok (fsm_apply i w (w_fsm W))"
      unfolding a by (rule node_upsert_ok) (use assms(2) v in auto)
    then show ?thesis
      by (auto simp: a upsert_with_def applied_ok_def publish_def tbl.get_put split: option.splits)
  qed
  then obtain s' where s: "\<And>i. fsm_apply i w (w_fsm ?W4) = Some (None, s' i)" "\<And>i. fsm_ok (s' i)"
    "\<And>i. mget (f_nodes (s' i)) = (mget (f_nodes (w_fsm W)))(n_id ?n \<mapsto> ?n)"
    "\<And>i. f_servers (s' i) = f_servers (w_fsm W)"
    by metis
  obtain W' i where W': "cluster_apply w E ?W4 = Some (None, W')" "w_fsm W' = s' i"
    using assms(1) s(1) by (rule calm_cluster_apply)
  have l: "is_leader E V = Some (True, V\<lparr>w_step := Suc (w_step V)\<rparr>)" for V
    using assms(1) by (simp add: is_leader_def andthen_def calm_simps calm_def [of E])
  have "broadcast opts h E W = Some (None, W')"
    by (simp add: broadcast_def andthen_def l calm_simps [OF assms(1)] now_unix_nano_def ret_def w W'(1))
  moreover have "n_id ?n = hb_node_id opts" by (simp add: beat_node_def)
  ultimately show ?thesis
    by (intro exI [of _ W'] exI [of _ "e_now E (Suc (w_step W))"]) (simp add: W' s)
qed

theorem leader_heartbeat_witness:
  "\<exists>W'. broadcast \<lparr>hb_node_id = ''a'', hb_address = ''10.0.0.1'', hb_interval = 0\<rparr> demo_host calm_env
      (demo_world\<lparr>w_fsm := new_fsm\<lparr>f_nodes := GoMap [(''a'', (demo_up ''a'' 8192 0)\<lparr>n_state := NodeDraining\<rparr>)]\<rparr>\<rparr>)
      = Some (None, W')
    \<and> map_option n_state (mget (f_nodes (w_fsm W')) ''a'') = Some NodeUp"
proof -
  let ?s = "new_fsm\<lparr>f_nodes := GoMap [(''a'', (demo_up ''a'' 8192 0)\<lparr>n_state := NodeDraining\<rparr>)]\<rparr>"
  have "fsm_ok ?s"
    unfolding fsm_ok_def table_ok_def by (simp add: new_fsm_def split: if_splits)
  then have "fsm_ok (w_fsm (demo_world\<lparr>w_fsm := ?s\<rparr>))" by simp
  from leader_heartbeat_resets_state [OF calm_demo this demo_host_load,
      of "\<lparr>hb_node_id = ''a'', hb_address = ''10.0.0.1'', hb_interval = 0\<rparr>"]
  show ?thesis by (auto simp: beat_node_def)
qed

end
