(* ===== verification/Keepalived.thy ===== *)
theory Keepalived
  imports FileSwap
begin

text \<open>
  daemon/internal/keepalived/vip.go: the virtual address follows the leader. Each daemon writes
  its role into keepalived's configuration when it hears of a new leader.
\<close>

section \<open>The template\<close>

record vip_config =
  vc_router_id :: string
  vc_router_id_int :: int
  vc_interface :: string
  vc_vip :: string
  vc_cidr_prefix :: int
  vc_auth_pass :: string

definition dquote :: string where
  "dquote = [CHR 0x22]"

definition check_script :: string where
  "check_script = ''    script '' @ dquote @ ''/bin/sh -c '' @ [CHR 0x27]
     @ ''kill -0 $(cat /run/haproxy/haproxy.pid 2>/dev/null) 2>/dev/null'' @ [CHR 0x27] @ dquote"

definition notify_line :: "string \<Rightarrow> string \<Rightarrow> string" where
  "notify_line key arg = ''    '' @ key @ '' '' @ dquote @ ''/etc/keepalived/notify.sh '' @ arg @ dquote"

definition vip_lines :: "vip_config \<Rightarrow> string \<Rightarrow> int \<Rightarrow> string list" where
  "vip_lines c state priority =
     ['''',
      ''global_defs {'',
      ''    router_id '' @ vc_router_id c,
      ''    enable_script_security'',
      ''}'',
      '''',
      ''vrrp_script chk_haproxy {'',
      check_script,
      ''    interval 2'',
      ''    weight -20'',
      ''    fall 2'',
      ''    rise 2'',
      ''}'',
      '''',
      ''vrrp_instance AETHERNET_VIP {'',
      ''    state '' @ state,
      ''    interface '' @ vc_interface c,
      ''    virtual_router_id '' @ itoa (vc_router_id_int c),
      ''    priority '' @ itoa priority,
      ''    advert_int 1'',
      ''    authentication {'',
      ''        auth_type PASS'',
      ''        auth_pass '' @ vc_auth_pass c,
      ''    }'',
      ''    virtual_ipaddress {'',
      ''        '' @ vc_vip c @ ''/'' @ itoa (vc_cidr_prefix c),
      ''    }'',
      ''    track_script {'',
      ''        chk_haproxy'',
      ''    }'',
      notify_line ''notify_master'' ''MASTER'',
      notify_line ''notify_backup'' ''BACKUP'',
      notify_line ''notify_fault '' ''FAULT'',
      ''}'',
      '''']"

definition vip_text :: "vip_config \<Rightarrow> string \<Rightarrow> int \<Rightarrow> string" where
  "vip_text c state priority = join [CHR 0x0A] (vip_lines c state priority)"

section \<open>The manager\<close>

definition keepalived_new :: "vip_config \<Rightarrow> vip_config" where
  "keepalived_new c =
     (let c1 = (if vc_interface c = [] then c\<lparr>vc_interface := ''eth0''\<rparr> else c);
          c2 = (if vc_cidr_prefix c1 = 0 then c1\<lparr>vc_cidr_prefix := 24\<rparr> else c1)
      in if vc_router_id_int c2 = 0 then c2\<lparr>vc_router_id_int := 51\<rparr> else c2)"

definition conf_path :: string where
  "conf_path = ''/etc/keepalived/keepalived.conf''"

definition keepalived_reload :: "'h run \<Rightarrow> 'h \<Rightarrow> err \<times> 'h" where
  "keepalived_reload run h =
     (case run ''systemctl'' [''reload-or-restart'', ''keepalived''] h of
        ((out, Some e), h') \<Rightarrow> (Some (ErrWrap ''keepalived reload: '' e ('': '' @ trim_space out)), h')
      | ((out, None), h') \<Rightarrow> (None, h'))"

definition write_config :: "'h os_ops \<Rightarrow> 'h run \<Rightarrow> vip_config \<Rightarrow> string \<Rightarrow> int \<Rightarrow> 'h \<Rightarrow> err \<times> 'h" where
  "write_config os run c state priority h =
     (case os_mkdir_all os ''/etc/keepalived'' h of
        (Some e, h1) \<Rightarrow> (Some e, h1)
      | (None, h1) \<Rightarrow>
          (case os_write_file os (conf_path @ ''.tmp'') (vip_text c state priority) h1 of
             (Some e, h2) \<Rightarrow> (Some (ErrWrap ''keepalived: write: '' e []), h2)
           | (None, h2) \<Rightarrow>
               (case os_rename os (conf_path @ ''.tmp'') conf_path h2 of
                  (Some e, h3) \<Rightarrow> (Some (ErrWrap ''keepalived: rename: '' e []), h3)
                | (None, h3) \<Rightarrow> keepalived_reload run h3)))"

definition set_leader :: "'h os_ops \<Rightarrow> 'h run \<Rightarrow> vip_config \<Rightarrow> 'h \<Rightarrow> err \<times> 'h" where
  "set_leader os run c = write_config os run c ''MASTER'' 150"

definition set_backup :: "'h os_ops \<Rightarrow> 'h run \<Rightarrow> vip_config \<Rightarrow> 'h \<Rightarrow> err \<times> 'h" where
  "set_backup os run c = write_config os run c ''BACKUP'' 100"

text \<open>\<open>WatchLeaderChanges\<close> on the addresses the channel delivers until it is closed.\<close>

fun watch_leader :: "'h os_ops \<Rightarrow> 'h run \<Rightarrow> vip_config \<Rightarrow> string \<Rightarrow> string list \<Rightarrow> 'h \<Rightarrow> 'h" where
  "watch_leader os run c my_node_id [] h = h"
| "watch_leader os run c my_node_id (addr # addrs) h =
     watch_leader os run c my_node_id addrs
       (snd ((if addr \<noteq> [] \<and> contains addr my_node_id then set_leader else set_backup) os run c h))"

section \<open>One address, two masters\<close>

definition master :: "vip_config \<Rightarrow> ('h \<Rightarrow> string \<Rightarrow> string option) \<Rightarrow> 'h \<Rightarrow> bool" where
  "master c file h \<longleftrightarrow> file h conf_path = Some (vip_text c ''MASTER'' 150)"

text \<open>The steps that do not fail: files are written and renamed, the reload leaves the file alone.\<close>

definition writes_succeed :: "'h os_ops \<Rightarrow> 'h run \<Rightarrow> ('h \<Rightarrow> string \<Rightarrow> string option) \<Rightarrow> bool" where
  "writes_succeed os run file \<longleftrightarrow> file_laws os file
     \<and> (\<forall>p h. fst (os_mkdir_all os p h) = None) \<and> (\<forall>p c h. fst (os_write_file os p c h) = None)
     \<and> (\<forall>p q h. file h p \<noteq> None \<longrightarrow> fst (os_rename os p q h) = None)
     \<and> (\<forall>p a h. file (snd (run p a h)) = file h)"

lemma write_config_installs:
  assumes "writes_succeed os run file"
  shows "file (snd (write_config os run c state priority h)) conf_path = Some (vip_text c state priority)"
proof -
  have f: "file_laws os file" using assms by (simp add: writes_succeed_def)
  obtain h1 where m: "os_mkdir_all os ''/etc/keepalived'' h = (None, h1)"
    using assms unfolding writes_succeed_def by (metis prod.collapse)
  obtain h2 where w: "os_write_file os (conf_path @ ''.tmp'') (vip_text c state priority) h1 = (None, h2)"
    using assms unfolding writes_succeed_def by (metis prod.collapse)
  have t: "file h2 (conf_path @ ''.tmp'') = Some (vip_text c state priority)"
    using file_write(1) [OF f w] by simp
  then obtain h3 where r: "os_rename os (conf_path @ ''.tmp'') conf_path h2 = (None, h3)"
    using assms unfolding writes_succeed_def by (metis option.distinct(1) prod.collapse)
  have "file h3 conf_path = Some (vip_text c state priority)" using file_rename(1) [OF f r] t by simp
  moreover have "file (snd (keepalived_reload run h3)) = file h3"
  proof -
    obtain out e h4 where x: "run ''systemctl'' [''reload-or-restart'', ''keepalived''] h3 = ((out, e), h4)"
      by (metis surj_pair)
    moreover have "file h4 = file h3" using assms x unfolding writes_succeed_def by (metis snd_conv)
    ultimately show ?thesis by (cases e) (simp_all add: keepalived_reload_def)
  qed
  ultimately show ?thesis by (simp add: write_config_def m w r)
qed

text \<open>The virtual address may have two masters: a node takes itself for the leader when its id is a
  part of the leader's address, so when one node's id contains another's (\<open>node-12\<close> and
  \<open>node-1\<close>) and the first is elected, both write themselves down as master.\<close>

theorem two_masters:
  assumes "writes_succeed os run file" and "leader = pre @ node_id @ suf" and "node_id \<noteq> []"
  shows "master c file (snd (set_leader os run c h))
    \<and> master c file (watch_leader os run c leader (addrs @ [leader @ '':7000'']) h)
    \<and> master c' file (watch_leader os run c' node_id (addrs @ [leader @ '':7000'']) h')"
proof -
  have inst: "master cf file (snd (set_leader os run cf hh))" for cf hh
    unfolding master_def set_leader_def by (rule write_config_installs [OF assms(1)])
  have app: "watch_leader os run cf i (as @ [a]) hh
      = snd ((if a \<noteq> [] \<and> contains a i then set_leader else set_backup) os run cf (watch_leader os run cf i as hh))"
    for cf i as a hh by (induction as arbitrary: hh) simp_all
  have "contains (leader @ '':7000'') leader" "contains (leader @ '':7000'') node_id"
    unfolding contains_iff assms(2) by (metis append.assoc append_Nil)+
  then show ?thesis using inst by (simp add: app)
qed

theorem two_masters_witness:
  "master \<lparr>vc_router_id = ''a'', vc_router_id_int = 51, vc_interface = ''eth0'', vc_vip = ''10.0.0.100'', vc_cidr_prefix = 24, vc_auth_pass = ''x''\<rparr>
     (\<lambda>h. h) (watch_leader mem_os (\<lambda>p a h. (([], None), h))
       \<lparr>vc_router_id = ''a'', vc_router_id_int = 51, vc_interface = ''eth0'', vc_vip = ''10.0.0.100'', vc_cidr_prefix = 24, vc_auth_pass = ''x''\<rparr>
       ''node-1'' [''node-12:7000''] (\<lambda>_. None))"
proof -
  have "writes_succeed mem_os (\<lambda>p a h. (([], None), h)) (\<lambda>h. h)"
    using mem_os_laws by (auto simp: writes_succeed_def)
  from two_masters [OF this, where leader = "''node-12''" and pre = "[]" and node_id = "''node-1''" and suf = "''2''" and addrs = "[]"]
  show ?thesis by simp
qed

end
