(* ===== verification/Leaders.thy ===== *)
theory Leaders
  imports Cluster Keepalived "HOL-Library.Sublist"
begin

text \<open>
  daemon/internal/cluster/cluster.go: the timings given to raft, \<open>Close\<close>, and \<open>ObserveLeaderChanges\<close>,
  which hands the leader changes of raft to \<open>WatchLeaderChanges\<close> of the VRRP manager through two
  channels of eight. Raft's observers are what its documentation says of a non-blocking one: an
  observation that finds the channel full is dropped.
\<close>

section \<open>The timings\<close>

record raft_config =
  rc_local_id :: string
  rc_heartbeat :: duration
  rc_election :: duration
  rc_lease :: duration
  rc_commit :: duration
  rc_snapshot_interval :: duration
  rc_snapshot_threshold :: nat

definition tune_raft_config :: "string \<Rightarrow> raft_config \<Rightarrow> raft_config" where
  "tune_raft_config node_id cfg = cfg\<lparr>rc_local_id := node_id, rc_heartbeat := 500 * 10 ^ 6, rc_election := 1000 * 10 ^ 6,
     rc_lease := 500 * 10 ^ 6, rc_commit := 50 * 10 ^ 6, rc_snapshot_interval := 2 * 60 * 10 ^ 9,
     rc_snapshot_threshold := 8192\<rparr>"

text \<open>\<open>Shutdown\<close> is raft's; a wrapper without a raft has nothing to close.\<close>

definition cluster_close :: "('r \<Rightarrow> err \<times> 'r) \<Rightarrow> 'r option \<Rightarrow> err \<times> 'r option" where
  "cluster_close shutdown raft = (case raft of
     None \<Rightarrow> (None, None)
   | Some r \<Rightarrow> (case shutdown r of (e, r') \<Rightarrow> (e, Some r')))"

section \<open>The observer\<close>

datatype observation = LeaderObservation string string | OtherObservation nat

record observer =
  ob_ch :: "observation list"
  ob_out :: "string list"
  ob_running :: bool

definition observe_leader_changes :: observer where
  "observe_leader_changes = \<lparr>ob_ch = [], ob_out = [], ob_running = True\<rparr>"

text \<open>
  What can happen next: raft makes an observation, the goroutine takes one and passes its address on
  unless the second channel is full, the reader receives an address, the context ends. A step
  that has to wait is \<open>None\<close>.
\<close>

datatype ob_event = Observed observation | Forward | Receive | Cancelled

fun leader_of :: "observation \<Rightarrow> string list" where
  "leader_of (LeaderObservation addr i) = [addr]"
| "leader_of (OtherObservation n) = []"

fun ob_step :: "ob_event \<Rightarrow> observer \<Rightarrow> (string list \<times> observer) option" where
  "ob_step (Observed ob) s = Some ([],
     if ob_running s \<and> leader_of ob \<noteq> [] \<and> length (ob_ch s) < 8 then s\<lparr>ob_ch := ob_ch s @ [ob]\<rparr> else s)"
| "ob_step Forward s =
     (if \<not> ob_running s then None
      else case ob_ch s of
        [] \<Rightarrow> None
      | ob # obs \<Rightarrow> Some ([], if length (ob_out s) < 8 then s\<lparr>ob_ch := obs, ob_out := ob_out s @ leader_of ob\<rparr>
                           else s\<lparr>ob_ch := obs\<rparr>))"
| "ob_step Receive s = (case ob_out s of [] \<Rightarrow> None | addr # addrs \<Rightarrow> Some ([addr], s\<lparr>ob_out := addrs\<rparr>))"
| "ob_step Cancelled s = Some ([], s\<lparr>ob_running := False\<rparr>)"

text \<open>The addresses received during a run.\<close>

fun ob_run :: "ob_event list \<Rightarrow> observer \<Rightarrow> (string list \<times> observer) option" where
  "ob_run [] s = Some ([], s)"
| "ob_run (ev # evs) s =
     (case ob_step ev s of
        None \<Rightarrow> None
      | Some (got, s1) \<Rightarrow> map_option (\<lambda>(got', s2). (got @ got', s2)) (ob_run evs s1))"

fun elections :: "ob_event list \<Rightarrow> string list" where
  "elections [] = []"
| "elections (Observed ob # evs) = leader_of ob @ elections evs"
| "elections (_ # evs) = elections evs"

definition pending :: "observer \<Rightarrow> string list" where
  "pending s = ob_out s @ concat (map leader_of (ob_ch s))"

section \<open>What is received\<close>

lemma subseq_drop_mid: "subseq (xs @ zs) (xs @ ys @ zs)"
  by (intro list_emb_append_mono list_emb_append2) simp_all

lemma ob_step_pending:
  assumes "ob_step ev s = Some (got, s1)"
  shows "subseq (got @ pending s1) (pending s @ elections [ev])"
    and "length (ob_ch s) \<le> 8 \<Longrightarrow> length (ob_out s) \<le> 8 \<Longrightarrow> length (ob_ch s1) \<le> 8 \<and> length (ob_out s1) \<le> 8"
proof -
  have one: "length (ob_out s) + length (leader_of ob) \<le> 8" if "length (ob_out s) < 8" for ob
    using that by (cases ob) simp_all
  show "subseq (got @ pending s1) (pending s @ elections [ev])"
    using assms by (cases ev) (auto simp: pending_def subseq_drop_mid split: if_splits list.splits)
  assume "length (ob_ch s) \<le> 8" "length (ob_out s) \<le> 8"
  with assms one show "length (ob_ch s1) \<le> 8 \<and> length (ob_out s1) \<le> 8"
    by (cases ev) (auto split: if_splits list.splits)
qed

lemma elections_Cons: "elections (ev # evs) = elections [ev] @ elections evs"
  by (cases ev) simp_all

text \<open>The reader gets leaders that were elected, in the order of their election, each election at most
  once; the channels stay within their size.\<close>

theorem leaders_in_order:
  assumes "ob_run evs observe_leader_changes = Some (got, s)"
  shows "subseq (got @ pending s) (elections evs) \<and> length (ob_ch s) \<le> 8 \<and> length (ob_out s) \<le> 8"
proof -
  have "subseq (got @ pending s) (pending s0 @ elections evs) \<and> length (ob_ch s) \<le> 8 \<and> length (ob_out s) \<le> 8"
    if "ob_run evs s0 = Some (got, s)" "length (ob_ch s0) \<le> 8" "length (ob_out s0) \<le> 8" for s0
    using that
  proof (induction evs arbitrary: s0 got)
    case (Cons ev evs)
    from Cons.prems(1) obtain g1 s1 g2 where st: "ob_step ev s0 = Some (g1, s1)"
      and run: "ob_run evs s1 = Some (g2, s)" and got: "got = g1 @ g2"
      by (auto split: option.splits)
    note inv = ob_step_pending [OF st]
    have "subseq (g1 @ g2 @ pending s) (g1 @ pending s1 @ elections evs)"
      using Cons.IH [OF run] inv(2) Cons.prems(2,3) by (intro list_emb_append_mono [OF subseq_order.order_refl]) simp_all
    also have "subseq \<dots> (pending s0 @ elections [ev] @ elections evs)"
      using inv(1) by (metis append.assoc list_emb_append_mono subseq_order.order_refl)
    finally show ?case using Cons.IH [OF run] inv(2) Cons.prems got elections_Cons by (metis append.assoc)
  qed simp
  from this [of observe_leader_changes] assms show ?thesis by (simp add: observe_leader_changes_def pending_def)
qed

section \<open>A lost leader change\<close>

text \<open>The reader is busy with a reload while the leader changes nine times.\<close>

definition busy_reader :: "string list \<Rightarrow> string \<Rightarrow> ob_event list" where
  "busy_reader addrs addr =
     concat (map (\<lambda>a. [Observed (LeaderObservation a []), Forward]) (addrs @ [addr])) @ replicate (length addrs) Receive"

lemma ob_run_append:
  "ob_run (evs @ evs') s = (case ob_run evs s of None \<Rightarrow> None
     | Some (got, s1) \<Rightarrow> map_option (\<lambda>(got', s2). (got @ got', s2)) (ob_run evs' s1))"
  by (induction evs arbitrary: s)
    (auto simp: option.map_comp comp_def case_prod_unfold option.map_ident split: option.split)

lemma run_elections:
  assumes "length addrs + length out \<le> 8"
  shows "ob_run (concat (map (\<lambda>a. [Observed (LeaderObservation a []), Forward]) addrs)) \<lparr>ob_ch = [], ob_out = out, ob_running = True\<rparr>
    = Some ([], \<lparr>ob_ch = [], ob_out = out @ addrs, ob_running = True\<rparr>)"
  using assms by (induction addrs arbitrary: out) simp_all

lemma run_receives:
  "ob_run (replicate (length out) Receive) \<lparr>ob_ch = [], ob_out = out, ob_running = r\<rparr>
    = Some (out, \<lparr>ob_ch = [], ob_out = [], ob_running = r\<rparr>)"
  by (induction out) simp_all

lemma watch_last:
  "watch_leader os run c me (as @ [a]) h
     = snd ((if a \<noteq> [] \<and> contains a me then set_leader else set_backup) os run c (watch_leader os run c me as h))"
  by (induction as arbitrary: h) simp_all

text \<open>C34. The last of nine quick elections is dropped and nothing is left to be received, so the new leader,
  which is told of it by this channel only, writes itself down as a backup and stays one, while
  no other node is the leader.\<close>

theorem leader_change_lost:
  assumes "writes_succeed os run file" and "length addrs = 8" and "\<not> contains (last addrs) me" and "contains addr me"
  shows "\<exists>got s. ob_run (busy_reader addrs addr) observe_leader_changes = Some (got, s) \<and> pending s = []
    \<and> last (elections (busy_reader addrs addr)) = addr
    \<and> file (watch_leader os run c me got h) conf_path = Some (vip_text c ''BACKUP'' 100)"
proof -
  have ne: "addrs \<noteq> []" using assms(2) by auto
  have "ob_run (busy_reader addrs addr) observe_leader_changes = Some (addrs, \<lparr>ob_ch = [], ob_out = [], ob_running = True\<rparr>)"
    using run_elections [of addrs "[]"] run_receives [of addrs True] assms(2)
    by (simp add: busy_reader_def observe_leader_changes_def ob_run_append)
  moreover have "elections (replicate n Receive) = []" for n by (induction n) simp_all
  then have "elections (busy_reader addrs addr) = addrs @ [addr]"
  proof -
    have "elections (concat (map (\<lambda>a. [Observed (LeaderObservation a []), Forward]) as) @ evs) = as @ elections evs" for as evs
      by (induction as) simp_all
    then show ?thesis using \<open>\<And>n. elections (replicate n Receive) = []\<close> by (simp add: busy_reader_def del: map_append concat_append)
  qed
  moreover have "watch_leader os run c me addrs h = snd (set_backup os run c (watch_leader os run c me (butlast addrs) h))"
    using watch_last [of os run c me "butlast addrs" "last addrs" h] ne assms(3) by simp
  ultimately show ?thesis
    using write_config_installs [OF assms(1), of c "''BACKUP''" 100] by (simp add: pending_def set_backup_def)
qed

theorem leader_change_lost_witness:
  "\<exists>got s. ob_run (busy_reader (replicate 8 ''10.0.0.2:7000'') ''node-1:7000'') observe_leader_changes = Some (got, s)
    \<and> watch_leader mem_os (\<lambda>p a h. (([], None), h))
       \<lparr>vc_router_id = ''a'', vc_router_id_int = 51, vc_interface = ''eth0'', vc_vip = ''10.0.0.100'', vc_cidr_prefix = 24, vc_auth_pass = ''x''\<rparr>
       ''node-1'' got (\<lambda>_. None) conf_path
      = Some (vip_text \<lparr>vc_router_id = ''a'', vc_router_id_int = 51, vc_interface = ''eth0'', vc_vip = ''10.0.0.100'', vc_cidr_prefix = 24, vc_auth_pass = ''x''\<rparr>
         ''BACKUP'' 100)"
proof -
  have "writes_succeed mem_os (\<lambda>p a h. (([], None), h)) (\<lambda>h. h)"
    using mem_os_laws by (auto simp: writes_succeed_def)
  moreover have "\<not> contains (last (replicate 8 ''10.0.0.2:7000'')) ''node-1''" "contains ''node-1:7000'' ''node-1''"
    by code_simp+
  ultimately show ?thesis
    using leader_change_lost [of mem_os "\<lambda>p a h. (([], None), h)" "\<lambda>h. h" "replicate 8 ''10.0.0.2:7000''" "''node-1''" "''node-1:7000''"]
    by fastforce
qed

end
