(* ===== verification/Metrics.thy ===== *)
theory Metrics
  imports Cluster
begin

text \<open>
  daemon/internal/metrics/exporter.go: the gauges of the daemon, and what a scrape of the cluster sets
  them to. A gauge with a label is a map from its label values; the value is the number given to
  \<open>Set\<close>. The process and Go collectors are the library's.
\<close>

section \<open>The exporter\<close>

record gauge_desc =
  gd_name :: string
  gd_help :: string
  gd_label :: "string option"

definition gauge_descs :: "gauge_desc list" where
  "gauge_descs =
     [\<lparr>gd_name = ''node_memory_total_mb'', gd_help = ''Total memory of each cluster node in MiB'', gd_label = Some ''node_id''\<rparr>,
      \<lparr>gd_name = ''node_memory_used_mb'', gd_help = ''Used memory of each cluster node in MiB'', gd_label = Some ''node_id''\<rparr>,
      \<lparr>gd_name = ''node_cpu_load_percent'', gd_help = ''1-minute CPU load average as a percentage per node'', gd_label = Some ''node_id''\<rparr>,
      \<lparr>gd_name = ''node_state'', gd_help = ''State of each cluster node (1=up, 2=suspect, 3=down, 4=draining)'', gd_label = Some ''node_id''\<rparr>,
      \<lparr>gd_name = ''container_count'', gd_help = ''Number of running Minecraft OCI containers on this node'', gd_label = None\<rparr>,
      \<lparr>gd_name = ''raft_is_leader'', gd_help = ''1 if this node is the current Raft leader, 0 otherwise'', gd_label = None\<rparr>,
      \<lparr>gd_name = ''raft_commit_index'', gd_help = ''Current Raft commit index'', gd_label = None\<rparr>,
      \<lparr>gd_name = ''servers_by_state'', gd_help = ''Number of servers in each state'', gd_label = Some ''state''\<rparr>]"

datatype gauge_value = OfInt int | OfF64 f64

record gauges =
  gm_mem_total :: "string \<rightharpoonup> gauge_value"
  gm_mem_used :: "string \<rightharpoonup> gauge_value"
  gm_cpu_load :: "string \<rightharpoonup> gauge_value"
  gm_node_state :: "string \<rightharpoonup> gauge_value"
  gm_container_count :: gauge_value
  gm_is_leader :: gauge_value
  gm_commit_index :: gauge_value
  gm_by_state :: "string \<rightharpoonup> gauge_value"

text \<open>\<open>MustRegister\<close> panics on a second gauge of the same name; gauges without a label start at zero.\<close>

definition new_exporter :: "gauges option" where
  "new_exporter =
     (if distinct (map gd_name gauge_descs)
      then Some \<lparr>gm_mem_total = Map.empty, gm_mem_used = Map.empty, gm_cpu_load = Map.empty, gm_node_state = Map.empty,
         gm_container_count = OfInt 0, gm_is_leader = OfInt 0, gm_commit_index = OfInt 0, gm_by_state = Map.empty\<rparr>
      else None)"

section \<open>A scrape\<close>

definition scrape_node :: "node \<Rightarrow> gauges \<Rightarrow> gauges" where
  "scrape_node n g = g
     \<lparr>gm_mem_total := (gm_mem_total g)(n_id n \<mapsto> OfInt (uint (memory_total_mb (n_resources n)))),
      gm_mem_used := (gm_mem_used g)(n_id n \<mapsto> OfInt (uint (memory_used_mb (n_resources n)))),
      gm_cpu_load := (gm_cpu_load g)(n_id n \<mapsto> OfF64 (cpu_load (n_resources n))),
      gm_node_state := (gm_node_state g)(n_id n \<mapsto> OfInt (uint (n_state n)))\<rparr>"

definition count_server :: "server \<Rightarrow> (string \<rightharpoonup> int) \<Rightarrow> (string \<rightharpoonup> int)" where
  "count_server v m = m(server_state_string (sv_state v) \<mapsto>
     (case m (server_state_string (sv_state v)) of None \<Rightarrow> 0 | Some c \<Rightarrow> c) + 1)"

definition state_counts :: "server list \<Rightarrow> string \<rightharpoonup> int" where
  "state_counts servers = fold count_server servers (map_of (map (\<lambda>s. (server_state_string s, 0))
     [ServerStopped, ServerStarting, ServerReady, ServerStopping, ServerCrashed, ServerOrphaned]))"

definition set_states :: "server list \<Rightarrow> gauges \<Rightarrow> gauges" where
  "set_states servers g = g\<lparr>gm_by_state := gm_by_state g ++ (map_option OfInt \<circ> state_counts servers)\<rparr>"

definition applied_index :: "nat op" where
  "applied_index = andthen sync (\<lambda>n E W. Some (w_index W, W))"

definition scrape :: "gauges \<Rightarrow> gauges op" where
  "scrape g =
     andthen (read_fsm fsm_nodes) (\<lambda>nodes.
     andthen is_leader (\<lambda>l.
     andthen applied_index (\<lambda>i.
     andthen (read_fsm fsm_servers) (\<lambda>servers. ret
       (set_states servers ((fold scrape_node nodes g)
          \<lparr>gm_is_leader := OfInt (if l then 1 else 0), gm_commit_index := OfInt (int i)\<rparr>))))))"

section \<open>What a scrape shows\<close>

text \<open>No two gauges share a name: the exporter starts.\<close>

lemma exporter_starts: "new_exporter \<noteq> None"
  by (simp add: new_exporter_def gauge_descs_def)

lemma count_servers:
  "fold count_server servers m k =
     (case m k of
        None \<Rightarrow> if filter (\<lambda>v. server_state_string (sv_state v) = k) servers = [] then None
                else Some (int (length (filter (\<lambda>v. server_state_string (sv_state v) = k) servers)))
      | Some c \<Rightarrow> Some (c + int (length (filter (\<lambda>v. server_state_string (sv_state v) = k) servers))))"
  by (induction servers arbitrary: m) (auto simp: count_server_def split: option.splits)

lemma fold_scrape_node:
  "gm_mem_total (fold scrape_node nodes g) i = (case find (\<lambda>n. n_id n = i) (rev nodes) of
      None \<Rightarrow> gm_mem_total g i | Some n \<Rightarrow> Some (OfInt (uint (memory_total_mb (n_resources n)))))"
  "gm_node_state (fold scrape_node nodes g) i = (case find (\<lambda>n. n_id n = i) (rev nodes) of
      None \<Rightarrow> gm_node_state g i | Some n \<Rightarrow> Some (OfInt (uint (n_state n))))"
  by (induction nodes arbitrary: g rule: rev_induct) (simp_all add: scrape_node_def)

lemma state_name_inj:
  assumes "s \<in> {ServerStopped, ServerStarting, ServerReady, ServerStopping, ServerCrashed, ServerOrphaned}"
  shows "server_state_string t = server_state_string s \<longleftrightarrow> t = s"
  using assms
  by (auto simp: server_state_string_def ServerStopped_def ServerStarting_def ServerReady_def ServerStopping_def
      ServerCrashed_def ServerOrphaned_def)

lemma count_values:
  assumes "permutes ord" and "map_ok m"
  shows "length (filter Q (mvalues ord m)) = card {k. \<exists>v. mget m k = Some v \<and> Q v}"
proof -
  let ?xs = "filter (\<lambda>p. Q (snd p)) (mrange ord m)"
  have d: "distinct (map fst ?xs)" using distinct_map_filter distinct_mrange [OF assms] by blast
  have "length (filter Q (mvalues ord m)) = length (map fst ?xs)"
    by (simp add: mvalues_def filter_map o_def)
  also have "\<dots> = card (set (map fst ?xs))" by (rule distinct_card [OF d, symmetric])
  also have "set (map fst ?xs) = {k. \<exists>v. mget m k = Some v \<and> Q v}"
    using set_mrange [OF assms(1), of m] by (auto simp: image_iff)
  finally show ?thesis .
qed

lemma state_counts_exact:
  assumes "s \<in> {ServerStopped, ServerStarting, ServerReady, ServerStopping, ServerCrashed, ServerOrphaned}"
  shows "state_counts servers (server_state_string s) = Some (int (length (filter (\<lambda>v. sv_state v = s) servers)))"
proof -
  have "map_of (map (\<lambda>s. (server_state_string s, 0 :: int))
     [ServerStopped, ServerStarting, ServerReady, ServerStopping, ServerCrashed, ServerOrphaned]) (server_state_string s) = Some 0"
    using assms by auto
  then show ?thesis by (simp add: state_counts_def count_servers state_name_inj [OF assms])
qed

text \<open>After a scrape in a quiet moment the gauge of each state is the number of servers in that state. The
  gauges of a node that has been removed stay what they last were, and so in every later scrape.\<close>

theorem scrape_exact:
  assumes "scrape g E W = Some (g', W')" and "\<And>n. e_others E n = []" and "\<And>n. permutes (e_iter E n)"
    and "map_ok (f_servers (w_fsm W))"
    and "s \<in> {ServerStopped, ServerStarting, ServerReady, ServerStopping, ServerCrashed, ServerOrphaned}"
  shows "gm_by_state g' (server_state_string s) = Some (OfInt (int (card {k. \<exists>v. mget (f_servers (w_fsm W)) k = Some v \<and> sv_state v = s})))
    \<and> (i \<notin> {n_id v | v. \<exists>k. mget (f_nodes (w_fsm W)) k = Some v}
         \<longrightarrow> gm_mem_total g' i = gm_mem_total g i \<and> gm_node_state g' i = gm_node_state g i)"
proof -
  have quiet: "sync E V = Some (w_step V, V\<lparr>w_step := Suc (w_step V)\<rparr>)" for V
    by (simp add: sync_def assms(2))
  obtain n m where g': "g' = set_states (fsm_servers (e_iter E n) (w_fsm W))
      ((fold scrape_node (fsm_nodes (e_iter E m) (w_fsm W)) g)
        \<lparr>gm_is_leader := OfInt (if e_leads E (Suc m) then 1 else 0), gm_commit_index := OfInt (int (w_index W))\<rparr>)"
    using assms(1) by (auto simp: scrape_def read_fsm_def is_leader_def applied_index_def andthen_def ret_def quiet)
  have "gm_by_state g' (server_state_string s)
      = Some (OfInt (int (length (filter (\<lambda>v. sv_state v = s) (fsm_servers (e_iter E n) (w_fsm W))))))"
    by (simp add: g' set_states_def state_counts_exact [OF assms(5)] map_add_def)
  moreover have "find (\<lambda>n. n_id n = i) (rev (fsm_nodes (e_iter E m) (w_fsm W))) = None"
    if "i \<notin> {n_id v | v. \<exists>k. mget (f_nodes (w_fsm W)) k = Some v}"
    using that by (auto simp: find_None_iff fsm_nodes_def set_mvalues [OF assms(3)])
  ultimately show ?thesis
    using count_values [OF assms(3,4)] by (auto simp: g' set_states_def fsm_servers_def fold_scrape_node)
qed

end
