(* ===== verification/ModRepos.thy ===== *)
theory ModRepos
  imports GoUrl Json HostFs
begin

text \<open>
  daemon/internal/modproxy/modrinth.go and curseforge.go: the clients of the two mod
  repositories. The HTTP client is the parameter \<open>net\<close>; a body comes as its bytes and as the
  first JSON value they hold, which is what a decoder makes of them; \<open>rs_read_err\<close> is the error
  reading it to the end gives.
\<close>

section \<open>Requests and responses\<close>

record http_request =
  rq_url :: string
  rq_headers :: "(string \<times> string) list"

record http_response =
  rs_code :: nat
  rs_status :: string
  rs_body :: string
  rs_read_err :: err
  rs_json :: "json option"

type_synonym 'h net = "http_request \<Rightarrow> 'h \<Rightarrow> http_response result \<times> 'h"

text \<open>\<open>json.Marshal\<close> of a text, of a list of texts and of a list of those: quotes, controls and the
  characters that are special in HTML are escaped (valid UTF-8 without line separators).\<close>

definition json_char :: "char \<Rightarrow> string" where
  "json_char c =
     (let n = code c in
      if n = 34 then [CHR 92, c] else if n = 92 then [CHR 92, c]
      else if n = 8 then CHR 92 # ''b'' else if n = 12 then CHR 92 # ''f''
      else if n = 10 then CHR 92 # ''n'' else if n = 13 then CHR 92 # ''r'' else if n = 9 then CHR 92 # ''t''
      else if n < 32 \<or> c \<in> set ''<>&'' then CHR 92 # ''u00'' @ [hex_digit (n div 16), hex_digit (n mod 16)]
      else [c])"

definition json_quote :: "string \<Rightarrow> string" where
  "json_quote s = CHR 34 # concat (map json_char s) @ [CHR 34]"

definition json_texts :: "string list \<Rightarrow> string" where
  "json_texts ss = ''['' @ join '','' (map json_quote ss) @ '']''"

text \<open>Decoding into a slice of structs: every element starts from the zero value.\<close>

fun dec_items :: "'a dec \<Rightarrow> 'a \<Rightarrow> json list \<Rightarrow> 'a list result" where
  "dec_items d z [] = Inr []"
| "dec_items d z (j # js) = rbind (d j z) (\<lambda>x. rbind (dec_items d z js) (\<lambda>xs. Inr (x # xs)))"

fun dec_list :: "'a dec \<Rightarrow> 'a \<Rightarrow> 'a list dec" where
  "dec_list d z JNull xs = Inr []"
| "dec_list d z (JArr js) xs = dec_items d z js"
| "dec_list d z j xs = Inl ErrJson"

text \<open>What both clients do with an answer that is no error: a status other than 2xx is one.\<close>

definition answer :: "string \<Rightarrow> (json \<Rightarrow> 'a result) \<Rightarrow> http_response \<Rightarrow> 'a result" where
  "answer failed dec r =
     (if rs_code r div 100 \<noteq> 2 then Inl (Errorf failed)
      else case rs_json r of None \<Rightarrow> Inl ErrJson | Some j \<Rightarrow> dec j)"

text \<open>
  The address of a request: a constant host, a tail that \<open>url.Parse\<close> takes apart, and parameters
  set on the query it had. A tail that does not parse gives a nil URL, and the call of its
  \<open>Query\<close> method panics: \<open>None\<close>.
\<close>

definition request_url :: "string \<Rightarrow> string \<Rightarrow> (string \<times> string) list \<Rightarrow> string option" where
  "request_url host tail params =
     map_option (\<lambda>u. url_string host
         (u\<lparr>ur_query := values_encode (fold (\<lambda>(k, v). values_set k v) params (parse_query (ur_query u)))\<rparr>))
       (url_parse tail)"

section \<open>Modrinth\<close>

record modrinth_project =
  mp_project_id :: string
  mp_slug :: string
  mp_title :: string
  mp_description :: string
  mp_categories :: "string list"
  mp_downloads :: u64

record modrinth_file =
  mf_url :: string
  mf_filename :: string
  mf_primary :: bool
  mf_size :: u64
  mf_hashes :: "string gomap"

record modrinth_dep =
  mdp_project_id :: string
  mdp_type :: string

record modrinth_version =
  mv_id :: string
  mv_project_id :: string
  mv_name :: string
  mv_version :: string
  mv_game_vers :: "string list"
  mv_loaders :: "string list"
  mv_files :: "modrinth_file list"
  mv_date_published :: time
  mv_dependencies :: "modrinth_dep list"

definition project_fields :: "modrinth_project fields" where
  "project_fields =
     [fld ''project_id'' dec_string mp_project_id mp_project_id_update,
      fld ''slug'' dec_string mp_slug mp_slug_update,
      fld ''title'' dec_string mp_title mp_title_update,
      fld ''description'' dec_string mp_description mp_description_update,
      fld ''categories'' dec_strings mp_categories mp_categories_update,
      fld ''downloads'' dec_uint mp_downloads mp_downloads_update]"

definition mfile_zero :: modrinth_file where
  "mfile_zero = \<lparr>mf_url = [], mf_filename = [], mf_primary = False, mf_size = 0, mf_hashes = NilMap\<rparr>"

definition mfile_fields :: "modrinth_file fields" where
  "mfile_fields =
     [fld ''url'' dec_string mf_url mf_url_update,
      fld ''filename'' dec_string mf_filename mf_filename_update,
      fld ''primary'' dec_bool mf_primary mf_primary_update,
      fld ''size'' dec_uint mf_size mf_size_update,
      fld ''hashes'' (dec_map dec_string []) mf_hashes mf_hashes_update]"

definition dep_fields :: "modrinth_dep fields" where
  "dep_fields =
     [fld ''project_id'' dec_string mdp_project_id mdp_project_id_update,
      fld ''dependency_type'' dec_string mdp_type mdp_type_update]"

definition version_zero :: modrinth_version where
  "version_zero = \<lparr>mv_id = [], mv_project_id = [], mv_name = [], mv_version = [], mv_game_vers = [],
     mv_loaders = [], mv_files = [], mv_date_published = 0, mv_dependencies = []\<rparr>"

definition version_fields :: "modrinth_version fields" where
  "version_fields =
     [fld ''id'' dec_string mv_id mv_id_update,
      fld ''project_id'' dec_string mv_project_id mv_project_id_update,
      fld ''name'' dec_string mv_name mv_name_update,
      fld ''version_number'' dec_string mv_version mv_version_update,
      fld ''game_versions'' dec_strings mv_game_vers mv_game_vers_update,
      fld ''loaders'' dec_strings mv_loaders mv_loaders_update,
      fld ''files'' (dec_list (dec_struct mfile_fields) mfile_zero) mv_files mv_files_update,
      fld ''date_published'' dec_time mv_date_published mv_date_published_update,
      fld ''dependencies'' (dec_list (dec_struct dep_fields) \<lparr>mdp_project_id = [], mdp_type = []\<rparr>)
        mv_dependencies mv_dependencies_update]"

text \<open>A client is its user agent.\<close>

definition new_modrinth :: "string \<Rightarrow> string" where
  "new_modrinth ua = (if ua = [] then ''AetherNet/0.1 (+https://aether.invalid)'' else ua)"

definition modrinth_host :: string where
  "modrinth_host = ''https://api.modrinth.com''"

definition modrinth_get :: "'h net \<Rightarrow> string \<Rightarrow> string \<Rightarrow> (json \<Rightarrow> 'a result) \<Rightarrow> 'h \<Rightarrow> 'a result \<times> 'h" where
  "modrinth_get net ua url dec h =
     (case net \<lparr>rq_url = url, rq_headers = [(''User-Agent'', ua)]\<rparr> h of
        (Inl e, h') \<Rightarrow> (Inl e, h')
      | (Inr r, h') \<Rightarrow>
          (answer (''modrinth '' @ url @ '': '' @ rs_status r @ '' '' @ em_dash @ '' '' @ trim_space (rs_body r)) dec r, h'))"

definition modrinth_search :: "'h net \<Rightarrow> string \<Rightarrow> string \<Rightarrow> string list \<Rightarrow> 'h \<Rightarrow> (modrinth_project list result \<times> 'h) option" where
  "modrinth_search net ua query facets h =
     map_option (\<lambda>url. modrinth_get net ua url (\<lambda>j. dec_struct
           [fld ''hits'' (dec_list (dec_struct project_fields)
              \<lparr>mp_project_id = [], mp_slug = [], mp_title = [], mp_description = [], mp_categories = [], mp_downloads = 0\<rparr>)
              (\<lambda>ms. ms) (\<lambda>f. f)] j []) h)
       (request_url modrinth_host ''/v2/search''
          ((''query'', query) # (if facets \<noteq> [] then [(''facets'', ''['' @ json_texts facets @ '']'')] else [])))"

definition latest_version ::
  "'h net \<Rightarrow> string \<Rightarrow> string \<Rightarrow> string \<Rightarrow> string \<Rightarrow> 'h \<Rightarrow> (modrinth_version result \<times> 'h) option" where
  "latest_version net ua slug_or_id mc_version loader h =
     map_option (\<lambda>url.
         case modrinth_get net ua url (\<lambda>j. dec_list (dec_struct version_fields) version_zero j []) h of
           (Inl e, h') \<Rightarrow> (Inl e, h')
         | (Inr [], h') \<Rightarrow> (Inl (Errorf (''no versions for '' @ slug_or_id @ '' on '' @ mc_version @ ''/'' @ loader)), h')
         | (Inr (v # _), h') \<Rightarrow> (Inr v, h'))
       (request_url modrinth_host (''/v2/project/'' @ slug_or_id @ ''/version'')
          ((if mc_version \<noteq> [] then [(''game_versions'', json_texts [mc_version])] else [])
           @ (if loader \<noteq> [] then [(''loaders'', json_texts [loader])] else [])))"

definition download :: "'h net \<Rightarrow> (string \<times> string) list \<Rightarrow> string \<Rightarrow> 'h \<Rightarrow> string result \<times> 'h" where
  "download net headers url h =
     (case net \<lparr>rq_url = url, rq_headers = headers\<rparr> h of
        (Inl e, h') \<Rightarrow> (Inl e, h')
      | (Inr r, h') \<Rightarrow>
          (if rs_code r div 100 \<noteq> 2 then (Inl (Errorf (''download '' @ url @ '': '' @ rs_status r)), h')
           else (Inr (rs_body r), h')))"

definition modrinth_download :: "'h net \<Rightarrow> string \<Rightarrow> string \<Rightarrow> 'h \<Rightarrow> string result \<times> 'h" where
  "modrinth_download net ua = download net [(''User-Agent'', ua)]"

section \<open>CurseForge\<close>

record curseforge =
  cu_api_key :: string
  cu_user_agent :: string

record cf_mod =
  cm_id :: int
  cm_name :: string
  cm_slug :: string
  cm_summary :: string

record cf_file =
  cl_id :: int
  cl_mod_id :: int
  cl_file_name :: string
  cl_download_url :: string
  cl_game_versions :: "string list"
  cl_file_length :: u64
  cl_file_date :: time

definition cf_mod_fields :: "cf_mod fields" where
  "cf_mod_fields =
     [fld ''id'' dec_int cm_id cm_id_update,
      fld ''name'' dec_string cm_name cm_name_update,
      fld ''slug'' dec_string cm_slug cm_slug_update,
      fld ''summary'' dec_string cm_summary cm_summary_update]"

definition cf_file_fields :: "cf_file fields" where
  "cf_file_fields =
     [fld ''id'' dec_int cl_id cl_id_update,
      fld ''modid'' dec_int cl_mod_id cl_mod_id_update,
      fld ''filename'' dec_string cl_file_name cl_file_name_update,
      fld ''downloadurl'' dec_string cl_download_url cl_download_url_update,
      fld ''gameversions'' dec_strings cl_game_versions cl_game_versions_update,
      fld ''filelength'' dec_uint cl_file_length cl_file_length_update,
      fld ''filedate'' dec_time cl_file_date cl_file_date_update]"

definition new_curseforge :: "string \<Rightarrow> string \<Rightarrow> curseforge" where
  "new_curseforge key ua = \<lparr>cu_api_key = key, cu_user_agent = (if ua = [] then ''AetherNet/0.1'' else ua)\<rparr>"

definition curseforge_host :: string where
  "curseforge_host = ''https://api.curseforge.com''"

definition curseforge_get ::
  "'h net \<Rightarrow> curseforge \<Rightarrow> string \<Rightarrow> (json \<Rightarrow> 'a list result) \<Rightarrow> 'h \<Rightarrow> 'a list result \<times> 'h" where
  "curseforge_get net c url dec h =
     (case net \<lparr>rq_url = url, rq_headers = [(''User-Agent'', cu_user_agent c), (''x-api-key'', cu_api_key c)]\<rparr> h of
        (Inl e, h') \<Rightarrow> (Inl e, h')
      | (Inr r, h') \<Rightarrow>
          (answer (''curseforge '' @ url @ '': '' @ rs_status r @ '' '' @ em_dash @ '' '' @ rs_body r) dec r, h'))"

text \<open>The member \<open>data\<close> of the answer.\<close>

definition data_of :: "'a dec \<Rightarrow> 'a \<Rightarrow> json \<Rightarrow> 'a list result" where
  "data_of d z j = dec_struct [fld ''data'' (dec_list d z) (\<lambda>xs. xs) (\<lambda>f. f)] j []"

definition curseforge_search :: "'h net \<Rightarrow> curseforge \<Rightarrow> string \<Rightarrow> int \<Rightarrow> 'h \<Rightarrow> (cf_mod list result \<times> 'h) option" where
  "curseforge_search net c query class_id h =
     (if cu_api_key c = [] then Some (Inl (Errorf ''curseforge: no api key configured''), h)
      else map_option (\<lambda>url. curseforge_get net c url
             (data_of (dec_struct cf_mod_fields) \<lparr>cm_id = 0, cm_name = [], cm_slug = [], cm_summary = []\<rparr>) h)
           (request_url curseforge_host ''/v1/mods/search''
              ([(''gameId'', itoa 432), (''searchFilter'', query)]
               @ (if class_id \<noteq> 0 then [(''classId'', itoa class_id)] else []))))"

definition latest_file ::
  "'h net \<Rightarrow> curseforge \<Rightarrow> int \<Rightarrow> string \<Rightarrow> int \<Rightarrow> 'h \<Rightarrow> (cf_file result \<times> 'h) option" where
  "latest_file net c mod_id mc_version loader_id h =
     map_option (\<lambda>url.
         case curseforge_get net c url (data_of (dec_struct cf_file_fields)
             \<lparr>cl_id = 0, cl_mod_id = 0, cl_file_name = [], cl_download_url = [], cl_game_versions = [],
              cl_file_length = 0, cl_file_date = 0\<rparr>) h of
           (Inl e, h') \<Rightarrow> (Inl e, h')
         | (Inr [], h') \<Rightarrow> (Inl (Errorf (''curseforge: no compatible file for mod '' @ itoa mod_id)), h')
         | (Inr (f # _), h') \<Rightarrow> (Inr f, h'))
       (request_url curseforge_host (''/v1/mods/'' @ itoa mod_id @ ''/files'')
          ((if mc_version \<noteq> [] then [(''gameVersion'', mc_version)] else [])
           @ (if loader_id \<noteq> 0 then [(''modLoaderType'', itoa loader_id)] else [])
           @ [(''pageSize'', ''1'')]))"

definition curseforge_download :: "'h net \<Rightarrow> curseforge \<Rightarrow> string \<Rightarrow> 'h \<Rightarrow> string result \<times> 'h" where
  "curseforge_download net c =
     download net ((''User-Agent'', cu_user_agent c)
       # (if cu_api_key c \<noteq> [] then [(''x-api-key'', cu_api_key c)] else []))"

section \<open>What is asked for\<close>

lemma path_safe_plain:
  "path_safe c \<Longrightarrow> c \<noteq> CHR ''%'' \<and> c \<noteq> CHR ''#'' \<and> c \<noteq> CHR ''?'' \<and> \<not> code c < 32 \<and> code c \<noteq> 127"
  by (auto simp: path_safe_def unreserved_def code_def)

lemma unescape_safe: "list_all path_safe s \<Longrightarrow> unescape False s = Some s"
  by (induction s) (auto dest: path_safe_plain)

lemma escape_safe: "list_all safe s \<Longrightarrow> escape_with safe s = s"
  by (induction s) (simp_all add: escape_with_def)

lemma escape_nil [simp]: "escape_with safe [] = []"
  by (simp add: escape_with_def)

lemma index_byte_none: "c \<notin> set s \<Longrightarrow> index_byte s c = None"
  by (induction s) auto

lemma url_parse_safe:
  assumes "list_all path_safe t"
  shows "url_parse t = Some \<lparr>ur_path = t, ur_raw_path = [], ur_query = [], ur_force_query = False,
    ur_fragment = [], ur_raw_fragment = []\<rparr>"
proof -
  have n: "CHR ''#'' \<notin> set t" "CHR ''?'' \<notin> set t" "\<not> list_ex (\<lambda>c. code c < 32 \<or> code c = 127) t"
    using assms path_safe_plain by (auto simp: list_all_iff list_ex_iff)
  then have "\<not> (t \<noteq> [] \<and> last t = CHR ''?'')" by (metis last_in_set)
  with n assms show ?thesis
    by (auto simp: url_parse_def cut_def index_byte_none unescape_safe escape_safe)
qed

lemma set_params:
  "distinct (map fst (vs @ ps)) \<Longrightarrow> fold (\<lambda>(k, v). values_set k v) ps vs = vs @ ps"
proof (induction ps arbitrary: vs)
  case Nil
  then show ?case by simp
next
  case (Cons p ps)
  obtain k v where p: "p = (k, v)" by (cases p)
  have "filter (\<lambda>q. fst q \<noteq> k) vs = vs" using Cons.prems by (auto simp: p filter_id_conv)
  then have "values_set k v vs = vs @ [p]" by (simp add: values_set_def p)
  with Cons.IH [of "vs @ [p]"] Cons.prems show ?case by (simp add: p)
qed

lemma request_url_safe:
  assumes "list_all path_safe t" and "distinct (map fst ps)" and "ps \<noteq> []"
  shows "request_url host t ps = Some (host @ t @ CHR ''?'' # values_encode ps)"
proof -
  have "parse_query [] = []" by (simp add: parse_query_def parse_pair_def map_filter_def)
  then have f: "fold (\<lambda>(k, v). values_set k v) ps (parse_query []) = ps"
    using set_params [of "[]" ps] assms(2) by simp
  have "values_encode ps \<noteq> []"
  proof
    assume "values_encode ps = []"
    then have "sort_key fst ps = []" using parse_values_encode [of ps]
      by (simp add: parse_query_def parse_pair_def map_filter_def)
    with assms(3) show False by (metis length_0_conv length_sort)
  qed
  with f assms(1) show ?thesis
    by (simp add: request_url_def url_parse_safe url_string_def printed_def escape_safe)
qed

text \<open>Whatever is searched for, the request goes to the search address, and its query string holds
  exactly the text and the facets: a text cannot add or change a parameter, nor leave the query.\<close>

theorem search_request:
  "\<exists>q. parse_query q = (if facets \<noteq> [] then [(''facets'', ''['' @ json_texts facets @ '']'')] else []) @ [(''query'', query)]
    \<and> CHR ''#'' \<notin> set q
    \<and> (\<exists>dec. \<forall>net ua h. modrinth_search net ua query facets h
         = Some (modrinth_get net ua (''https://api.modrinth.com/v2/search?'' @ q) dec h))"
proof -
  let ?ps = "(''query'', query) # (if facets \<noteq> [] then [(''facets'', ''['' @ json_texts facets @ '']'')] else [])"
  have "list_all path_safe ''/v2/search''" by (simp add: path_safe_def unreserved_def code_def)
  then have "request_url modrinth_host ''/v2/search'' ?ps
      = Some (''https://api.modrinth.com/v2/search?'' @ values_encode ?ps)"
    by (subst request_url_safe) (simp_all add: modrinth_host_def)
  moreover have "sort_key fst ?ps = (if facets \<noteq> [] then [(''facets'', ''['' @ json_texts facets @ '']'')] else []) @ [(''query'', query)]"
    by simp
  ultimately show ?thesis
    using parse_values_encode [of ?ps] values_encode_clean(1) [of ?ps]
    by (intro exI [of _ "values_encode ?ps"]) (auto simp: modrinth_search_def)
qed

text \<open>The name of a project is put into the address as it is. One of unreserved characters is asked for
  under its own address; one with a percent sign that starts no escape makes the call panic,
  whatever the network.\<close>

theorem latest_version_request:
  assumes "list_all unreserved slug" and "mc \<noteq> []" and "loader \<noteq> []"
  shows "\<exists>q. parse_query q = [(''game_versions'', json_texts [mc]), (''loaders'', json_texts [loader])]
    \<and> (\<forall>net :: 'h net. \<forall>ua h. map_option snd (latest_version net ua slug mc loader h)
         = Some (snd (net \<lparr>rq_url = ''https://api.modrinth.com/v2/project/'' @ slug @ ''/version?'' @ q,
             rq_headers = [(''User-Agent'', ua)]\<rparr> h)))"
proof -
  let ?ps = "[(''game_versions'', json_texts [mc]), (''loaders'', json_texts [loader])]"
  let ?t = "''/v2/project/'' @ slug @ ''/version''"
  have "list_all path_safe ?t"
    using assms(1) by (auto simp: path_safe_def unreserved_def code_def list_all_iff)
  then have "request_url modrinth_host ?t ?ps = Some (''https://api.modrinth.com/v2/project/'' @ slug @ ''/version?'' @ values_encode ?ps)"
    by (subst request_url_safe) (simp_all add: modrinth_host_def)
  moreover have "sort_key fst ?ps = ?ps" by simp
  ultimately show ?thesis
    using parse_values_encode [of ?ps] assms(2,3)
    by (intro exI [of _ "values_encode ?ps"])
       (auto simp: latest_version_def modrinth_get_def split: prod.split sum.split list.split)
qed

lemma bad_slug_panics: "latest_version net ua ''%zz'' mc loader h = None"
  by (simp add: latest_version_def request_url_def url_parse_def cut_def hex_value_def code_def)

end
