(* ===== verification/ModLoader.thy ===== *)
theory ModLoader
  imports ModRepos FileSwap
begin

text \<open>
  daemon/internal/modproxy/loader.go: the Fabric installer. It asks for versions, downloads a jar
  into a temporary file beside its target and renames it into place.
\<close>

section \<open>Versions\<close>

record fabric_version =
  fv_version :: string
  fv_stable :: bool

definition fabric_fields :: "fabric_version fields" where
  "fabric_fields =
     [fld ''version'' dec_string fv_version fv_version_update,
      fld ''stable'' dec_bool fv_stable fv_stable_update]"

definition loader_get_json :: "'h net \<Rightarrow> string \<Rightarrow> (json \<Rightarrow> 'a result) \<Rightarrow> 'h \<Rightarrow> 'a result \<times> 'h" where
  "loader_get_json net url dec h =
     (case net \<lparr>rq_url = url, rq_headers = []\<rparr> h of
        (Inl e, h') \<Rightarrow> (Inl e, h')
      | (Inr r, h') \<Rightarrow> (answer (''get '' @ url @ '': '' @ rs_status r) dec r, h'))"

text \<open>The first stable version, else the first.\<close>

definition pick_version :: "string \<Rightarrow> fabric_version list \<Rightarrow> string result" where
  "pick_version what vs =
     (case find fv_stable vs of
        Some v \<Rightarrow> Inr (fv_version v)
      | None \<Rightarrow> (case vs of v # _ \<Rightarrow> Inr (fv_version v) | [] \<Rightarrow> Inl (Errorf (''no fabric '' @ what @ '' versions''))))"

definition fabric_latest :: "'h net \<Rightarrow> string \<Rightarrow> 'h \<Rightarrow> string result \<times> 'h" where
  "fabric_latest net what h =
     (case loader_get_json net (''https://meta.fabricmc.net/v2/versions/'' @ what)
          (\<lambda>j. dec_list (dec_struct fabric_fields) \<lparr>fv_version = [], fv_stable = False\<rparr> j []) h of
        (Inl e, h') \<Rightarrow> (Inl e, h')
      | (Inr vs, h') \<Rightarrow> (pick_version what vs, h'))"

definition fabric_latest_loader :: "'h net \<Rightarrow> 'h \<Rightarrow> string result \<times> 'h" where
  "fabric_latest_loader net = fabric_latest net ''loader''"

definition fabric_latest_installer :: "'h net \<Rightarrow> 'h \<Rightarrow> string result \<times> 'h" where
  "fabric_latest_installer net = fabric_latest net ''installer''"

section \<open>Downloads\<close>

definition body_bytes :: "http_response \<Rightarrow> u8 list result" where
  "body_bytes r = (case rs_read_err r of None \<Rightarrow> Inr (bytes_of (rs_body r)) | Some e \<Rightarrow> Inl e)"

text \<open>From \<open>os.Create\<close> to \<open>os.Rename\<close>.\<close>

definition store_part :: "'h os_ops \<Rightarrow> string \<Rightarrow> u8 list result \<Rightarrow> 'h \<Rightarrow> err \<times> 'h" where
  "store_part os dst content h =
     (let tmp = dst @ ''.part'' in
      case os_create os tmp h of
        (Inl e, h1) \<Rightarrow> (Some e, h1)
      | (Inr k, h1) \<Rightarrow>
          (case os_copy os k content h1 of
             (Some e, h2) \<Rightarrow> (Some e, snd (os_remove os tmp (snd (os_close os k h2))))
           | (None, h2) \<Rightarrow>
               (case os_close os k h2 of
                  (Some e, h3) \<Rightarrow> (Some e, h3)
                | (None, h3) \<Rightarrow> os_rename os tmp dst h3)))"

definition download_to :: "'h os_ops \<Rightarrow> 'h net \<Rightarrow> string \<Rightarrow> string \<Rightarrow> 'h \<Rightarrow> err \<times> 'h" where
  "download_to os net url dst h =
     (case os_mkdir_all os (path_dir dst) h of
        (Some e, h1) \<Rightarrow> (Some e, h1)
      | (None, h1) \<Rightarrow>
          (case net \<lparr>rq_url = url, rq_headers = []\<rparr> h1 of
             (Inl e, h2) \<Rightarrow> (Some e, h2)
           | (Inr r, h2) \<Rightarrow>
               (if rs_code r div 100 \<noteq> 2 then (Some (Errorf (''download '' @ url @ '': '' @ rs_status r)), h2)
                else store_part os dst (body_bytes r) h2)))"

definition launch_jar :: "string \<Rightarrow> string" where
  "launch_jar mod_dir = path_join [mod_dir, ''fabric-server-launch.jar'']"

definition install_fabric ::
  "'h os_ops \<Rightarrow> 'h net \<Rightarrow> string \<Rightarrow> string \<Rightarrow> string \<Rightarrow> string \<Rightarrow> 'h \<Rightarrow> err \<times> 'h" where
  "install_fabric os net mod_dir mc_version loader_version installer_version h =
     (case (if loader_version = [] then fabric_latest_loader net h else (Inr loader_version, h)) of
        (Inl e, h1) \<Rightarrow> (Some e, h1)
      | (Inr lv, h1) \<Rightarrow>
          (case (if installer_version = [] then fabric_latest_installer net h1 else (Inr installer_version, h1)) of
             (Inl e, h2) \<Rightarrow> (Some e, h2)
           | (Inr iv, h2) \<Rightarrow>
               download_to os net (''https://meta.fabricmc.net/v2/versions/loader/'' @ mc_version @ ''/'' @ lv @ ''/''
                 @ iv @ ''/server/jar'') (launch_jar mod_dir) h2))"

section \<open>Metadata\<close>

text \<open>\<open>json.MarshalIndent\<close> of the document, whose keys it sorts.\<close>

definition fabric_mod_json :: "string \<Rightarrow> string \<Rightarrow> string \<Rightarrow> string" where
  "fabric_mod_json mod_id version mc_version =
     join [CHR 10]
       [''{'',
        ''  '' @ json_quote ''depends'' @ '': {'',
        ''    '' @ json_quote ''fabricloader'' @ '': '' @ json_quote ''*'' @ '','',
        ''    '' @ json_quote ''minecraft'' @ '': '' @ json_quote (CHR ''~'' # mc_version),
        ''  },'',
        ''  '' @ json_quote ''environment'' @ '': '' @ json_quote ''server'' @ '','',
        ''  '' @ json_quote ''id'' @ '': '' @ json_quote mod_id @ '','',
        ''  '' @ json_quote ''name'' @ '': '' @ json_quote mod_id @ '','',
        ''  '' @ json_quote ''schemaVersion'' @ '': 1,'',
        ''  '' @ json_quote ''version'' @ '': '' @ json_quote version,
        ''}'']"

definition ensure_fabric_mod_json :: "'h os_ops \<Rightarrow> string \<Rightarrow> string \<Rightarrow> string \<Rightarrow> string \<Rightarrow> 'h \<Rightarrow> err \<times> 'h" where
  "ensure_fabric_mod_json os mod_dir mod_id version mc_version h =
     (let path = path_join [mod_dir, ''fabric.mod.json''] in
      case os_stat os path h of
        (Inr _, h1) \<Rightarrow> (None, h1)
      | (Inl _, h1) \<Rightarrow> os_write_file os path (fabric_mod_json mod_id version mc_version) h1)"

section \<open>A download is all or nothing\<close>

lemma store_part_swap:
  assumes fl: "file_laws os file" and hl: "handle_laws os file pos"
    and d: "store_part os dst content h = (e, h')"
  shows "(\<forall>q. q \<noteq> dst \<longrightarrow> q \<noteq> dst @ ''.part'' \<longrightarrow> file h' q = file h q)
    \<and> (case e of
        Some _ \<Rightarrow> file h' dst = file h dst
      | None \<Rightarrow> \<exists>bs. content = Inr bs \<and> file h' dst = Some (string_of bs) \<and> file h' (dst @ ''.part'') = None)"
proof -
  let ?tmp = "dst @ ''.part''"
  note d' = d [unfolded store_part_def Let_def]
  obtain c h1 where c: "os_create os ?tmp h = (c, h1)" by fastforce
  show ?thesis
  proof (cases c)
    case (Inl y)
    with d' c handle_create(2) [OF hl c [unfolded Inl]] show ?thesis by auto
  next
    case (Inr k)
    from handle_create(1) [OF hl c [unfolded Inr]] have pos: "pos h1 k = Some ?tmp"
      and f1: "file h1 = (file h)(?tmp \<mapsto> [])" by auto
    obtain e2 h2 where cp: "os_copy os k content h1 = (e2, h2)" by fastforce
    obtain e3 h3 where cl: "os_close os k h2 = (e3, h3)" by fastforce
    have f3: "file h3 = file h2" by (rule handle_close [OF hl cl])
    show ?thesis
    proof (cases e2)
      case (Some y)
      with d' c Inr cp cl have h': "h' = snd (os_remove os ?tmp h3)" "e = Some y" by auto
      have "file h' q = file h q" if "q \<noteq> ?tmp" for q
        using that file_quiet(1) [OF fl that, of h3] handle_copy(2) [OF hl pos cp [unfolded Some] that]
        by (simp add: h' f3 f1)
      then show ?thesis using h' by simp
    next
      case None
      from handle_copy(1) [OF hl pos cp [unfolded None]] obtain bs where
        bs: "content = Inr bs" "file h3 = (file h)(?tmp \<mapsto> string_of bs)" by (auto simp: f3 f1)
      from d' c Inr cp cl None have rest: "(case e3 of Some x \<Rightarrow> (Some x, h3) | None \<Rightarrow> os_rename os ?tmp dst h3) = (e, h')"
        by (auto split: option.splits)
      show ?thesis
      proof (cases e3)
        case (Some y)
        with rest bs show ?thesis by auto
      next
        case None
        with rest have rn: "os_rename os ?tmp dst h3 = (e, h')" by simp
        show ?thesis
        proof (cases e)
          case (Some y)
          with file_rename(2) [OF fl rn [unfolded Some]] bs show ?thesis by auto
        next
          case None
          with file_rename(1) [OF fl rn [unfolded None]] bs show ?thesis by auto
        qed
      qed
    qed
  qed
qed

lemma download_swap:
  assumes "file_laws os file" and "handle_laws os file pos" and nq: "\<And>r h. file (snd (net r h)) = file h"
    and d: "download_to os net url dst h = (e, h')"
  shows "(\<forall>q. q \<noteq> dst \<longrightarrow> q \<noteq> dst @ ''.part'' \<longrightarrow> file h' q = file h q)
    \<and> (case e of
        Some _ \<Rightarrow> file h' dst = file h dst
      | None \<Rightarrow> \<exists>h1 r. fst (net \<lparr>rq_url = url, rq_headers = []\<rparr> h1) = Inr r \<and> rs_code r div 100 = 2
          \<and> rs_read_err r = None \<and> file h' dst = Some (rs_body r) \<and> file h' (dst @ ''.part'') = None)"
proof -
  obtain e1 h1 where m: "os_mkdir_all os (path_dir dst) h = (e1, h1)" by fastforce
  obtain x h2 where n: "net \<lparr>rq_url = url, rq_headers = []\<rparr> h1 = (x, h2)" by fastforce
  have f: "file h1 = file h" "file h2 = file h"
    using file_quiet(4) [OF assms(1) m] nq [of "\<lparr>rq_url = url, rq_headers = []\<rparr>" h1] n by simp_all
  show ?thesis
  proof (cases "e1 = None \<and> (\<exists>r. x = Inr r \<and> rs_code r div 100 = 2)")
    case False
    with d m n f show ?thesis by (auto simp: download_to_def split: option.splits sum.splits if_splits)
  next
    case True
    then obtain r where r: "e1 = None" "x = Inr r" "rs_code r div 100 = 2" by blast
    with d m n have "store_part os dst (body_bytes r) h2 = (e, h')" by (simp add: download_to_def)
    note sw = store_part_swap [OF assms(1,2) this]
    show ?thesis
    proof (cases e)
      case (Some y)
      with sw f show ?thesis by simp
    next
      case None
      with sw obtain bs where bs: "body_bytes r = Inr bs" "file h' dst = Some (string_of bs)" "file h' (dst @ ''.part'') = None" by auto
      then have "rs_read_err r = None" "string_of bs = rs_body r"
        by (auto simp: body_bytes_def split: option.splits)
      moreover have "fst (net \<lparr>rq_url = url, rq_headers = []\<rparr> h1) = Inr r" using n r by simp
      ultimately show ?thesis using sw bs r(3) f None by auto
    qed
  qed
qed

text \<open>C32. An installation is all or nothing: whatever of it fails, the launcher keeps its old content and no
  file but the temporary one beside it is touched; when it succeeds the launcher is the whole body
  of a 2xx answer to the request for that Minecraft version, which could be read to its end, and the
  temporary file is gone.\<close>

theorem install_all_or_nothing:
  assumes "file_laws os file" and "handle_laws os file pos" and "\<And>r h. file (snd (net r h)) = file h"
    and "install_fabric os net mod_dir mc lv iv h = (e, h')"
  shows "(\<forall>q. q \<noteq> launch_jar mod_dir \<longrightarrow> q \<noteq> launch_jar mod_dir @ ''.part'' \<longrightarrow> file h' q = file h q)
    \<and> (case e of
        Some _ \<Rightarrow> file h' (launch_jar mod_dir) = file h (launch_jar mod_dir)
      | None \<Rightarrow> \<exists>h1 r rest. fst (net \<lparr>rq_url = ''https://meta.fabricmc.net/v2/versions/loader/'' @ mc @ ''/'' @ rest, rq_headers = []\<rparr> h1) = Inr r
          \<and> rs_code r div 100 = 2 \<and> rs_read_err r = None
          \<and> file h' (launch_jar mod_dir) = Some (rs_body r) \<and> file h' (launch_jar mod_dir @ ''.part'') = None)"
proof -
  have q: "fabric_latest net what g = (x, g') \<Longrightarrow> file g' = file g" for what g x g'
    using assms(3) [of "\<lparr>rq_url = ''https://meta.fabricmc.net/v2/versions/'' @ what, rq_headers = []\<rparr>" g]
    by (auto simp: fabric_latest_def loader_get_json_def split: prod.splits sum.splits)
  obtain r1 h1 where l: "(if lv = [] then fabric_latest_loader net h else (Inr lv, h)) = (r1, h1)" by fastforce
  have f1: "file h1 = file h" using l q by (auto simp: fabric_latest_loader_def split: if_splits)
  obtain r2 h2 where i: "(if iv = [] then fabric_latest_installer net h1 else (Inr iv, h1)) = (r2, h2)" by fastforce
  have f2: "file h2 = file h" using i q f1 by (auto simp: fabric_latest_installer_def split: if_splits)
  note in_def = assms(4) [unfolded install_fabric_def l]
  show ?thesis
  proof (cases "\<exists>a b. r1 = Inr a \<and> r2 = Inr b")
    case False
    with in_def i f1 f2 show ?thesis by (auto split: sum.splits)
  next
    case True
    then obtain a b where "r1 = Inr a" "r2 = Inr b" by blast
    with in_def i have d: "download_to os net (''https://meta.fabricmc.net/v2/versions/loader/'' @ mc @ ''/''
        @ (a @ ''/'' @ b @ ''/server/jar'')) (launch_jar mod_dir) h2 = (e, h')" by simp
    show ?thesis
    proof (cases e)
      case None
      with download_swap [OF assms(1,2,3) d] f2 show ?thesis
        by (auto simp del: append_assoc intro: exI [of _ "a @ ''/'' @ b @ ''/server/jar''"])
    next
      case (Some y)
      with download_swap [OF assms(1,2,3) d] f2 show ?thesis by simp
    qed
  qed
qed

theorem install_all_or_nothing_witness:
  "(let h' = snd (install_fabric disk_os
      (\<lambda>r h. (Inr \<lparr>rs_code = 200, rs_status = ''200 OK'', rs_body = ''PK'', rs_read_err = Some ErrUnexpectedEOF, rs_json = None\<rparr>, h))
      ''/mods'' ''1.20'' ''0.15'' ''1.0'' ((\<lambda>_. Some ''old''), [])) in
    fst h' (launch_jar ''/mods'') = Some ''old'' \<and> fst h' ''/mods/a.jar'' = Some ''old'')"
proof -
  let ?net = "\<lambda>r h. (Inr \<lparr>rs_code = 200, rs_status = ''200 OK'', rs_body = ''PK'', rs_read_err = Some ErrUnexpectedEOF, rs_json = None\<rparr>, h)
    :: http_response result \<times> disk"
  let ?in = "install_fabric disk_os ?net ''/mods'' ''1.20'' ''0.15'' ''1.0'' ((\<lambda>_. Some ''old''), [])"
  have jar: "launch_jar ''/mods'' = ''/mods/fabric-server-launch.jar''" by code_simp
  have e: "fst ?in \<noteq> None"
    by (simp add: install_fabric_def download_to_def store_part_def body_bytes_def disk_os_def Let_def)
  obtain x h' where x: "?in = (x, h')" by (rule prod.exhaust)
  from e x obtain y where y: "x = Some y" by (cases x) auto
  have net: "fst (snd (?net r h)) = fst h" for r h by simp
  note t = install_all_or_nothing [OF disk_os_laws net x]
  have "fst h' (launch_jar ''/mods'') = Some ''old''" using t [THEN conjunct2] unfolding y by simp
  moreover have "fst h' ''/mods/a.jar'' = Some ''old''"
    using t [THEN conjunct1, THEN spec, of "''/mods/a.jar''"] by (simp add: jar)
  ultimately show ?thesis unfolding Let_def x by simp
qed

end
