(* ===== verification/Panel.thy ===== *)
theory Panel
  imports Auth ClusterLaws
begin

text \<open>
  panel/internal/handlers and the flags of panel/cmd/aether-panel: the web panel. It serves the front end and passes requests for the API on
  to the daemon with the session's token. A request comes with its Cookie header; what is passed
  on is the request the daemon gets.
\<close>

section \<open>Cookies\<close>

text \<open>\<open>net/http\<close>: the bytes a cookie value may have, \<open>SetCookie\<close>'s cleaning of a value, and \<open>Request.Cookie\<close>.\<close>

definition cookie_byte :: "char \<Rightarrow> bool" where
  "cookie_byte c \<longleftrightarrow> 32 \<le> code c \<and> code c < 127 \<and> code c \<noteq> 34 \<and> c \<noteq> CHR '';'' \<and> code c \<noteq> 92"

definition sanitize_cookie :: "string \<Rightarrow> string" where
  "sanitize_cookie v =
     (let w = filter cookie_byte v in
      if CHR '' '' \<in> set w \<or> CHR '','' \<in> set w then CHR 34 # w @ [CHR 34] else w)"

definition parse_cookie_value :: "string \<Rightarrow> string option" where
  "parse_cookie_value v =
     (let w = (if length v > 1 \<and> hd v = CHR 34 \<and> last v = CHR 34 then butlast (tl v) else v) in
      if list_all cookie_byte w then Some w else None)"

definition cut_at :: "char \<Rightarrow> string \<Rightarrow> string \<times> string" where
  "cut_at c s = (case index_byte s c of None \<Rightarrow> (s, []) | Some i \<Rightarrow> (take i s, drop (Suc i) s))"

definition cookie_part :: "string \<Rightarrow> string \<Rightarrow> string option" where
  "cookie_part name part =
     (let (k, v) = cut_at CHR ''='' (trim_space part) in
      if trim_space k = name then parse_cookie_value v else None)"

definition request_cookie :: "string \<Rightarrow> string \<Rightarrow> string option" where
  "request_cookie name header =
     (case List.map_filter (cookie_part name) (split CHR '';'' header) of [] \<Rightarrow> None | v # _ \<Rightarrow> Some v)"

section \<open>Handlers\<close>

record panel_options =
  po_daemon_base_url :: string
  po_static_dir :: string

text \<open>The flags of panel/cmd/aether-panel/main.go with their defaults.\<close>

definition panel_listen :: string where
  "panel_listen = ''0.0.0.0:8080''"

definition panel_flags :: panel_options where
  "panel_flags = \<lparr>po_daemon_base_url = ''http://127.0.0.1:8080'', po_static_dir = ''./web''\<rparr>"

record panel_request =
  pq_cookies :: string
  pq_tls :: bool
  pq_request :: http_request

datatype panel_reply =
    Proxied string http_request
  | PanelError nat string
  | PanelBadBody go_error
  | SetSession string bool
  | EndSession
  | Plain nat
  | ServeFile string
  | FileServer string
  | PanelRedirect string

text \<open>\<open>Proxied base r\<close> is what the reverse proxy to \<open>base\<close> answers to \<open>r\<close>.\<close>

definition with_session :: "(http_request \<Rightarrow> panel_reply) \<Rightarrow> panel_request \<Rightarrow> panel_reply" where
  "with_session next_h r =
     next_h (case request_cookie ''aether_session'' (pq_cookies r) of
       Some v \<Rightarrow> if v \<noteq> [] then (pq_request r)\<lparr>hr_authz := ''Bearer '' @ v\<rparr> else pq_request r
     | None \<Rightarrow> pq_request r)"

record login_body =
  lb_username :: string
  lb_password :: string
  lb_token :: string

definition login_fields :: "login_body fields" where
  "login_fields =
     [fld ''username'' dec_string lb_username lb_username_update,
      fld ''password'' dec_string lb_password lb_password_update,
      fld ''token'' dec_string lb_token lb_token_update]"

definition login_handler :: "panel_request \<Rightarrow> panel_reply" where
  "login_handler r =
     (case decode_body login_fields \<lparr>lb_username = [], lb_password = [], lb_token = []\<rparr> (pq_request r) of
        Inl e \<Rightarrow> PanelBadBody e
      | Inr body \<Rightarrow>
          if lb_token body = [] then PanelError 501 ''username/password login not yet wired''
          else SetSession (sanitize_cookie (lb_token body)) (pq_tls r))"

definition logout_handler :: "panel_request \<Rightarrow> panel_reply" where
  "logout_handler r = EndSession"

definition websocket_bridge :: "panel_request \<Rightarrow> panel_reply" where
  "websocket_bridge r = PanelError 501 ''console websocket not yet implemented''"

definition exists_file :: "string \<Rightarrow> bool" where
  "exists_file path = False"

definition has_static_file :: "string \<Rightarrow> string \<Rightarrow> bool" where
  "has_static_file dir path =
     (if has_prefix path ''/api/'' \<or> has_prefix path ''/ws/'' then True else exists_file (dir @ path))"

text \<open>\<open>http.ServeFile\<close> refuses a path with two dots and redirects from \<open>index.html\<close>, whatever the file.\<close>

definition serve_file :: "string \<Rightarrow> string \<Rightarrow> panel_reply" where
  "serve_file path file =
     (if ''..'' \<in> set (concat (map (split CHR 92) (split CHR ''/'' path))) then PanelError 400 ''invalid URL path''
      else if has_prefix (rev path) (rev ''/index.html'') then PanelRedirect ''./''
      else ServeFile file)"

definition static_handler :: "panel_options \<Rightarrow> panel_request \<Rightarrow> panel_reply" where
  "static_handler o' r =
     (let path = hr_path (pq_request r) in
      if path = ''/'' \<or> \<not> has_static_file (po_static_dir o') path
      then serve_file path (po_static_dir o' @ ''/index.html'')
      else FileServer path)"

definition panel_routes :: "panel_options \<Rightarrow> (string \<times> (panel_request \<Rightarrow> panel_reply)) list" where
  "panel_routes o' =
     [(''/api/'', with_session (Proxied (po_daemon_base_url o'))), (''/auth/login'', login_handler), (''/auth/logout'', logout_handler),
      (''/healthz'', \<lambda>_. Plain 200), (''/ws/'', websocket_bridge), (''/'', static_handler o')]"

text \<open>The multiplexer, as in the daemon.\<close>

definition panel_serve :: "panel_options \<Rightarrow> panel_request \<Rightarrow> panel_reply option" where
  "panel_serve o' r =
     map_option (\<lambda>m.
       let p = hr_path (pq_request r) in
       if hr_method (pq_request r) \<noteq> ''CONNECT'' \<and> clean_path p \<noteq> p then PanelRedirect (clean_path p)
       else if p \<notin> fst ` set m \<and> (p = [] \<or> last p \<noteq> CHR ''/'') \<and> p @ ''/'' \<in> fst ` set m then PanelRedirect (p @ ''/'')
       else case best_match m p of None \<Rightarrow> PanelError 404 ''404 page not found'' | Some (_, h) \<Rightarrow> h r)
     (register_all (panel_routes o') [])"

section \<open>What the panel answers\<close>

lemma panel_mux: "register_all (panel_routes o') [] = Some (panel_routes o')"
  by (simp add: panel_routes_def)

text \<open>No file of the front end is ever served: every path that is not one of the other routes, the script
  and the style sheet included, is answered with \<open>index.html\<close>.\<close>

theorem only_index_served:
  assumes "clean_path p = p" and "''..'' \<notin> set (concat (map (split CHR 92) (split CHR ''/'' p)))"
    and "\<not> has_prefix p ''/api/''" and "\<not> has_prefix p ''/ws/''"
    and "p \<notin> {''/api'', ''/ws'', ''/auth/login'', ''/auth/logout'', ''/healthz''}"
    and "\<not> has_prefix (rev p) (rev ''/index.html'')"
    and "hr_path (pq_request r) = p"
  shows "panel_serve o' r = Some (ServeFile (po_static_dir o' @ ''/index.html''))"
proof -
  have ne: "p \<noteq> []" using assms(1) by (auto simp: clean_path_def)
  have sl: "has_prefix p ''/''"
  proof -
    let ?q = "if hd p = CHR ''/'' then p else CHR ''/'' # p"
    have "rooted ?q" using ne by (cases p) (auto simp: rooted_def)
    from path_clean_rooted [OF this] assms(1) ne show ?thesis
      by (auto simp: clean_path_def Let_def has_prefix_iff split: if_splits) (metis append_Cons)+
  qed
  have keys: "fst ` set (panel_routes o') = {''/api/'', ''/auth/login'', ''/auth/logout'', ''/healthz'', ''/ws/'', ''/''}"
    by (simp add: panel_routes_def)
  have slash: "p @ ''/'' \<notin> fst ` set (panel_routes o')"
  proof -
    have "''/api'' \<noteq> p" "''/ws'' \<noteq> p" "[] \<noteq> p" using assms(5) ne by blast+
    then have "p @ ''/'' \<noteq> ''/api/''" "p @ ''/'' \<noteq> ''/ws/''" "p @ ''/'' \<noteq> ''/''"
      "p @ ''/'' \<noteq> ''/auth/login''" "p @ ''/'' \<noteq> ''/auth/logout''" "p @ ''/'' \<noteq> ''/healthz''"
      unfolding snoc_eq_iff_butlast by simp_all
    then show ?thesis unfolding keys by blast
  qed
  have notin: "''/auth/login'' \<noteq> p" "''/auth/logout'' \<noteq> p" "''/healthz'' \<noteq> p" using assms(5) by blast+
  have napi: "''/api/'' \<noteq> p" "''/ws/'' \<noteq> p" using assms(3,4) has_prefix_refl by blast+
  have m: "pattern_matches ''/'' p" "\<not> pattern_matches ''/api/'' p" "\<not> pattern_matches ''/ws/'' p"
    "\<not> pattern_matches ''/auth/login'' p" "\<not> pattern_matches ''/auth/logout'' p" "\<not> pattern_matches ''/healthz'' p"
    using sl assms(3,4) notin napi unfolding pattern_matches_def by simp_all
  have "best_match (panel_routes o') p = Some (''/'', static_handler o')"
    by (simp add: panel_routes_def m)
  moreover have "\<not> has_static_file (po_static_dir o') p"
    by (simp add: has_static_file_def exists_file_def assms(3,4))
  ultimately show ?thesis
    unfolding panel_serve_def panel_mux assms(7) Let_def option.map
    using assms(1,2,6,7) slash by (simp add: static_handler_def serve_file_def)
qed

definition page_request :: "string \<Rightarrow> panel_request" where
  "page_request p = \<lparr>pq_cookies = [], pq_tls = False,
     pq_request = \<lparr>hr_method = ''GET'', hr_path = p, hr_authz = [], hr_query = \<lambda>_. [], hr_body = None\<rparr>\<rparr>"

theorem only_index_served_witness:
  "panel_serve panel_flags (page_request ''/app.js'') = Some (ServeFile ''./web/index.html'')"
proof -
  have "clean_path ''/app.js'' = ''/app.js''" by code_simp
  then show ?thesis
    using only_index_served [of "''/app.js''" "page_request ''/app.js''" "panel_flags"]
    by (simp add: page_request_def panel_flags_def)
qed

section \<open>Sessions\<close>

text \<open>A text of cookie bytes without blanks and commas survives the cookie.\<close>

definition cookie_text :: "string \<Rightarrow> bool" where
  "cookie_text s \<longleftrightarrow> s \<noteq> [] \<and> list_all (\<lambda>c. cookie_byte c \<and> c \<noteq> CHR '' '' \<and> c \<noteq> CHR '','') s"

lemma sanitize_text: "cookie_text s \<Longrightarrow> sanitize_cookie s = s"
  by (auto simp: cookie_text_def sanitize_cookie_def Let_def list_all_iff filter_id_conv)

lemma cookie_byte_plain: "cookie_byte c \<Longrightarrow> c \<noteq> CHR '' '' \<Longrightarrow> \<not> is_space c \<and> c \<noteq> CHR 34 \<and> c \<noteq> CHR '';''"
proof -
  assume "cookie_byte c" "c \<noteq> CHR '' ''"
  moreover have "code c = 32 \<Longrightarrow> CHR '' '' = c"
    using char_of_eq_iff [of "32 :: nat" c] char_of_eq_iff [of "32 :: nat" "CHR '' ''"] by (simp add: code_def)
  ultimately show ?thesis by (auto simp: cookie_byte_def is_space_def code_def)
qed

lemma trim_space_plain: "s \<noteq> [] \<Longrightarrow> \<not> is_space (hd s) \<Longrightarrow> \<not> is_space (last s) \<Longrightarrow> trim_space s = s"
proof -
  assume s: "s \<noteq> []" "\<not> is_space (hd s)" "\<not> is_space (last s)"
  have "dropWhile is_space s = s" using s(1,2) by (cases s) simp_all
  moreover have "dropWhile is_space (rev s) = rev s" using s(1,3) by (cases s rule: rev_cases) simp_all
  ultimately show ?thesis by (simp add: trim_space_def)
qed

lemma request_cookie_text:
  assumes "cookie_text s"
  shows "request_cookie ''aether_session'' (''aether_session='' @ s) = Some s"
proof -
  have p: "\<not> is_space c \<and> c \<noteq> CHR 34 \<and> c \<noteq> CHR '';'' \<and> cookie_byte c" if "c \<in> set s" for c
    using assms that cookie_byte_plain by (auto simp: cookie_text_def list_all_iff)
  have ne: "s \<noteq> []" using assms by (simp add: cookie_text_def)
  have "CHR '';'' \<notin> set (''aether_session='' @ s)" using p by auto
  then have sp: "split CHR '';'' (''aether_session='' @ s) = [''aether_session='' @ s]" by (rule split_no_sep)
  have t: "trim_space (''aether_session='' @ s) = ''aether_session='' @ s"
    using ne p [of "last s"] by (intro trim_space_plain) (simp_all add: is_space_def code_def)
  have "trim_space ''aether_session'' = ''aether_session''" by code_simp
  moreover have "parse_cookie_value s = Some s"
    using ne p [of "hd s"] p by (auto simp: parse_cookie_value_def list_all_iff)
  ultimately have "cookie_part ''aether_session'' (''aether_session='' @ s) = Some s"
    unfolding cookie_part_def t by (simp add: cut_at_def)
  then show ?thesis unfolding request_cookie_def sp by (simp add: map_filter_def)
qed

lemma hex_cookie: "list_all (\<lambda>c. cookie_byte c \<and> c \<noteq> CHR '' '' \<and> c \<noteq> CHR '','') (hex_encode bs)"
proof -
  have "cookie_byte (hex_digit n) \<and> hex_digit n \<noteq> CHR '' '' \<and> hex_digit n \<noteq> CHR '',''" if "n < 16" for n
    using hex_cases [OF that] by (auto simp: hex_digit_def cookie_byte_def code_def char_of_eq_iff)
  moreover have "unat (b :: u8) div 16 < 16" "unat b mod 16 < 16" for b :: u8
    using unsigned_less [of b, where ?'a = nat] by (simp_all add: div_less_iff_less_mult)
  ultimately show ?thesis by (auto simp: hex_encode_def list_all_iff)
qed

text \<open>C38. A token survives the session: whoever logs in with a token the daemon made gets a cookie, and every
  later request for the API that brings it back reaches the daemon with that token as bearer token
  and is otherwise unchanged.\<close>

theorem session_roundtrip:
  assumes "generate_secure_token E W = Some (raw, W')"
    and "decode_body login_fields \<lparr>lb_username = [], lb_password = [], lb_token = []\<rparr> (pq_request r) = Inr body"
    and "lb_token body = raw"
    and "pq_cookies r' = ''aether_session='' @ v" and "hr_path (pq_request r') = ''/api/'' @ rest" and "clean_path (''/api/'' @ rest) = ''/api/'' @ rest"
    and "login_handler r = SetSession v tls"
  shows "panel_serve o' r' = Some (Proxied (po_daemon_base_url o') ((pq_request r')\<lparr>hr_authz := ''Bearer '' @ raw\<rparr>))"
proof -
  obtain bs where raw: "raw = ''aether_'' @ hex_encode bs"
    using assms(1) by (auto simp: generate_secure_token_def andthen_def ret_def split: option.splits prod.splits)
  have ct: "cookie_text raw"
    unfolding raw cookie_text_def using hex_cookie [of bs] by (simp add: cookie_byte_def code_def)
  have ne: "raw \<noteq> []" by (simp add: raw)
  have v: "v = raw" using assms(2,3,7) ne sanitize_text [OF ct] by (simp add: login_handler_def)
  have ws: "with_session (Proxied (po_daemon_base_url o')) r' = Proxied (po_daemon_base_url o') ((pq_request r')\<lparr>hr_authz := ''Bearer '' @ raw\<rparr>)"
    using request_cookie_text [OF ct] ne by (simp add: with_session_def assms(4) v)
  have "best_match (panel_routes o') (''/api/'' @ rest) = Some (''/api/'', with_session (Proxied (po_daemon_base_url o')))"
    by (simp add: panel_routes_def pattern_matches_def)
  moreover have "\<not> (''/api/'' @ rest \<notin> fst ` set (panel_routes o') \<and> (''/api/'' @ rest = [] \<or> last (''/api/'' @ rest) \<noteq> CHR ''/'')
      \<and> (''/api/'' @ rest) @ ''/'' \<in> fst ` set (panel_routes o'))"
    by (auto simp: panel_routes_def)
  ultimately show ?thesis
    using assms(5,6) ws by (simp add: panel_serve_def panel_mux Let_def)
qed

definition login_request :: "string \<Rightarrow> panel_request" where
  "login_request raw = (page_request ''/auth/login'')\<lparr>pq_request := (pq_request (page_request ''/auth/login''))
     \<lparr>hr_body := Some (JObj [(''token'', JStr raw)])\<rparr>\<rparr>"

theorem session_roundtrip_witness:
  "\<exists>raw W'. generate_secure_token calm_env boot_world = Some (raw, W')
    \<and> panel_serve panel_flags ((page_request ''/api/v1/nodes'')\<lparr>pq_cookies := ''aether_session='' @ raw\<rparr>)
      = Some (Proxied ''http://127.0.0.1:8080'' ((pq_request (page_request ''/api/v1/nodes''))\<lparr>hr_authz := ''Bearer '' @ raw\<rparr>))"
proof -
  obtain raw W' where g: "generate_secure_token calm_env boot_world = Some (raw, W')"
    by (simp add: generate_secure_token_def rand_read_def andthen_def ret_def)
  then obtain bs where bs: "raw = ''aether_'' @ hex_encode bs"
    by (auto simp: generate_secure_token_def andthen_def ret_def split: option.splits prod.splits)
  have ct: "cookie_text raw"
    unfolding bs cookie_text_def using hex_cookie [of bs] by (simp add: cookie_byte_def code_def)
  let ?b = "\<lparr>lb_username = [], lb_password = [], lb_token = raw\<rparr>"
  have d: "decode_body login_fields \<lparr>lb_username = [], lb_password = [], lb_token = []\<rparr> (pq_request (login_request raw)) = Inr ?b"
    by (simp add: decode_body_def login_request_def login_fields_def fld_def to_lower_def lower_char_def code_def)
  have l: "login_handler (login_request raw) = SetSession raw False"
    using sanitize_text [OF ct] bs unfolding login_handler_def d
    by (simp add: login_request_def page_request_def)
  have c: "clean_path (''/api/'' @ ''v1/nodes'') = ''/api/'' @ ''v1/nodes''" by code_simp
  show ?thesis
    using session_roundtrip [OF g d _ _ _ c l, of "(page_request ''/api/v1/nodes'')\<lparr>pq_cookies := ''aether_session='' @ raw\<rparr>" panel_flags] g
    by (simp add: page_request_def panel_flags_def)
qed

end

