(* ===== verification/Provisioner.thy ===== *)
theory Provisioner
  imports Sql
begin

text \<open>
  daemon/internal/database/provisioner.go: databases and their users in MariaDB. The connection
  is a function that executes a statement; the random source is its answer.
\<close>

section \<open>The code\<close>

definition ident_char :: "char \<Rightarrow> bool" where
  "ident_char c \<longleftrightarrow> (let n = code c in
     (97 \<le> n \<and> n \<le> 122) \<or> (65 \<le> n \<and> n \<le> 90) \<or> (48 \<le> n \<and> n \<le> 57) \<or> n = 95)"

text \<open>The runes of a string that is not ASCII are no identifier characters, nor are its bytes.\<close>

definition is_valid_ident :: "string \<Rightarrow> bool" where
  "is_valid_ident s \<longleftrightarrow> \<not> (length s = 0 \<or> length s > 64) \<and> list_all ident_char s"

definition generate_password :: "nat \<Rightarrow> u8 list result \<Rightarrow> string result" where
  "generate_password n rand = rbind rand (\<lambda>b. Inr (take n (hex_encode b)))"

definition tick_quoted :: "string \<Rightarrow> string" where
  "tick_quoted s = [tick] @ s @ [tick]"

definition text_quoted :: "string \<Rightarrow> string" where
  "text_quoted s = [squote] @ s @ [squote]"

definition create_queries :: "string \<Rightarrow> string \<Rightarrow> string \<Rightarrow> string list" where
  "create_queries db_name username password =
     [''CREATE DATABASE IF NOT EXISTS '' @ tick_quoted db_name @ '' CHARACTER SET utf8mb4 COLLATE utf8mb4_unicode_ci'',
      ''CREATE USER IF NOT EXISTS '' @ text_quoted username @ ''@'' @ text_quoted ''%''
        @ '' IDENTIFIED BY '' @ text_quoted password,
      ''GRANT ALL PRIVILEGES ON '' @ tick_quoted db_name @ ''.* TO '' @ text_quoted username @ ''@'' @ text_quoted ''%'',
      ''FLUSH PRIVILEGES'']"

definition drop_queries :: "string \<Rightarrow> string \<Rightarrow> string list" where
  "drop_queries db_name username =
     [''DROP DATABASE IF EXISTS '' @ tick_quoted db_name,
      ''DROP USER IF EXISTS '' @ text_quoted username @ ''@'' @ text_quoted ''%'',
      ''FLUSH PRIVILEGES'']"

type_synonym 'd exec = "string \<Rightarrow> 'd \<Rightarrow> err \<times> 'd"

text \<open>The loop over the statements: the first failure ends it.\<close>

fun exec_all :: "'d exec \<Rightarrow> string \<Rightarrow> string list \<Rightarrow> 'd \<Rightarrow> err \<times> 'd" where
  "exec_all exec what [] d = (None, d)"
| "exec_all exec what (q # qs) d =
     (case exec q d of
        (Some e, d') \<Rightarrow> (Some (ErrWrap (what @ go_quote q @ '': '') e []), d')
      | (None, d') \<Rightarrow> exec_all exec what qs d')"

record provision_result =
  pr_database_name :: string
  pr_username :: string
  pr_password :: string

definition provision_create ::
  "'d exec \<Rightarrow> u8 list result \<Rightarrow> string \<Rightarrow> string \<Rightarrow> 'd \<Rightarrow> provision_result result \<times> 'd" where
  "provision_create exec rand db_name username d =
     (if \<not> is_valid_ident db_name \<or> \<not> is_valid_ident username
      then (Inl (Errorf ''provisioner: invalid database or username (alphanum + underscore only, max 64 chars)''), d)
      else case generate_password 24 rand of
             Inl e \<Rightarrow> (Inl (ErrWrap ''provisioner: generate password: '' e []), d)
           | Inr password \<Rightarrow>
               (case exec_all exec ''provisioner: '' (create_queries db_name username password) d of
                  (Some e, d') \<Rightarrow> (Inl e, d')
                | (None, d') \<Rightarrow> (Inr \<lparr>pr_database_name = db_name, pr_username = username, pr_password = password\<rparr>, d')))"

definition provision_drop :: "'d exec \<Rightarrow> string \<Rightarrow> string \<Rightarrow> 'd \<Rightarrow> err \<times> 'd" where
  "provision_drop exec db_name username d =
     (if \<not> is_valid_ident db_name \<or> \<not> is_valid_ident username
      then (Some (Errorf ''provisioner: invalid identifier''), d)
      else exec_all exec ''provisioner drop '' (drop_queries db_name username) d)"

text \<open>\<open>SizeBytes\<close> of what the row scans to: an error, SQL's NULL (\<open>None\<close>) or a signed number.\<close>

definition size_bytes :: "int option result \<Rightarrow> u64 result" where
  "size_bytes scanned = rbind scanned (\<lambda>n. Inr (case n of None \<Rightarrow> 0 | Some i \<Rightarrow> word_of_int i))"

text \<open>\<open>NewProvisioner\<close>: the errors of opening and of the first ping.\<close>

definition new_provisioner :: "err \<Rightarrow> err \<Rightarrow> unit result" where
  "new_provisioner open_err ping_err =
     (case open_err of
        Some e \<Rightarrow> Inl (ErrWrap ''provisioner: open: '' e [])
      | None \<Rightarrow> (case ping_err of Some e \<Rightarrow> Inl (ErrWrap ''provisioner: ping: '' e []) | None \<Rightarrow> Inr ()))"

section \<open>The statements say what they mean\<close>

lemma ident_word: "list_all ident_char s \<Longrightarrow> list_all word_char s"
  by (auto simp: list_all_iff ident_char_def word_char_def Let_def)

lemma valid_word: "is_valid_ident s \<Longrightarrow> list_all word_char s"
  by (simp add: is_valid_ident_def ident_word)

lemma hex_word: "list_all word_char (hex_encode b)"
proof -
  have "word_char (hex_digit (unat x div 16))" "word_char (hex_digit (unat x mod 16))" for x :: u8
  proof -
    have d: "word_char (hex_digit n)" if "n < 16" for n
      using that by (auto simp: word_char_def hex_digit_def code_def Let_def take_bit_eq_mod)
    show "word_char (hex_digit (unat x div 16))" "word_char (hex_digit (unat x mod 16))"
      using unsigned_less [of x, where 'a = nat] by (intro d; simp)+
  qed
  then show ?thesis by (simp add: hex_encode_def list_all_iff)
qed

lemma password_word: "generate_password n rand = Inr pw \<Longrightarrow> list_all word_char pw"
  using hex_word by (auto simp: generate_password_def rbind_eq_Inr list_all_iff dest: in_set_takeD)

definition create_tokens :: "string \<Rightarrow> string \<Rightarrow> string \<Rightarrow> sql_token list list" where
  "create_tokens db user pw =
     [[Word ''CREATE'', Word ''DATABASE'', Word ''IF'', Word ''NOT'', Word ''EXISTS'', Quoted db,
       Word ''CHARACTER'', Word ''SET'', Word ''utf8mb4'', Word ''COLLATE'', Word ''utf8mb4_unicode_ci''],
      [Word ''CREATE'', Word ''USER'', Word ''IF'', Word ''NOT'', Word ''EXISTS'', Text user, Sym CHR ''@'', Text ''%'',
       Word ''IDENTIFIED'', Word ''BY'', Text pw],
      [Word ''GRANT'', Word ''ALL'', Word ''PRIVILEGES'', Word ''ON'', Quoted db, Sym CHR ''.'', Sym CHR ''*'',
       Word ''TO'', Text user, Sym CHR ''@'', Text ''%''],
      [Word ''FLUSH'', Word ''PRIVILEGES'']]"

definition drop_tokens :: "string \<Rightarrow> string \<Rightarrow> sql_token list list" where
  "drop_tokens db user =
     [[Word ''DROP'', Word ''DATABASE'', Word ''IF'', Word ''EXISTS'', Quoted db],
      [Word ''DROP'', Word ''USER'', Word ''IF'', Word ''EXISTS'', Text user, Sym CHR ''@'', Text ''%''],
      [Word ''FLUSH'', Word ''PRIVILEGES'']]"

lemmas lex_lits = sql_lex_def tick_quoted_def text_quoted_def lex_eval backslash_def

lemma lex_create:
  assumes "list_all word_char db" and "list_all word_char user" and "list_all word_char pw"
  shows "map sql_lex (create_queries db user pw) = create_tokens db user pw"
proof -
  note l = lex_tick [OF assms(1), unfolded tick_def] lex_text [OF assms(2), unfolded squote_def]
    lex_text [OF assms(3), unfolded squote_def]
  show ?thesis
    by (simp add: create_queries_def create_tokens_def lex_lits l)
qed

lemma lex_drop:
  assumes "list_all word_char db" and "list_all word_char user"
  shows "map sql_lex (drop_queries db user) = drop_tokens db user"
proof -
  note l = lex_tick [OF assms(1), unfolded tick_def] lex_text [OF assms(2), unfolded squote_def]
  show ?thesis
    by (simp add: drop_queries_def drop_tokens_def lex_lits l)
qed

text \<open>What a connection was asked to do, up to the first statement that failed.\<close>

fun runs :: "'d exec \<Rightarrow> string list \<Rightarrow> 'd \<Rightarrow> string list" where
  "runs exec [] d = []"
| "runs exec (q # qs) d = q # (case exec q d of (None, d') \<Rightarrow> runs exec qs d' | _ \<Rightarrow> [])"

lemma exec_all_prefix:
  "exec_all exec what qs d = (e, d') \<Longrightarrow> \<exists>n. runs exec qs d = take n qs \<and> (e = None \<longrightarrow> runs exec qs d = qs)"
proof (induction qs arbitrary: d)
  case Nil
  then show ?case by simp
next
  case (Cons q qs)
  obtain x d1 where x: "exec q d = (x, d1)" by fastforce
  show ?case
  proof (cases x)
    case None
    with Cons.prems x have "exec_all exec what qs d1 = (e, d')" by simp
    from Cons.IH [OF this] obtain n where "runs exec qs d1 = take n qs \<and> (e = None \<longrightarrow> runs exec qs d1 = qs)"
      by (elim exE)
    then have "runs exec qs d1 = take n qs" and "e = None \<longrightarrow> runs exec qs d1 = qs" by blast+
    moreover from this have "runs exec (q # qs) d = take (Suc n) (q # qs)" using x None by simp
    ultimately show ?thesis using x None by (intro exI [of _ "Suc n"] conjI impI) (simp_all only: runs.simps prod.case option.case)
  next
    case (Some a)
    with x Cons.prems show ?thesis by (intro exI [of _ 1]) auto
  qed
qed

lemma runs_tokens:
  assumes "exec_all exec what qs d = (e, d')" and "map sql_lex qs = ts"
  shows "\<exists>n. map sql_lex (runs exec qs d) = take n ts \<and> (e = None \<longrightarrow> map sql_lex (runs exec qs d) = ts)"
proof -
  from exec_all_prefix [OF assms(1)] obtain n
    where n: "runs exec qs d = take n qs \<and> (e = None \<longrightarrow> runs exec qs d = qs)" by (elim exE)
  with assms(2) show ?thesis by (intro exI [of _ n]) (auto simp: take_map)
qed



theorem drop_statements:
  assumes "provision_drop exec db user d = (e, d')"
  shows "if is_valid_ident db \<and> is_valid_ident user
    then \<exists>n. map sql_lex (runs exec (drop_queries db user) d) = take n (drop_tokens db user)
      \<and> (e = None \<longrightarrow> map sql_lex (runs exec (drop_queries db user) d) = drop_tokens db user)
    else e \<noteq> None \<and> d' = d"
proof (cases "is_valid_ident db \<and> is_valid_ident user")
  case False
  with assms show ?thesis by (auto simp: provision_drop_def)
next
  case True
  have toks: "map sql_lex (drop_queries db user) = drop_tokens db user"
    using True by (intro lex_drop valid_word) simp_all
  have "exec_all exec ''provisioner drop '' (drop_queries db user) d = (e, d')"
    using True assms by (simp add: provision_drop_def)
  from runs_tokens [OF this toks] True show ?thesis by simp
qed

end
