(* ===== verification/ProxyStream.thy ===== *)
theory ProxyStream
  imports FsmLog
begin

text \<open>
  daemon/internal/api/grpc.go, \<open>proxyGRPC.Subscribe\<close>: a proxy (Velocity, Bungee) is told of the
  ready servers once and then of every event of the state machine that it can use. The stream
  is a state machine beside the replicated one: entries are committed while it reads the list
  of servers and while it takes events from its channel. What a proxy believes is the last
  event it got of each server.
\<close>

section \<open>The code\<close>

datatype server_event_type = EvStarting | EvReady | EvStopping | EvStopped | EvCrashed

record server_event =
  px_server_id :: string
  px_server_name :: string
  px_host_ip :: string
  px_host_port :: u32
  px_group_id :: string
  px_event_type :: server_event_type
  px_timestamp :: int
  px_max_players :: u32
  px_current_players :: u32

definition event_type :: "server_state \<Rightarrow> server_event_type option" where
  "event_type s =
     (if s = ServerStarting then Some EvStarting
      else if s = ServerReady then Some EvReady
      else if s = ServerStopping then Some EvStopping
      else if s = ServerStopped then Some EvStopped
      else if s = ServerCrashed then Some EvCrashed
      else None)"

definition server_event_of :: "server \<Rightarrow> server_event_type \<Rightarrow> int \<Rightarrow> server_event" where
  "server_event_of v t now = \<lparr>px_server_id = sp_id (sv_spec v), px_server_name = sp_name (sv_spec v),
     px_host_ip = sv_node_id v, px_host_port = sv_host_port v, px_group_id = sp_group_id (sv_spec v),
     px_event_type = t, px_timestamp = now, px_max_players = sv_max_players v,
     px_current_players = sv_player_count v\<rparr>"

text \<open>The events sent first, and what is sent for an event of the channel; \<open>None\<close> is the panic of
  the type assertion.\<close>

definition initial_events :: "server list \<Rightarrow> int \<Rightarrow> server_event list" where
  "initial_events servers now =
     map (\<lambda>v. server_event_of v EvReady now) (filter (\<lambda>v. sv_state v = ServerReady) servers)"

definition forward_event :: "event \<Rightarrow> int \<Rightarrow> server_event list option" where
  "forward_event ev now =
     (if ev_kind ev \<noteq> CmdServerUpsert then Some []
      else case ev_payload ev of
             EvServer v \<Rightarrow> Some (case event_type (sv_state v) of None \<Rightarrow> [] | Some t \<Rightarrow> [server_event_of v t now])
           | _ \<Rightarrow> None)"

text \<open>A stream has a channel of the state machine, has read the servers or not, and has sent events.\<close>

record stream =
  st_fsm :: fsm
  st_chan :: nat
  st_started :: bool
  st_sent :: "server_event list"

definition open_stream :: "fsm \<Rightarrow> stream" where
  "open_stream s = \<lparr>st_fsm = subscribe 100 s, st_chan = length (f_subscribers s), st_started = False, st_sent = []\<rparr>"

definition start_stream :: "order \<Rightarrow> int \<Rightarrow> stream \<Rightarrow> stream" where
  "start_stream ord now st = st\<lparr>st_started := True, st_sent := st_sent st @ initial_events (fsm_servers ord (st_fsm st)) now\<rparr>"

definition deliver :: "int \<Rightarrow> stream \<Rightarrow> stream option" where
  "deliver now st =
     (case receive (st_chan st) (st_fsm st) of
        (None, _) \<Rightarrow> Some st
      | (Some ev, s') \<Rightarrow> map_option (\<lambda>es. st\<lparr>st_fsm := s', st_sent := st_sent st @ es\<rparr>) (forward_event ev now))"

section \<open>Runs\<close>

text \<open>
  The entries a proxy can follow: all but the removal of a server and the entries that change
  one in place, and upserts only of states it has an event for.
\<close>

definition plain_command :: "command \<Rightarrow> bool" where
  "plain_command c \<longleftrightarrow> c_type c \<noteq> CmdServerRemove \<and> c_type c \<noteq> CmdServerSetState \<and> c_type c \<noteq> CmdServerSetHost
     \<and> (c_type c = CmdServerUpsert \<longrightarrow>
          (case unmarshal server_fields (c_payload c) server_zero of
             Inl _ \<Rightarrow> True
           | Inr v \<Rightarrow> event_type (sv_state v) \<noteq> None))"

definition plain_entry :: "wire \<Rightarrow> bool" where
  "plain_entry w \<longleftrightarrow> (case decode w of Inl _ \<Rightarrow> True | Inr c \<Rightarrow> plain_command c)"

definition chan_of :: "stream \<Rightarrow> chan" where
  "chan_of st = f_subscribers (st_fsm st) ! st_chan st"

definition has_room :: "stream \<Rightarrow> bool" where
  "has_room st \<longleftrightarrow> length (ch_buf (chan_of st)) < ch_cap (chan_of st)"

text \<open>All the streams that can come about while only such entries are committed and none is dropped.\<close>

inductive follows :: "fsm \<Rightarrow> stream \<Rightarrow> bool" for s0 where
  opened: "follows s0 (open_stream s0)"
| committed: "follows s0 st \<Longrightarrow> plain_entry w \<Longrightarrow> wire_ok w \<Longrightarrow> has_room st
    \<Longrightarrow> fsm_apply i w (st_fsm st) = Some (e, s') \<Longrightarrow> follows s0 (st\<lparr>st_fsm := s'\<rparr>)"
| started: "follows s0 st \<Longrightarrow> \<not> st_started st \<Longrightarrow> permutes ord \<Longrightarrow> follows s0 (start_stream ord now st)"
| delivered: "follows s0 st \<Longrightarrow> st_started st \<Longrightarrow> deliver now st = Some st' \<Longrightarrow> follows s0 st'"

section \<open>What a proxy believes\<close>

definition sent_types :: "server_event list \<Rightarrow> (string \<times> server_event_type) list" where
  "sent_types es = map (\<lambda>e. (px_server_id e, px_event_type e)) es"

fun queued_types :: "event list \<Rightarrow> (string \<times> server_event_type) list" where
  "queued_types [] = []"
| "queued_types (ev # evs) =
     (case forward_event ev 0 of None \<Rightarrow> [] | Some es \<Rightarrow> sent_types es) @ queued_types evs"

definition believes :: "(string \<times> server_event_type) list \<Rightarrow> string \<Rightarrow> server_event_type option" where
  "believes l = map_of (rev l)"

lemma believes_append: "believes (xs @ ys) = believes xs ++ believes ys"
  by (simp add: believes_def)

lemma believes_Nil [simp]: "believes [] = Map.empty"
  by (simp add: believes_def)

lemma believes_one [simp]: "believes [(i, t)] = [i \<mapsto> t]"
  by (simp add: believes_def)

lemma queued_append: "queued_types (xs @ ys) = queued_types xs @ queued_types ys"
  by (induction xs) simp_all

text \<open>The proxy's belief once what is queued has been delivered, and the servers it would send players to.\<close>

definition belief :: "stream \<Rightarrow> string \<Rightarrow> server_event_type option" where
  "belief st = believes (sent_types (st_sent st) @ queued_types (ch_buf (chan_of st)))"

definition ready_server :: "fsm \<Rightarrow> string \<Rightarrow> bool" where
  "ready_server s i \<longleftrightarrow> (case fsm_server i s of None \<Rightarrow> False | Some v \<Rightarrow> sv_state v = ServerReady)"

lemma event_type_ready: "event_type s = Some EvReady \<longleftrightarrow> s = ServerReady"
  by (auto simp: event_type_def ServerStarting_def ServerReady_def ServerStopping_def)

section \<open>What one entry does to servers and events\<close>

definition other_effect :: "fsm \<Rightarrow> fsm \<Rightarrow> bool" where
  "other_effect s s' \<longleftrightarrow> f_servers s' = f_servers s
     \<and> (f_subscribers s' = f_subscribers s
        \<or> (\<exists>ev. ev_kind ev \<noteq> CmdServerUpsert \<and> f_subscribers s' = map (chan_send ev) (f_subscribers s)))"

definition upsert_effect :: "fsm \<Rightarrow> fsm \<Rightarrow> bool" where
  "upsert_effect s s' \<longleftrightarrow> (\<exists>v t. event_type (sv_state v) = Some t
     \<and> mput (sp_id (sv_spec v)) v (f_servers s) = Some (f_servers s')
     \<and> f_subscribers s' = map (chan_send \<lparr>ev_kind = CmdServerUpsert, ev_payload = EvServer v\<rparr>) (f_subscribers s))"

definition followed :: "fsm \<Rightarrow> applied \<Rightarrow> bool" where
  "followed s x \<longleftrightarrow> (\<forall>e s'. x = Some (e, s') \<longrightarrow> other_effect s s' \<or> upsert_effect s s')"

lemma followed_if: "(b \<Longrightarrow> followed s x) \<Longrightarrow> (\<not> b \<Longrightarrow> followed s y) \<Longrightarrow> followed s (if b then x else y)"
  by simp

lemma followed_same: "followed s (Some (e, s))"
  by (simp add: followed_def other_effect_def)

lemma followed_upsert_other:
  assumes "\<And>r m. other_effect s (pub r (wr m s))"
  shows "followed s (upsert_with d key rd wr pub s)"
  using assms by (auto simp: upsert_with_def followed_def other_effect_def split: sum.splits option.splits)

lemma followed_remove:
  assumes "\<And>i. other_effect s (pub i (del i s))"
  shows "followed s (remove_with p del pub s)"
  using assms by (auto simp: remove_with_def followed_def other_effect_def split: sum.splits)

lemma publish_other:
  assumes "k \<noteq> CmdServerUpsert" and "f_servers s' = f_servers s" and "f_subscribers s' = f_subscribers s"
  shows "other_effect s (publish k p s')"
  unfolding other_effect_def publish_def using assms
  by (intro conjI disjI2 exI [of _ "\<lparr>ev_kind = k, ev_payload = p\<rparr>"]) simp_all

lemma other_quiet: "f_servers s' = f_servers s \<Longrightarrow> f_subscribers s' = f_subscribers s \<Longrightarrow> other_effect s s'"
  by (simp add: other_effect_def)

lemma publish_servers [simp]: "f_servers (publish k p s) = f_servers s"
  by (simp add: publish_def)

text \<open>The kinds of commands, told apart once.\<close>

lemma kinds_other:
  "CmdNodeUpsert \<noteq> CmdServerUpsert" "CmdHeartbeat \<noteq> CmdServerUpsert" "CmdNodeRemove \<noteq> CmdServerUpsert"
  "CmdGroupUpsert \<noteq> CmdServerUpsert" "CmdGroupRemove \<noteq> CmdServerUpsert" "CmdTemplateUpsert \<noteq> CmdServerUpsert"
  "CmdTemplateRemove \<noteq> CmdServerUpsert" "CmdDatabaseUpsert \<noteq> CmdServerUpsert" "CmdDatabaseRemove \<noteq> CmdServerUpsert"
  by (simp_all add: cmd_defs)

lemma followed_records:
  assumes "t \<noteq> CmdServerUpsert"
  shows "followed s (upsert_with d n_id f_nodes (\<lambda>m s. s\<lparr>f_nodes := m\<rparr>) (\<lambda>n. publish t (EvNode n)) s)"
    and "followed s (upsert_with d' g_id f_groups (\<lambda>m s. s\<lparr>f_groups := m\<rparr>) (\<lambda>g. publish t (EvGroup g)) s)"
    and "followed s (upsert_with d2 t_id f_templates (\<lambda>m s. s\<lparr>f_templates := m\<rparr>) (\<lambda>v. publish t (EvTemplate v)) s)"
    and "followed s (upsert_with d3 d_id f_databases (\<lambda>m s. s\<lparr>f_databases := m\<rparr>) (\<lambda>v. publish t (EvDatabase v)) s)"
  by (rule followed_upsert_other, rule publish_other [OF assms], simp, simp)+

lemma followed_removals:
  assumes "t \<noteq> CmdServerUpsert"
  shows "followed s (remove_with p (\<lambda>i s. s\<lparr>f_nodes := mdel i (f_nodes s)\<rparr>) (\<lambda>i. publish t (EvId i)) s)"
    and "followed s (remove_with p (\<lambda>i s. s\<lparr>f_groups := mdel i (f_groups s)\<rparr>) (\<lambda>i. publish t (EvId i)) s)"
    and "followed s (remove_with p (\<lambda>i s. s\<lparr>f_templates := mdel i (f_templates s)\<rparr>) (\<lambda>i. publish t (EvId i)) s)"
    and "followed s (remove_with p (\<lambda>i s. s\<lparr>f_databases := mdel i (f_databases s)\<rparr>) (\<lambda>i. publish t (EvId i)) s)"
  by (rule followed_remove, rule publish_other [OF assms], simp, simp)+

lemma followed_tokens:
  "followed s (upsert_with d tk_id f_tokens (\<lambda>m s. s\<lparr>f_tokens := m\<rparr>) (\<lambda>_ s. s) s)"
  "followed s (remove_with p (\<lambda>i s. s\<lparr>f_tokens := mdel i (f_tokens s)\<rparr>) (\<lambda>_ s. s) s)"
  by (rule followed_upsert_other, rule other_quiet, simp, simp) (rule followed_remove, rule other_quiet, simp, simp)

lemma plain_followed:
  assumes "plain_command c"
  shows "followed s (apply_command c s)"
proof -
  have no: "c_type c \<noteq> CmdServerRemove" "c_type c \<noteq> CmdServerSetState" "c_type c \<noteq> CmdServerSetHost"
    and dec: "c_type c = CmdServerUpsert \<Longrightarrow> unmarshal server_fields (c_payload c) server_zero = Inr v
      \<Longrightarrow> event_type (sv_state v) \<noteq> None" for v
    using assms by (auto simp: plain_command_def)
  have up: "followed s (upsert_with (unmarshal server_fields (c_payload c) server_zero) (\<lambda>v. sp_id (sv_spec v)) f_servers
      (\<lambda>m s. s\<lparr>f_servers := m\<rparr>) (\<lambda>v. publish (c_type c) (EvServer v)) s)" if t: "c_type c = CmdServerUpsert"
    using dec [OF t]
    by (auto simp: upsert_with_def followed_def upsert_effect_def publish_def t other_quiet split: sum.splits option.splits)
  note pieces = followed_records followed_removals followed_tokens
  show ?thesis
    unfolding apply_command_def Let_def if_not_P [OF no(1)] if_not_P [OF no(2)] if_not_P [OF no(3)]
    by (intro followed_if up followed_same pieces) (auto simp: kinds_other)
qed

lemma entry_followed:
  assumes "plain_entry w" and "fsm_apply i w s = Some (e, s')"
  shows "other_effect s s' \<or> upsert_effect s s'"
proof (cases "decode w")
  case (Inl x)
  with assms(2) show ?thesis by (simp add: fsm_apply_def other_quiet)
next
  case (Inr c)
  then have p: "plain_command c" using assms(1) by (simp add: plain_entry_def)
  show ?thesis
  proof (cases "c_idem c = []")
    case True
    with Inr assms(2) plain_followed [OF p, of s] show ?thesis by (simp add: fsm_apply_def followed_def)
  next
    case False
    show ?thesis
    proof (cases "mget (f_idem s) (c_idem c)")
      case (Some x)
      with Inr False assms(2) show ?thesis by (simp add: fsm_apply_def other_quiet)
    next
      case None
      with Inr False assms(2) obtain m where m: "apply_command c (s\<lparr>f_idem := m\<rparr>) = Some (e, s')"
        by (auto simp: fsm_apply_def split: option.splits)
      with plain_followed [OF p, of "s\<lparr>f_idem := m\<rparr>"]
      have "other_effect (s\<lparr>f_idem := m\<rparr>) s' \<or> upsert_effect (s\<lparr>f_idem := m\<rparr>) s'" by (simp add: followed_def)
      then show ?thesis by (simp add: other_effect_def upsert_effect_def)
    qed
  qed
qed

section \<open>The proxy follows\<close>

text \<open>The last queued event of a server is of its present state.\<close>

definition queue_current :: "stream \<Rightarrow> bool" where
  "queue_current st \<longleftrightarrow> (\<forall>i t. believes (queued_types (ch_buf (chan_of st))) i = Some t \<longrightarrow>
     (\<exists>v. fsm_server i (st_fsm st) = Some v \<and> event_type (sv_state v) = Some t))"

definition in_step :: "stream \<Rightarrow> bool" where
  "in_step st \<longleftrightarrow> fsm_ok (st_fsm st) \<and> st_chan st < length (f_subscribers (st_fsm st)) \<and> queue_current st
     \<and> (\<forall>ev\<in>set (ch_buf (chan_of st)). forward_event ev 0 \<noteq> None)
     \<and> (\<not> st_started st \<longrightarrow> st_sent st = [])
     \<and> (st_started st \<longrightarrow> (\<forall>i. belief st i = Some EvReady \<longleftrightarrow> ready_server (st_fsm st) i))"

lemma open_in_step: "fsm_ok s \<Longrightarrow> in_step (open_stream s)"
  by (simp add: in_step_def open_stream_def subscribe_def fsm_ok_def chan_ok_def queue_current_def chan_of_def nth_append)

lemma upsert_servers:
  assumes "mput (sp_id (sv_spec v)) v (f_servers s) = Some (f_servers s')"
  shows "fsm_server i s' = (if i = sp_id (sv_spec v) then Some v else fsm_server i s)"
  using tbl.get_put [OF assms] by (simp add: fsm_server_def)

lemma commit_in_step:
  assumes "in_step st" and "plain_entry w" and "wire_ok w" and room: "has_room st"
    and ap: "fsm_apply i w (st_fsm st) = Some (e, s')"
  shows "in_step (st\<lparr>st_fsm := s'\<rparr>)"
proof -
  let ?st = "st\<lparr>st_fsm := s'\<rparr>"
  note inv = assms(1) [unfolded in_step_def]
  have ok: "fsm_ok s'" using fsm_apply_ok [OF _ assms(3)] inv ap by (metis applied_okE option.inject prod.inject)
  have n: "st_chan st < length (f_subscribers (st_fsm st))" using inv by blast
  from entry_followed [OF assms(2) ap] show ?thesis
  proof
    assume "other_effect (st_fsm st) s'"
    then have sv: "f_servers s' = f_servers (st_fsm st)"
      and subs: "f_subscribers s' = f_subscribers (st_fsm st)
        \<or> (\<exists>ev. ev_kind ev \<noteq> CmdServerUpsert \<and> f_subscribers s' = map (chan_send ev) (f_subscribers (st_fsm st)))"
      by (simp_all add: other_effect_def)
    from subs obtain evs where evs: "ch_buf (chan_of ?st) = ch_buf (chan_of st) @ evs"
      and quiet: "\<forall>ev\<in>set evs. forward_event ev 0 = Some []" and l: "st_chan st < length (f_subscribers s')"
    proof
      assume "f_subscribers s' = f_subscribers (st_fsm st)"
      with n that [of "[]"] show thesis by (simp add: chan_of_def)
    next
      assume "\<exists>ev. ev_kind ev \<noteq> CmdServerUpsert \<and> f_subscribers s' = map (chan_send ev) (f_subscribers (st_fsm st))"
      then obtain ev where "ev_kind ev \<noteq> CmdServerUpsert"
        "f_subscribers s' = map (chan_send ev) (f_subscribers (st_fsm st))" by blast
      with n room that [of "[ev]"] show thesis
        by (simp add: chan_of_def chan_send_def has_room_def forward_event_def)
    qed
    have "queued_types evs = []" using quiet by (induction evs) (simp_all add: sent_types_def)
    then have q: "queued_types (ch_buf (chan_of ?st)) = queued_types (ch_buf (chan_of st))"
      by (simp add: evs queued_append)
    have f: "\<forall>ev\<in>set (ch_buf (chan_of ?st)). forward_event ev 0 \<noteq> None" using quiet inv by (auto simp: evs)
    show ?thesis
      using inv ok q f l sv
      by (simp add: in_step_def queue_current_def belief_def ready_server_def fsm_server_def)
  next
    assume "upsert_effect (st_fsm st) s'"
    then obtain v t where v: "event_type (sv_state v) = Some t"
      "mput (sp_id (sv_spec v)) v (f_servers (st_fsm st)) = Some (f_servers s')"
      "f_subscribers s' = map (chan_send \<lparr>ev_kind = CmdServerUpsert, ev_payload = EvServer v\<rparr>) (f_subscribers (st_fsm st))"
      by (auto simp: upsert_effect_def)
    let ?ev = "\<lparr>ev_kind = CmdServerUpsert, ev_payload = EvServer v\<rparr>"
    have buf: "ch_buf (chan_of ?st) = ch_buf (chan_of st) @ [?ev]"
      using room n v(3) by (simp add: chan_of_def chan_send_def has_room_def)
    have fw: "forward_event ?ev 0 = Some [server_event_of v t 0]" by (simp add: forward_event_def v(1))
    have q: "queued_types (ch_buf (chan_of ?st)) = queued_types (ch_buf (chan_of st)) @ [(sp_id (sv_spec v), t)]"
      by (simp add: buf queued_append fw sent_types_def server_event_of_def)
    have qc: "queue_current ?st"
      using inv v(1) by (auto simp: queue_current_def q believes_append upsert_servers [OF v(2)] split: if_splits)
    have "belief ?st = (belief st)(sp_id (sv_spec v) \<mapsto> t)"
      by (simp add: belief_def q believes_append)
    moreover have "t = EvReady \<longleftrightarrow> sv_state v = ServerReady" using v(1) event_type_ready [of "sv_state v"] by simp
    ultimately have b: "belief ?st j = Some EvReady \<longleftrightarrow> ready_server s' j" if "st_started st" for j
      using inv that by (simp add: ready_server_def upsert_servers [OF v(2)])
    have "st_chan st < length (f_subscribers s')" using n v(3) by simp
    moreover have "\<forall>ev\<in>set (ch_buf (chan_of ?st)). forward_event ev 0 \<noteq> None" using inv fw by (simp add: buf)
    ultimately show ?thesis using inv ok qc b by (simp add: in_step_def)
  qed
qed

lemma forward_types:
  "forward_event ev now = Some es \<Longrightarrow> \<exists>es0. forward_event ev 0 = Some es0 \<and> sent_types es0 = sent_types es"
  by (auto simp: forward_event_def sent_types_def server_event_of_def split: if_splits ev_payload.splits option.splits)

lemma deliver_in_step:
  assumes "in_step st" and "st_started st" and "deliver now st = Some st'"
  shows "in_step st'"
proof (cases "ch_buf (chan_of st)")
  case Nil
  with assms(1,3) have "st' = st" by (simp add: deliver_def receive_def chan_of_def in_step_def)
  with assms(1) show ?thesis by simp
next
  case (Cons ev evs)
  note inv = assms(1) [unfolded in_step_def]
  let ?s' = "(st_fsm st)\<lparr>f_subscribers := (f_subscribers (st_fsm st))[st_chan st := (chan_of st)\<lparr>ch_buf := evs\<rparr>]\<rparr>"
  have n: "st_chan st < length (f_subscribers (st_fsm st))" using inv by blast
  have rc: "receive (st_chan st) (st_fsm st) = (Some ev, ?s')"
    using Cons n by (simp add: receive_def chan_of_def)
  with assms(3) obtain es where es: "forward_event ev now = Some es"
    and st': "st' = st\<lparr>st_fsm := ?s', st_sent := st_sent st @ es\<rparr>" by (auto simp: deliver_def)
  from forward_types [OF es] obtain es0 where es0: "forward_event ev 0 = Some es0" "sent_types es0 = sent_types es" by blast
  have buf: "ch_buf (chan_of st') = evs" using n by (simp add: chan_of_def st')
  have q: "queued_types (ch_buf (chan_of st)) = sent_types es @ queued_types evs" by (simp add: Cons es0)
  have "belief st' = belief st"
    unfolding belief_def buf q by (simp add: st' sent_types_def)
  moreover have "queue_current st'"
    using inv unfolding queue_current_def buf q by (simp add: believes_append st' fsm_server_def)
  moreover have "fsm_ok ?s'"
    using inv Cons n unfolding fsm_ok_def chan_ok_def chan_of_def
    by (auto dest!: set_update_subset_insert [THEN subsetD] nth_mem)
  moreover have "ready_server (st_fsm st') = ready_server (st_fsm st)"
    by (simp add: st' ready_server_def fsm_server_def fun_eq_iff)
  ultimately show ?thesis
    using inv assms(2) Cons n unfolding in_step_def buf by (simp add: st')
qed

lemma believes_initial:
  assumes "fsm_ok s" and "permutes ord"
  shows "believes (sent_types (initial_events (fsm_servers ord s) now)) i = (if ready_server s i then Some EvReady else None)"
proof -
  let ?l = "sent_types (initial_events (fsm_servers ord s) now)"
  have keyed: "sp_id (sv_spec v) = k" if "mget (f_servers s) k = Some v" for k v
    using assms(1) that unfolding fsm_ok_def by (blast dest: table_okD)
  have set: "set ?l = {(k, EvReady) | k. ready_server s k}"
  proof -
    have "set ?l = {(sp_id (sv_spec v), EvReady) | v. (\<exists>k. mget (f_servers s) k = Some v) \<and> sv_state v = ServerReady}"
      by (auto simp: sent_types_def initial_events_def server_event_of_def fsm_servers_def set_mvalues [OF assms(2)])
    also have "\<dots> = {(k, EvReady) | k. ready_server s k}"
      using keyed by (auto simp: ready_server_def fsm_server_def split: option.splits)
    finally show ?thesis .
  qed
  show ?thesis
  proof (cases "ready_server s i")
    case True
    then have "believes ?l i \<noteq> None" using set by (simp add: believes_def map_of_eq_None_iff) force
    then obtain t where "believes ?l i = Some t" by blast
    then have "(i, t) \<in> set ?l" by (auto simp: believes_def dest: map_of_SomeD)
    with set \<open>believes ?l i = Some t\<close> True show ?thesis by simp
  next
    case False
    then have "i \<notin> fst ` set ?l" using set by auto
    with False show ?thesis by (simp add: believes_def map_of_eq_None_iff)
  qed
qed

lemma start_in_step:
  assumes "in_step st" and "\<not> st_started st" and "permutes ord"
  shows "in_step (start_stream ord now st)"
proof -
  let ?st = "start_stream ord now st"
  note inv = assms(1) [unfolded in_step_def]
  have ch: "chan_of ?st = chan_of st" by (simp add: chan_of_def start_stream_def)
  have "belief ?st i = Some EvReady \<longleftrightarrow> ready_server (st_fsm st) i" for i
  proof -
    have b: "belief ?st i = (believes (sent_types (initial_events (fsm_servers ord (st_fsm st)) now))
        ++ believes (queued_types (ch_buf (chan_of st)))) i"
      using inv assms(2) unfolding belief_def ch by (simp add: believes_append start_stream_def)
    show ?thesis
    proof (cases "believes (queued_types (ch_buf (chan_of st))) i")
      case None
      with b believes_initial [OF _ assms(3), of "st_fsm st"] inv show ?thesis by (simp add: map_add_def)
    next
      case (Some t)
      with inv obtain v where "fsm_server i (st_fsm st) = Some v" "event_type (sv_state v) = Some t"
        unfolding queue_current_def by blast
      with b Some event_type_ready [of "sv_state v"] show ?thesis by (simp add: ready_server_def)
    qed
  qed
  then show ?thesis
    using inv unfolding in_step_def queue_current_def ch by (simp add: start_stream_def)
qed

lemma follows_in_step: "follows s0 st \<Longrightarrow> fsm_ok s0 \<Longrightarrow> in_step st"
  by (induction rule: follows.induct)
     (blast intro: open_in_step commit_in_step start_in_step deliver_in_step)+


section \<open>A cluster of one server, and its proxy\<close>

definition lobby :: server where
  "lobby = server_zero\<lparr>sv_spec := server_spec_zero\<lparr>sp_id := ''srv-1''\<rparr>, sv_state := ServerReady\<rparr>"

definition lobby_fsm :: fsm where
  "lobby_fsm = new_fsm\<lparr>f_servers := GoMap [(''srv-1'', lobby)]\<rparr>"

definition lobby_stream :: stream where
  "lobby_stream = start_stream (\<lambda>ks. ks) 5 (open_stream lobby_fsm)"

lemma lobby_ok: "fsm_ok lobby_fsm"
proof -
  have "server_valid lobby" by (simp add: lobby_def server_valid_def server_spec_valid_def zero_defs)
  then have "table_ok (\<lambda>v. sp_id (sv_spec v)) server_valid (GoMap [(''srv-1'', lobby)])"
    by (simp add: table_ok_def lobby_def)
  then show ?thesis using new_fsm_ok by (simp add: lobby_fsm_def fsm_ok_def)
qed

lemma lobby_follows: "follows lobby_fsm lobby_stream"
  unfolding lobby_stream_def by (rule started [OF opened]) (simp_all add: open_stream_def)

lemma lobby_stream_facts:
  "st_started lobby_stream" "st_fsm lobby_stream = subscribe 100 lobby_fsm"
  "ch_buf (chan_of lobby_stream) = []" "has_room lobby_stream" "ready_server (st_fsm lobby_stream) ''srv-1''"
  by (simp_all add: lobby_stream_def start_stream_def open_stream_def chan_of_def has_room_def
      subscribe_def nth_append ready_server_def fsm_server_def lobby_fsm_def lobby_def)


section \<open>Entries the stream does not pass on\<close>

lemma deliver_ignored:
  assumes "st_chan st < length (f_subscribers (st_fsm st))" and "ch_buf (chan_of st) = [ev]"
    and "ev_kind ev \<noteq> CmdServerUpsert"
  shows "\<exists>s'. deliver now st = Some (st\<lparr>st_fsm := s'\<rparr>) \<and> f_servers s' = f_servers (st_fsm st)
    \<and> ch_buf (f_subscribers s' ! st_chan st) = []"
proof (intro exI conjI)
  let ?s = "(st_fsm st)\<lparr>f_subscribers := (f_subscribers (st_fsm st))[st_chan st := (chan_of st)\<lparr>ch_buf := []\<rparr>]\<rparr>"
  show "deliver now st = Some (st\<lparr>st_fsm := ?s\<rparr>)"
    using assms by (simp add: deliver_def receive_def chan_of_def forward_event_def)
qed (use assms(1) in simp_all)

lemma sent_if_started:
  assumes "follows s0 st" and "fsm_ok s0" and "st_started st" and "ch_buf (chan_of st) = []"
  shows "believes (sent_types (st_sent st)) i = Some EvReady \<longleftrightarrow> ready_server (st_fsm st) i"
proof -
  note inv = follows_in_step [OF assms(1,2), unfolded in_step_def]
  have "belief st = believes (sent_types (st_sent st))" by (simp add: belief_def assms(4))
  with inv assms(3) show ?thesis by metis
qed

text \<open>A removed server stays in the proxies: \<open>server.remove\<close> is committed, applied and delivered, the state
  machine has no such server any more, the proxy's channel is empty, and the last thing the proxy was told of it is that it
  is ready: \<open>Subscribe\<close> passes on upserts only.\<close>

theorem removed_server_stays_ready:
  assumes "follows s0 st" and "fsm_ok s0" and "st_started st" and "ch_buf (chan_of st) = []"
    and "has_room st" and "ready_server (st_fsm st) i" and "int64_ok ts"
    and "encode CmdServerRemove (enc_id i) [] ts = Inr w"
  shows "\<exists>s' st'. fsm_apply n w (st_fsm st) = Some (None, s') \<and> fsm_server i s' = None
    \<and> deliver now (st\<lparr>st_fsm := s'\<rparr>) = Some st' \<and> ch_buf (chan_of st') = []
    \<and> fsm_server i (st_fsm st') = None \<and> believes (sent_types (st_sent st')) i = Some EvReady"
proof -
  note inv = follows_in_step [OF assms(1,2), unfolded in_step_def]
  let ?ev = "\<lparr>ev_kind = CmdServerRemove, ev_payload = EvId i\<rparr>"
  let ?s = "publish CmdServerRemove (EvId i) ((st_fsm st)\<lparr>f_servers := mdel i (f_servers (st_fsm st))\<rparr>)"
  let ?st = "st\<lparr>st_fsm := ?s\<rparr>"
  have ap: "fsm_apply n w (st_fsm st) = Some (None, ?s)"
    using inv by (intro apply_server_remove(1) [OF _ assms(7,8)]) blast
  have n: "st_chan st < length (f_subscribers (st_fsm st))" using inv by blast
  have "ch_buf (chan_of ?st) = [?ev]"
    using n assms(4,5) by (simp add: chan_of_def publish_def chan_send_def has_room_def)
  then obtain s' where s': "deliver now ?st = Some (?st\<lparr>st_fsm := s'\<rparr>)" "f_servers s' = f_servers ?s"
    "ch_buf (f_subscribers s' ! st_chan ?st) = []"
    using deliver_ignored [of ?st ?ev now] n by (auto simp: publish_def cmd_defs)
  moreover have "believes (sent_types (st_sent st)) i = Some EvReady"
    using sent_if_started [OF assms(1-4)] assms(6) by blast
  ultimately show ?thesis
    using ap by (auto simp: chan_of_def fsm_server_def intro!: exI [of _ ?s])
qed

theorem removed_server_witness:
  "\<exists>w s' st'. encode CmdServerRemove (enc_id ''srv-1'') [] 7 = Inr w
    \<and> fsm_apply 1 w (st_fsm lobby_stream) = Some (None, s') \<and> fsm_server ''srv-1'' s' = None
    \<and> deliver 6 (lobby_stream\<lparr>st_fsm := s'\<rparr>) = Some st' \<and> ch_buf (chan_of st') = []
    \<and> fsm_server ''srv-1'' (st_fsm st') = None \<and> believes (sent_types (st_sent st')) ''srv-1'' = Some EvReady"
proof -
  obtain w where w: "encode CmdServerRemove (enc_id ''srv-1'') [] 7 = Inr w"
    using server_table.rm_encodes by blast
  have ts: "int64_ok 7" by (simp add: int64_ok_def)
  from removed_server_stays_ready [OF lobby_follows lobby_ok lobby_stream_facts(1,3,4,5) ts w, of 1 6] w
  show ?thesis by blast
qed

end
