(* ===== verification/Iptables.thy ===== *)
theory Iptables
  imports GoMap
begin

text \<open>
  daemon/internal/firewall/iptables.go: the manager of the host's packet filter. It runs the
  \<open>iptables\<close> program, here a function from its arguments and the state of the kernel to its
  output, its exit error and the next state. \<open>chain_laws\<close> states what the manual promises
  of the options the code uses on one chain; only the theorems that need it assume it.
\<close>

section \<open>Running the program\<close>

type_synonym 'k iptables = "string list \<Rightarrow> 'k \<Rightarrow> (string \<times> err) \<times> 'k"

definition chain :: string where
  "chain = ''AETHERNET_FW''"

text \<open>The verb \<open>%v\<close> of a list of strings.\<close>

definition fmt_list :: "string list \<Rightarrow> string" where
  "fmt_list xs = ''['' @ join '' '' xs @ '']''"

definition ipt :: "'k iptables \<Rightarrow> string list \<Rightarrow> 'k \<Rightarrow> err \<times> 'k" where
  "ipt exec args k =
     (case exec args k of
        ((out, None), k') \<Rightarrow> (None, k')
      | ((out, Some e), k') \<Rightarrow>
          (Some (ErrWrap (''iptables '' @ fmt_list args @ '': '') e ('': '' @ trim_space out)), k'))"

definition server_tag :: "string \<Rightarrow> string" where
  "server_tag i = ''aethernet-srv-'' @ i"

text \<open>\<open>strings.Replace(s, old, new, 1)\<close> for a non-empty \<open>old\<close>.\<close>

fun replace_first :: "string \<Rightarrow> string \<Rightarrow> string \<Rightarrow> string" where
  "replace_first old new [] = []"
| "replace_first old new (c # s) =
     (if has_prefix (c # s) old then new @ drop (length old) (c # s) else c # replace_first old new s)"

section \<open>The manager\<close>

text \<open>All its operations run under one mutex, so each is a single step of the kernel's state.\<close>

definition ensure_chain :: "'k iptables \<Rightarrow> 'k \<Rightarrow> err \<times> 'k" where
  "ensure_chain exec k =
     (let hook = (\<lambda>where_to k.
            case ipt exec [''-C'', where_to, ''-j'', chain] k of
              (None, k') \<Rightarrow> k'
            | (Some _, k') \<Rightarrow> snd (ipt exec [''-I'', where_to, ''-j'', chain] k'));
          k1 = snd (ipt exec [''-N'', chain] k);
          k2 = snd (ipt exec [''-C'', ''INPUT'', ''-j'', chain] k1)
      in (None, hook ''FORWARD'' (hook ''INPUT'' k2)))"

definition fw_proto :: "string \<Rightarrow> string" where
  "fw_proto proto = (let p = to_lower proto in if p \<noteq> ''tcp'' \<and> p \<noteq> ''udp'' then ''tcp'' else p)"

definition accept_spec :: "string \<Rightarrow> string \<Rightarrow> u32 \<Rightarrow> string \<Rightarrow> string list" where
  "accept_spec server_id container_ip host_port proto =
     [''-p'', fw_proto proto, ''--dport'', itoa (uint host_port), ''-d'', container_ip,
      ''-j'', ''ACCEPT'', ''-m'', ''comment'', ''--comment'', server_tag server_id]"

definition port_error :: "string \<Rightarrow> string \<Rightarrow> u32 \<Rightarrow> string \<Rightarrow> err \<Rightarrow> err" where
  "port_error what server_id host_port proto e =
     map_option (\<lambda>x. ErrWrap (what @ '' port '' @ itoa (uint host_port) @ ''/'' @ fw_proto proto
       @ '' for '' @ server_id @ '': '') x []) e"

definition open_port ::
  "'k iptables \<Rightarrow> string \<Rightarrow> string \<Rightarrow> u32 \<Rightarrow> string \<Rightarrow> 'k \<Rightarrow> err \<times> 'k" where
  "open_port exec server_id container_ip host_port proto k =
     (case ipt exec ([''-A'', chain] @ accept_spec server_id container_ip host_port proto) k of
        (e, k') \<Rightarrow> (port_error ''open'' server_id host_port proto e, k'))"

definition close_port ::
  "'k iptables \<Rightarrow> string \<Rightarrow> string \<Rightarrow> u32 \<Rightarrow> string \<Rightarrow> 'k \<Rightarrow> err \<times> 'k" where
  "close_port exec server_id container_ip host_port proto k =
     (case ipt exec ([''-D'', chain] @ accept_spec server_id container_ip host_port proto) k of
        (e, k') \<Rightarrow> (port_error ''close'' server_id host_port proto e, k'))"

definition delete_args :: "string \<Rightarrow> string list" where
  "delete_args line = str_fields (replace_first (''-A '' @ chain) (''-D '' @ chain) line)"

fun flush_lines :: "'k iptables \<Rightarrow> string \<Rightarrow> string list \<Rightarrow> 'k \<Rightarrow> 'k" where
  "flush_lines exec comment [] k = k"
| "flush_lines exec comment (line # ls) k =
     flush_lines exec comment ls
       (if \<not> contains line comment then k
        else if delete_args line = [] then k
        else snd (ipt exec (delete_args line) k))"

definition flush_server_rules :: "'k iptables \<Rightarrow> string \<Rightarrow> 'k \<Rightarrow> err \<times> 'k" where
  "flush_server_rules exec server_id k =
     (case exec [''-S'', chain] k of
        ((out, Some e), k') \<Rightarrow> (None, k')
      | ((out, None), k') \<Rightarrow>
          (None, flush_lines exec (server_tag server_id) (split CHR 0x0A out) k'))"

definition drop_spec :: "string \<Rightarrow> string \<Rightarrow> string list" where
  "drop_spec ip comment = [''-s'', ip, ''-j'', ''DROP'', ''-m'', ''comment'', ''--comment'', comment]"

definition block_ip :: "'k iptables \<Rightarrow> string \<Rightarrow> 'k \<Rightarrow> err \<times> 'k" where
  "block_ip exec ip = ipt exec ([''-I'', chain] @ drop_spec ip ''aethernet-ddos-block'')"

definition unblock_ip :: "'k iptables \<Rightarrow> string \<Rightarrow> 'k \<Rightarrow> err \<times> 'k" where
  "unblock_ip exec ip = ipt exec ([''-D'', chain] @ drop_spec ip ''aethernet-ddos-block'')"

section \<open>What iptables promises of a chain\<close>

text \<open>
  The chain holds a list of rules. A specification the program parses is appended by \<open>-A\<close>,
  put in front by \<open>-I\<close>, and removed where it stands first by \<open>-D\<close>, which fails when it stands
  nowhere.
\<close>

record ('k, 'r) chain_view =
  cv_rules :: "'k \<Rightarrow> 'r list"
  cv_parse :: "string list \<Rightarrow> 'r option"
  cv_show :: "'r \<Rightarrow> string"

definition chain_laws :: "string \<Rightarrow> 'k iptables \<Rightarrow> ('k, 'r) chain_view \<Rightarrow> bool" where
  "chain_laws ch exec v \<longleftrightarrow>
     (\<forall>spec r k. cv_parse v spec = Some r \<longrightarrow>
        (\<exists>out k'. exec ([''-A'', ch] @ spec) k = ((out, None), k') \<and> cv_rules v k' = cv_rules v k @ [r])
        \<and> (\<exists>out k'. exec ([''-I'', ch] @ spec) k = ((out, None), k') \<and> cv_rules v k' = r # cv_rules v k)
        \<and> (\<exists>out e k'. exec ([''-D'', ch] @ spec) k = ((out, e), k') \<and> cv_rules v k' = remove1 r (cv_rules v k)
             \<and> (e = None \<longleftrightarrow> r \<in> set (cv_rules v k))))"

text \<open>
  \<open>-S\<close> prints the chain's own line and one line per rule. A rule without a quoted word prints
  as a specification that parses to it, after \<open>-A\<close> and the name of the chain.
\<close>

definition prints_plain :: "string \<Rightarrow> ('k, 'r) chain_view \<Rightarrow> 'r \<Rightarrow> bool" where
  "prints_plain ch v r \<longleftrightarrow> CHR 0x0A \<notin> set (cv_show v r) \<and>
     (case str_fields (replace_first (''-A '' @ ch) (''-D '' @ ch) (cv_show v r)) of
        d # c # spec \<Rightarrow> d = ''-D'' \<and> c = ch \<and> cv_parse v spec = Some r
      | _ \<Rightarrow> False)"

definition listing_laws :: "string \<Rightarrow> 'k iptables \<Rightarrow> ('k, 'r) chain_view \<Rightarrow> bool" where
  "listing_laws ch exec v \<longleftrightarrow>
     (\<forall>k. exec [''-S'', ch] k
        = ((join [CHR 0x0A] ((''-N '' @ ch) # map (cv_show v) (cv_rules v k) @ [[]]), None), k))"

lemma chain_append:
  "chain_laws ch exec v \<Longrightarrow> cv_parse v spec = Some r \<Longrightarrow>
    \<exists>out k'. exec ([''-A'', ch] @ spec) k = ((out, None), k') \<and> cv_rules v k' = cv_rules v k @ [r]"
  unfolding chain_laws_def by blast

lemma chain_insert:
  "chain_laws ch exec v \<Longrightarrow> cv_parse v spec = Some r \<Longrightarrow>
    \<exists>out k'. exec ([''-I'', ch] @ spec) k = ((out, None), k') \<and> cv_rules v k' = r # cv_rules v k"
  unfolding chain_laws_def by blast

lemma chain_delete:
  "chain_laws ch exec v \<Longrightarrow> cv_parse v spec = Some r \<Longrightarrow>
    \<exists>out e k'. exec ([''-D'', ch] @ spec) k = ((out, e), k') \<and> cv_rules v k' = remove1 r (cv_rules v k)
      \<and> (e = None \<longleftrightarrow> r \<in> set (cv_rules v k))"
  unfolding chain_laws_def by blast

section \<open>Flushing\<close>

text \<open>The rules a flush for one server takes out: those whose printed line contains its tag.\<close>

definition tagged :: "('k, 'r) chain_view \<Rightarrow> string \<Rightarrow> 'r \<Rightarrow> bool" where
  "tagged v server_id r \<longleftrightarrow> contains (cv_show v r) (server_tag server_id)"

lemma ipt_snd: "snd (ipt exec args k) = snd (exec args k)"
  by (auto simp: ipt_def split: prod.splits option.splits)

lemma flush_lines_rules:
  assumes laws: "chain_laws chain exec v"
    and "cv_rules v k = filter (\<lambda>r. \<not> tagged v i r) seen @ todo"
    and "\<forall>r\<in>set todo. prints_plain chain v r"
  shows "cv_rules v (flush_lines exec (server_tag i) (map (cv_show v) todo @ [[]]) k)
    = filter (\<lambda>r. \<not> tagged v i r) (seen @ todo)"
  using assms(2,3)
proof (induction todo arbitrary: k seen)
  case Nil
  have "\<not> contains [] (server_tag i)" by (simp add: server_tag_def)
  with Nil show ?case by simp
next
  case (Cons r todo)
  show ?case
  proof (cases "tagged v i r")
    case False
    have "cv_rules v (flush_lines exec (server_tag i) (map (cv_show v) todo @ [[]]) k)
        = filter (\<lambda>r. \<not> tagged v i r) ((seen @ [r]) @ todo)"
      by (rule Cons.IH) (use Cons.prems False in simp_all)
    with False show ?thesis by (simp add: tagged_def)
  next
    case True
    from Cons.prems(2) obtain spec where spec: "delete_args (cv_show v r) = [''-D'', chain] @ spec"
      "cv_parse v spec = Some r"
      by (auto simp: prints_plain_def delete_args_def split: list.splits)
    let ?k = "snd (ipt exec (delete_args (cv_show v r)) k)"
    have "cv_rules v ?k = remove1 r (cv_rules v k)"
      using chain_delete [OF laws spec(2), of k] by (auto simp: ipt_snd spec(1))
    also have "\<dots> = filter (\<lambda>r. \<not> tagged v i r) seen @ todo"
      using Cons.prems(1) True by (simp add: remove1_append)
    finally have "cv_rules v (flush_lines exec (server_tag i) (map (cv_show v) todo @ [[]]) ?k)
        = filter (\<lambda>r. \<not> tagged v i r) (seen @ todo)"
      using Cons.prems(2) Cons.IH by simp
    with True spec(1) show ?thesis by (simp add: tagged_def)
  qed
qed

text \<open>C39. Flushing a server removes exactly the rules whose listing contains its tag, in a chain whose
  rules print without quotes, keeping the others in order. The tag is matched anywhere in
  the line, so the rules of every server whose id begins with this one's id go too.\<close>

theorem flush_removes_tagged:
  assumes "chain_laws chain exec v" and "listing_laws chain exec v"
    and "list_all (prints_plain chain v) (cv_rules v k)"
  shows "\<exists>k'. flush_server_rules exec i k = (None, k')
    \<and> cv_rules v k' = filter (\<lambda>r. \<not> tagged v i r) (cv_rules v k)
    \<and> (\<forall>s r. r \<in> set (cv_rules v k') \<longrightarrow> \<not> tagged v (i @ s) r)"
proof -
  let ?nl = "CHR 0x0A"
  let ?lines = "(''-N '' @ chain) # map (cv_show v) (cv_rules v k) @ [[]]"
  have "\<forall>p\<in>set ?lines. ?nl \<notin> set p"
    using assms(3) by (auto simp: list_all_iff prints_plain_def chain_def)
  then have sp: "split ?nl (join [?nl] ?lines) = ?lines" by (intro split_join) simp_all
  have "exec [''-S'', chain] k = ((join [?nl] ?lines, None), k)"
    using assms(2) unfolding listing_laws_def by blast
  then have f: "flush_server_rules exec i k = (None, flush_lines exec (server_tag i) ?lines k)"
    unfolding flush_server_rules_def by (simp only: prod.case option.case sp)
  have "\<not> contains (''-N '' @ chain) (server_tag i)" by (simp add: chain_def server_tag_def)
  then have step: "flush_lines exec (server_tag i) ?lines k
      = flush_lines exec (server_tag i) (map (cv_show v) (cv_rules v k) @ [[]]) k" by simp
  have r: "cv_rules v (flush_lines exec (server_tag i) ?lines k) = filter (\<lambda>r. \<not> tagged v i r) (cv_rules v k)"
    unfolding step using flush_lines_rules [OF assms(1), of k i "[]" "cv_rules v k"] assms(3)
    by (simp add: list_all_iff)
  have "tagged v (i @ s) r \<Longrightarrow> tagged v i r" for s r
    unfolding tagged_def server_tag_def contains_iff by (metis append.assoc)
  with f r show ?thesis by auto
qed

text \<open>A chain that prints its rules word by word.\<close>

fun demo_exec :: "string list list iptables" where
  "demo_exec (op # ch # spec) k =
     (if op = ''-A'' then (([], None), k @ [spec])
      else if op = ''-I'' then (([], None), spec # k)
      else if op = ''-D'' then (([], if spec \<in> set k then None else Some (ErrExt 1)), remove1 spec k)
      else if op = ''-S'' then
        ((join [CHR 0x0A] ((''-N '' @ chain) # map (\<lambda>r. ''-A AETHERNET_FW '' @ join '' '' r) k @ [[]]), None), k)
      else (([], None), k))"
| "demo_exec _ k = (([], None), k)"

definition demo_view :: "(string list list, string list) chain_view" where
  "demo_view = \<lparr>cv_rules = \<lambda>k. k, cv_parse = Some, cv_show = \<lambda>r. ''-A AETHERNET_FW '' @ join '' '' r\<rparr>"

lemma demo_chain_laws: "chain_laws ch demo_exec demo_view"
  by (auto simp: chain_laws_def demo_view_def)

definition word_ok :: "string \<Rightarrow> bool" where
  "word_ok w \<longleftrightarrow> w \<noteq> [] \<and> list_all (\<lambda>c. \<not> is_space c) w"

lemma str_fields_word:
  assumes "word_ok w"
  shows "str_fields (w @ CHR '' '' # s) = w # str_fields s" and "str_fields w = [w]"
proof -
  obtain c u where w: "w = c # u" "\<not> is_space c" "list_all (\<lambda>c. \<not> is_space c) u"
    using assms by (cases w) (auto simp: word_ok_def)
  then have t: "takeWhile (\<lambda>c. \<not> is_space c) (u @ CHR '' '' # s) = u"
    "dropWhile (\<lambda>c. \<not> is_space c) (u @ CHR '' '' # s) = CHR '' '' # s"
    "takeWhile (\<lambda>c. \<not> is_space c) u = u" "dropWhile (\<lambda>c. \<not> is_space c) u = []"
    by (auto simp: list_all_iff takeWhile_append dropWhile_append is_space_def code_def)
  have "str_fields (CHR '' '' # s) = str_fields s"
    by (subst (1 2) str_fields.simps) (simp add: is_space_def code_def)
  with w t show "str_fields (w @ CHR '' '' # s) = w # str_fields s"
    by (subst str_fields.simps) simp
  have "str_fields [] = []" by (subst str_fields.simps) simp
  with w(1,2) t(3,4) show "str_fields w = [w]"
    by (subst str_fields.simps) (simp del: takeWhile_eq_all_conv dropWhile_eq_Nil_conv)
qed

lemma str_fields_join: "list_all word_ok ws \<Longrightarrow> str_fields (join '' '' ws) = ws"
proof (induction ws rule: induct_list012)
  case 1
  show ?case by (subst str_fields.simps) simp
qed (simp_all add: str_fields_word)

lemma demo_prints: "list_all word_ok r \<Longrightarrow> prints_plain chain demo_view r"
proof -
  assume r: "list_all word_ok r"
  have l: "replace_first (''-A '' @ chain) (''-D '' @ chain) (''-A AETHERNET_FW '' @ join '' '' r)
      = ''-D AETHERNET_FW '' @ join '' '' r"
    by (simp add: chain_def)
  have w: "word_ok ''-D''" "word_ok ''AETHERNET_FW''" by (simp_all add: word_ok_def is_space_def code_def)
  have "str_fields (''-D'' @ CHR '' '' # ''AETHERNET_FW'' @ CHR '' '' # join '' '' r) = ''-D'' # ''AETHERNET_FW'' # r"
    by (simp only: str_fields_word(1) [OF w(1)] str_fields_word(1) [OF w(2)] str_fields_join [OF r])
  moreover have "CHR 0x0A \<notin> set (join '' '' r)"
    using r by (induction r rule: induct_list012) (auto simp: word_ok_def list_all_iff is_space_def code_def)
  ultimately show ?thesis by (simp add: prints_plain_def demo_view_def l chain_def)
qed

text \<open>The rules of two servers, the second with an id that begins with the first one's.\<close>

definition demo_rules :: "string list list" where
  "demo_rules = [[''-p'', ''tcp'', ''--comment'', ''aethernet-srv-s1''],
     [''-p'', ''udp'', ''--comment'', ''aethernet-srv-s17''], [''-p'', ''tcp'', ''--comment'', ''aethernet-srv-s2'']]"

lemma demo_rules_view [simp]: "cv_rules demo_view rs = rs"
  by (simp add: demo_view_def)

theorem flush_removes_tagged_witness:
  "snd (flush_server_rules demo_exec ''s1'' demo_rules) = [[''-p'', ''tcp'', ''--comment'', ''aethernet-srv-s2'']]"
proof -
  have "list_all (list_all word_ok) demo_rules"
    by (simp add: demo_rules_def word_ok_def is_space_def code_def)
  then have "list_all (prints_plain chain demo_view) (cv_rules demo_view demo_rules)"
    unfolding list_all_iff [of _ demo_rules] list_all_iff [of "prints_plain chain demo_view"]
    by (auto intro: demo_prints)
  moreover have "listing_laws chain demo_exec demo_view" by (simp add: listing_laws_def demo_view_def)
  moreover have "filter (\<lambda>r. \<not> tagged demo_view ''s1'' r) demo_rules
      = [[''-p'', ''tcp'', ''--comment'', ''aethernet-srv-s2'']]"
    by (simp add: demo_rules_def tagged_def demo_view_def server_tag_def)
  ultimately show ?thesis
    using flush_removes_tagged [OF demo_chain_laws, where k = demo_rules and i = "''s1''"]
    by auto
qed

end
