(* ===== verification/RateLimit.thy ===== *)
theory RateLimit
  imports Iptables
begin

text \<open>
  daemon/internal/haproxy/ratelimit.go: the list of flooding addresses, each with the time its
  block ends, kept in step with DROP rules in the kernel's INPUT chain. Every operation holds
  the limiter's mutex, so a run of the limiter is a sequence of whole operations. The clock
  values an operation reads are its arguments, and so is \<open>net.ParseIP\<close>'s verdict.
\<close>

record limiter =
  rl_blocked :: "time gomap"
  rl_ttl :: duration

definition new_rate_limiter :: limiter where
  "new_rate_limiter = \<lparr>rl_blocked = mempty, rl_ttl = 5 * 60 * second\<rparr>"

definition limit_spec :: "string \<Rightarrow> string list" where
  "limit_spec ip = drop_spec ip ''aethernet-ratelimit''"

definition ipt_block :: "'k iptables \<Rightarrow> string \<Rightarrow> 'k \<Rightarrow> err \<times> 'k" where
  "ipt_block exec ip k =
     (case exec ([''-I'', ''INPUT''] @ limit_spec ip) k of
        ((out, None), k') \<Rightarrow> (None, k')
      | ((out, Some e), k') \<Rightarrow> (Some (ErrWrap ''iptables: '' e ('': '' @ trim_space out)), k'))"

text \<open>A failure is not an error: the rule may be gone already.\<close>

definition ipt_unblock :: "'k iptables \<Rightarrow> string \<Rightarrow> 'k \<Rightarrow> err \<times> 'k" where
  "ipt_unblock exec ip k = (None, snd (exec ([''-D'', ''INPUT''] @ limit_spec ip) k))"

text \<open>\<open>now1\<close> dates the new end of the block, \<open>now2\<close> is what the old one is compared with.\<close>

definition block_flood_ip ::
  "'k iptables \<Rightarrow> (string \<Rightarrow> bool) \<Rightarrow> time \<Rightarrow> time \<Rightarrow> string \<Rightarrow> limiter \<times> 'k \<Rightarrow> (err \<times> limiter \<times> 'k) option" where
  "block_flood_ip exec parse_ip now1 now2 ip s =
     (case s of (r, k) \<Rightarrow>
        if \<not> parse_ip ip then Some (Some (Errorf (''ratelimit: invalid IP: '' @ ip)), r, k)
        else
          (let until = time_add now1 (rl_ttl r) in
           case mput ip until (rl_blocked r) of
             None \<Rightarrow> None
           | Some b \<Rightarrow>
               (let r' = r\<lparr>rl_blocked := b\<rparr> in
                case mget (rl_blocked r) ip of
                  Some existing \<Rightarrow>
                    if time_after existing now2 then Some (None, r', k)
                    else (case ipt_block exec ip k of (e, k') \<Rightarrow> Some (e, r', k'))
                | None \<Rightarrow> (case ipt_block exec ip k of (e, k') \<Rightarrow> Some (e, r', k')))))"

fun sweep_entries ::
  "'k iptables \<Rightarrow> time \<Rightarrow> (string \<times> time) list \<Rightarrow> limiter \<times> 'k \<Rightarrow> limiter \<times> 'k" where
  "sweep_entries exec now [] s = s"
| "sweep_entries exec now ((ip, until) # es) (r, k) =
     sweep_entries exec now es
       (if time_after now until
        then (r\<lparr>rl_blocked := mdel ip (rl_blocked r)\<rparr>, snd (ipt_unblock exec ip k))
        else (r, k))"

definition unblock_expired :: "'k iptables \<Rightarrow> order \<Rightarrow> time \<Rightarrow> limiter \<times> 'k \<Rightarrow> limiter \<times> 'k" where
  "unblock_expired exec ord now s = sweep_entries exec now (mrange ord (rl_blocked (fst s))) s"

text \<open>\<open>RunExpiryLoop\<close>: one sweep per tick until the context ends.\<close>

fun run_expiry_loop :: "'k iptables \<Rightarrow> (order \<times> time) list \<Rightarrow> limiter \<times> 'k \<Rightarrow> limiter \<times> 'k" where
  "run_expiry_loop exec [] s = s"
| "run_expiry_loop exec ((ord, now) # ticks) s = run_expiry_loop exec ticks (unblock_expired exec ord now s)"

section \<open>Runs\<close>

inductive limiter_step :: "'k iptables \<Rightarrow> (string \<Rightarrow> bool) \<Rightarrow> limiter \<times> 'k \<Rightarrow> limiter \<times> 'k \<Rightarrow> bool"
  for exec :: "'k iptables" and parse_ip :: "string \<Rightarrow> bool" where
  step_block: "block_flood_ip exec parse_ip now1 now2 ip s = Some (e, s') \<Longrightarrow> limiter_step exec parse_ip s s'"
| step_sweep: "permutes ord \<Longrightarrow> limiter_step exec parse_ip s (unblock_expired exec ord now s)"

definition limiter_run :: "'k iptables \<Rightarrow> (string \<Rightarrow> bool) \<Rightarrow> 'k \<Rightarrow> limiter \<times> 'k \<Rightarrow> bool" where
  "limiter_run exec parse_ip k0 s \<longleftrightarrow> (limiter_step exec parse_ip)\<^sup>*\<^sup>* (new_rate_limiter, k0) s"

text \<open>The kernel reads a DROP rule for each address the parser accepts, a different one for each.\<close>

definition rules_per_ip :: "(string \<Rightarrow> bool) \<Rightarrow> ('k, 'r) chain_view \<Rightarrow> (string \<Rightarrow> 'r) \<Rightarrow> bool" where
  "rules_per_ip parse_ip v rule \<longleftrightarrow>
     (\<forall>ip. parse_ip ip \<longrightarrow> cv_parse v (limit_spec ip) = Some (rule ip))
     \<and> (\<forall>ip ip'. parse_ip ip \<longrightarrow> parse_ip ip' \<longrightarrow> rule ip = rule ip' \<longrightarrow> ip = ip')"

lemma rules_per_ipD:
  "rules_per_ip parse_ip v rule \<Longrightarrow> parse_ip ip \<Longrightarrow> cv_parse v (limit_spec ip) = Some (rule ip)"
  "rules_per_ip parse_ip v rule \<Longrightarrow> parse_ip ip \<Longrightarrow> parse_ip ip' \<Longrightarrow> rule ip = rule ip' \<Longrightarrow> ip = ip'"
  unfolding rules_per_ip_def by blast+

lemma ipt_block_rules:
  assumes "chain_laws ''INPUT'' exec v" and "cv_parse v (limit_spec ip) = Some r"
  shows "fst (ipt_block exec ip k) = None" and "cv_rules v (snd (ipt_block exec ip k)) = r # cv_rules v k"
  using chain_insert [OF assms, of k] by (auto simp: ipt_block_def)

lemma ipt_unblock_rules:
  assumes "chain_laws ''INPUT'' exec v" and "cv_parse v (limit_spec ip) = Some r"
  shows "cv_rules v (snd (ipt_unblock exec ip k)) = remove1 r (cv_rules v k)"
  using chain_delete [OF assms, of k] by (auto simp: ipt_unblock_def)

text \<open>The invariant: the limiter's map can be written, holds addresses only, and each has its rule.\<close>

definition limiter_ok :: "(string \<Rightarrow> bool) \<Rightarrow> ('k, 'r) chain_view \<Rightarrow> (string \<Rightarrow> 'r) \<Rightarrow> limiter \<times> 'k \<Rightarrow> bool" where
  "limiter_ok parse_ip v rule s \<longleftrightarrow> map_ok (rl_blocked (fst s)) \<and>
     (\<forall>ip t. mget (rl_blocked (fst s)) ip = Some t \<longrightarrow> parse_ip ip \<and> rule ip \<in> set (cv_rules v (snd s)))"

lemma limiter_ok_block:
  assumes laws: "chain_laws ''INPUT'' exec v" and ips: "rules_per_ip parse_ip v rule"
    and ok: "limiter_ok parse_ip v rule s" and b: "block_flood_ip exec parse_ip now1 now2 ip s = Some (e, s')"
  shows "limiter_ok parse_ip v rule s'"
proof -
  obtain r k where s: "s = (r, k)" by (cases s)
  show ?thesis
  proof (cases "parse_ip ip")
    case False
    with b ok show ?thesis by (simp add: block_flood_ip_def s)
  next
    case True
    let ?until = "time_add now1 (rl_ttl r)"
    have m: "map_ok (rl_blocked r)" using ok by (simp add: limiter_ok_def s)
    then obtain b' where b': "mput ip ?until (rl_blocked r) = Some b'"
      using tbl.put_total [OF m, of ip ?until] by (elim exE)
    note put = map_ok_mput [OF m b'] mget_mput [OF b']
    note rule = ipt_block_rules [OF laws rules_per_ipD(1) [OF ips True]]
    obtain be k' where bk: "ipt_block exec ip k = (be, k')" by (cases "ipt_block exec ip k")
    then have k': "cv_rules v k' = rule ip # cv_rules v k" using rule(2) [of k] by simp
    consider t where "mget (rl_blocked r) ip = Some t" "s' = (r\<lparr>rl_blocked := b'\<rparr>, k)"
      | "s' = (r\<lparr>rl_blocked := b'\<rparr>, k')"
      using b True b' bk by (auto simp: block_flood_ip_def s Let_def split: option.splits if_splits)
    then show ?thesis
      by cases (use ok put k' True in \<open>auto simp: limiter_ok_def s split: if_splits\<close>)
  qed
qed

lemma limiter_ok_sweep_entries:
  assumes laws: "chain_laws ''INPUT'' exec v" and ips: "rules_per_ip parse_ip v rule"
  shows "\<forall>(ip, t)\<in>set es. parse_ip ip \<Longrightarrow> limiter_ok parse_ip v rule s \<Longrightarrow>
    limiter_ok parse_ip v rule (sweep_entries exec now es s)"
proof (induction es arbitrary: s)
  case Nil
  then show ?case by simp
next
  case (Cons x es)
  obtain ip t where x: "x = (ip, t)" by (cases x)
  obtain r k where s: "s = (r, k)" by (cases s)
  have p: "parse_ip ip" using Cons.prems(1) by (simp add: x)
  have k: "cv_rules v (snd (ipt_unblock exec ip k)) = remove1 (rule ip) (cv_rules v k)"
    by (rule ipt_unblock_rules [OF laws rules_per_ipD(1) [OF ips p]])
  have kept: "rule ip' \<in> set (remove1 (rule ip) rs)" if "parse_ip ip'" "ip' \<noteq> ip" "rule ip' \<in> set rs" for ip' rs
    using that rules_per_ipD(2) [OF ips that(1) p] by (metis in_set_remove1)
  have "limiter_ok parse_ip v rule (r\<lparr>rl_blocked := mdel ip (rl_blocked r)\<rparr>, snd (ipt_unblock exec ip k))"
    using Cons.prems(2) kept unfolding limiter_ok_def s fst_conv snd_conv k
    by (auto split: if_splits)
  with Cons.prems Cons.IH show ?case by (simp add: x s)
qed

lemma limiter_ok_sweep:
  assumes laws: "chain_laws ''INPUT'' exec v" and ips: "rules_per_ip parse_ip v rule"
    and ok: "limiter_ok parse_ip v rule s" and ord: "permutes ord"
  shows "limiter_ok parse_ip v rule (unblock_expired exec ord now s)"
  unfolding unblock_expired_def
  by (rule limiter_ok_sweep_entries [OF laws ips _ ok])
    (use ok ord in \<open>auto simp: set_mrange limiter_ok_def\<close>)


section \<open>Releasing an address\<close>

lemma sweep_entries_other:
  assumes laws: "chain_laws ''INPUT'' exec v" and ips: "rules_per_ip parse_ip v rule" and ip: "parse_ip ip"
  shows "\<forall>(j, t)\<in>set es. parse_ip j \<and> j \<noteq> ip \<Longrightarrow>
    count_list (cv_rules v (snd (sweep_entries exec now es s))) (rule ip) = count_list (cv_rules v (snd s)) (rule ip)
    \<and> mget (rl_blocked (fst (sweep_entries exec now es s))) ip = mget (rl_blocked (fst s)) ip"
proof (induction es arbitrary: s)
  case Nil
  then show ?case by simp
next
  case (Cons x es)
  obtain j t where x: "x = (j, t)" by (cases x)
  obtain r k where s: "s = (r, k)" by (cases s)
  have j: "parse_ip j" "j \<noteq> ip" using Cons.prems by (simp_all add: x)
  then have ne: "rule j \<noteq> rule ip" using rules_per_ipD(2) [OF ips j(1) ip] by blast
  have k: "cv_rules v (snd (ipt_unblock exec j k)) = remove1 (rule j) (cv_rules v k)"
    by (rule ipt_unblock_rules [OF laws rules_per_ipD(1) [OF ips j(1)]])
  from Cons.prems have "\<forall>(j, t)\<in>set es. parse_ip j \<and> j \<noteq> ip" by simp
  from Cons.IH [OF this] j(2) show ?case by (simp add: x s k ne)
qed

text \<open>A sweep takes the rule of an expired address out once, and leaves the others their rules.\<close>

lemma sweep_counts:
  assumes laws: "chain_laws ''INPUT'' exec v" and ips: "rules_per_ip parse_ip v rule" and ip: "parse_ip ip"
    and ok: "limiter_ok parse_ip v rule (r, k)" and ord: "permutes ord"
  shows "count_list (cv_rules v (snd (unblock_expired exec ord now (r, k)))) (rule ip) =
      (case mget (rl_blocked r) ip of
         Some t \<Rightarrow> if now > t then count_list (cv_rules v k) (rule ip) - 1 else count_list (cv_rules v k) (rule ip)
       | None \<Rightarrow> count_list (cv_rules v k) (rule ip))"
    and "mget (rl_blocked (fst (unblock_expired exec ord now (r, k)))) ip =
      (case mget (rl_blocked r) ip of Some t \<Rightarrow> if now > t then None else Some t | None \<Rightarrow> None)"
proof -
  let ?es = "mrange ord (rl_blocked r)"
  have m: "map_ok (rl_blocked r)" and ps: "\<forall>(j, t)\<in>set ?es. parse_ip j"
    using ok ord by (auto simp: limiter_ok_def set_mrange)
  have dist: "distinct (map fst ?es)" by (rule distinct_mrange [OF ord m])
  have cnt1: "count_list (remove1 a xs) a = count_list xs a - 1" for a :: 'b and xs
    by (induction xs) auto
  have app: "sweep_entries exec now (as @ bs) s = sweep_entries exec now bs (sweep_entries exec now as s)" for as bs s
    by (induction as arbitrary: s rule: list.induct) (simp, metis append_Cons prod.exhaust sweep_entries.simps(2))
  note other = sweep_entries_other [OF laws ips ip]
  have "count_list (cv_rules v (snd (sweep_entries exec now ?es (r, k)))) (rule ip) =
      (case mget (rl_blocked r) ip of
         Some t \<Rightarrow> if now > t then count_list (cv_rules v k) (rule ip) - 1 else count_list (cv_rules v k) (rule ip)
       | None \<Rightarrow> count_list (cv_rules v k) (rule ip))
    \<and> mget (rl_blocked (fst (sweep_entries exec now ?es (r, k)))) ip =
      (case mget (rl_blocked r) ip of Some t \<Rightarrow> if now > t then None else Some t | None \<Rightarrow> None)"
  proof (cases "mget (rl_blocked r) ip")
    case None
    then have "\<forall>(j, t)\<in>set ?es. parse_ip j \<and> j \<noteq> ip" using ps ord by (auto simp: set_mrange)
    from other [OF this, of now "(r, k)"] None show ?thesis by simp
  next
    case (Some t)
    then have "(ip, t) \<in> set ?es" using ord by (simp add: set_mrange)
    then obtain as bs where es: "?es = as @ (ip, t) # bs" by (meson split_list)
    have nas: "\<forall>(j, t)\<in>set as. parse_ip j \<and> j \<noteq> ip" and nbs: "\<forall>(j, t)\<in>set bs. parse_ip j \<and> j \<noteq> ip"
      using ps dist by (auto simp: es intro: rev_image_eqI)
    obtain r1 k1 where s1: "sweep_entries exec now as (r, k) = (r1, k1)" by fastforce
    with other [OF nas, of now "(r, k)"] Some
    have one: "count_list (cv_rules v k1) (rule ip) = count_list (cv_rules v k) (rule ip)"
      "mget (rl_blocked r1) ip = Some t" by simp_all
    have k1': "cv_rules v (snd (ipt_unblock exec ip k1)) = remove1 (rule ip) (cv_rules v k1)"
      by (rule ipt_unblock_rules [OF laws rules_per_ipD(1) [OF ips ip]])
    show ?thesis
      unfolding es app s1 sweep_entries.simps(2)
      using other [OF nbs] one Some k1' cnt1 by (simp add: time_after_def)
  qed
  then show "count_list (cv_rules v (snd (unblock_expired exec ord now (r, k)))) (rule ip) =
      (case mget (rl_blocked r) ip of
         Some t \<Rightarrow> if now > t then count_list (cv_rules v k) (rule ip) - 1 else count_list (cv_rules v k) (rule ip)
       | None \<Rightarrow> count_list (cv_rules v k) (rule ip))"
    and "mget (rl_blocked (fst (unblock_expired exec ord now (r, k)))) ip =
      (case mget (rl_blocked r) ip of Some t \<Rightarrow> if now > t then None else Some t | None \<Rightarrow> None)"
    by (simp_all add: unblock_expired_def)
qed

lemma limiter_run_ok:
  assumes "chain_laws ''INPUT'' exec v" and "rules_per_ip parse_ip v rule" and "limiter_run exec parse_ip k0 s"
  shows "limiter_ok parse_ip v rule s"
  using assms(3) unfolding limiter_run_def
proof (induction rule: rtranclp_induct)
  case base
  show ?case by (simp add: limiter_ok_def new_rate_limiter_def)
next
  case (step s s')
  from step.hyps(2) step.IH show ?case
    by cases (auto intro: limiter_ok_block [OF assms(1,2)] limiter_ok_sweep [OF assms(1,2)])
qed

text \<open>A block of an address without a running one puts a rule in front and an entry in the map.\<close>

lemma block_inserts:
  assumes laws: "chain_laws ''INPUT'' exec v" and ips: "rules_per_ip parse_ip v rule" and ip: "parse_ip ip"
    and ok: "limiter_ok parse_ip v rule (r, k)"
    and idle: "\<forall>t. mget (rl_blocked r) ip = Some t \<longrightarrow> t \<le> now2"
  shows "\<exists>r' k'. block_flood_ip exec parse_ip now1 now2 ip (r, k) = Some (None, r', k')
    \<and> limiter_ok parse_ip v rule (r', k') \<and> mget (rl_blocked r') ip = Some (now1 + rl_ttl r)
    \<and> cv_rules v k' = rule ip # cv_rules v k"
proof -
  let ?until = "time_add now1 (rl_ttl r)"
  have m: "map_ok (rl_blocked r)" using ok by (simp add: limiter_ok_def)
  then obtain b' where b': "mput ip ?until (rl_blocked r) = Some b'"
    using tbl.put_total [OF m, of ip ?until] by (elim exE)
  note rules = ipt_block_rules [OF laws rules_per_ipD(1) [OF ips ip], of k]
  obtain k' where k': "ipt_block exec ip k = (None, k')" using rules(1) by (metis prod.collapse)
  have "block_flood_ip exec parse_ip now1 now2 ip (r, k) = Some (None, r\<lparr>rl_blocked := b'\<rparr>, k')"
    using idle ip b' k' by (auto simp: block_flood_ip_def Let_def time_after_def split: option.split)
  from this limiter_ok_block [OF laws ips ok this] show ?thesis
    using rules(2) k' by (auto simp: mget_mput [OF b'] time_add_def)
qed

text \<open>A block ends: an address without a rule that is reported once is dropped at once, still
  dropped at every sweep up to the end of its time, and released by the first one after it.\<close>

theorem block_released:
  assumes "chain_laws ''INPUT'' exec v" and "rules_per_ip parse_ip v rule" and "parse_ip ip"
    and "limiter_run exec parse_ip k0 (r, k)" and "rule ip \<notin> set (cv_rules v k)"
  shows "\<exists>s. block_flood_ip exec parse_ip now1 now2 ip (r, k) = Some (None, s) \<and> rule ip \<in> set (cv_rules v (snd s))
    \<and> (\<forall>ord now. permutes ord \<longrightarrow>
        (rule ip \<in> set (cv_rules v (snd (unblock_expired exec ord now s))) \<longleftrightarrow> now \<le> now1 + rl_ttl r))"
proof -
  note ok = limiter_run_ok [OF assms(1,2,4)]
  then have "mget (rl_blocked r) ip = None" using assms(5) by (auto simp: limiter_ok_def)
  then obtain r' k' where b: "block_flood_ip exec parse_ip now1 now2 ip (r, k) = Some (None, r', k')"
    "limiter_ok parse_ip v rule (r', k')" "mget (rl_blocked r') ip = Some (now1 + rl_ttl r)"
    "cv_rules v k' = rule ip # cv_rules v k"
    using block_inserts [OF assms(1-3) ok, of now2 now1] by auto
  have "count_list (cv_rules v k) (rule ip) = 0" using assms(5) by (simp add: count_list_0_iff)
  with b(4) have "count_list (cv_rules v k') (rule ip) = 1" by simp
  with b(3) have "count_list (cv_rules v (snd (unblock_expired exec ord now (r', k')))) (rule ip)
      = (if now > now1 + rl_ttl r then 0 else 1)" if "permutes ord" for ord now
    using sweep_counts(1) [OF assms(1-3) b(2) that, of now] by simp
  then have "rule ip \<in> set (cv_rules v (snd (unblock_expired exec ord now (r', k')))) \<longleftrightarrow> now \<le> now1 + rl_ttl r"
    if "permutes ord" for ord now
    using that count_list_0_iff [of "cv_rules v (snd (unblock_expired exec ord now (r', k')))" "rule ip"]
    by (auto simp: not_less split: if_splits)
  with b show ?thesis by (intro exI [of _ "(r', k')"]) simp
qed

text \<open>A second block can last for ever: when an address is reported again after its time is over
  and before a sweep has taken it out, a second rule is inserted for it. Sweeps delete one
  rule per entry, so however many follow, the address stays dropped.\<close>

theorem reblock_leaks:
  assumes "chain_laws ''INPUT'' exec v" and "rules_per_ip parse_ip v rule" and "parse_ip ip"
    and "limiter_run exec parse_ip k0 (r, k)" and "mget (rl_blocked r) ip = Some until" and "until \<le> now2"
  shows "\<exists>s. block_flood_ip exec parse_ip now1 now2 ip (r, k) = Some (None, s)
    \<and> (\<forall>ticks. list_all (\<lambda>(ord, _). permutes ord) ticks \<longrightarrow>
        rule ip \<in> set (cv_rules v (snd (run_expiry_loop exec ticks s))))"
proof -
  note ok = limiter_run_ok [OF assms(1,2,4)]
  obtain r' k' where b: "block_flood_ip exec parse_ip now1 now2 ip (r, k) = Some (None, r', k')"
    "limiter_ok parse_ip v rule (r', k')" "mget (rl_blocked r') ip = Some (now1 + rl_ttl r)"
    "cv_rules v k' = rule ip # cv_rules v k"
    using block_inserts [OF assms(1-3) ok, of now2 now1] assms(5,6) by auto
  have "rule ip \<in> set (cv_rules v k)" using ok assms(5) by (auto simp: limiter_ok_def)
  then have two: "count_list (cv_rules v k') (rule ip) \<ge> 2"
    using b(4) count_list_0_iff [of "cv_rules v k" "rule ip"] by simp
  let ?inv = "\<lambda>s. limiter_ok parse_ip v rule s \<and>
    count_list (cv_rules v (snd s)) (rule ip) \<ge> (if mget (rl_blocked (fst s)) ip = None then 1 else 2)"
  have "rule ip \<in> set (cv_rules v (snd (run_expiry_loop exec ticks s)))"
    if "list_all (\<lambda>(ord, _). permutes ord) ticks" "?inv s" for ticks s
    using that
  proof (induction ticks arbitrary: s)
    case Nil
    then have "count_list (cv_rules v (snd s)) (rule ip) \<noteq> 0" by (auto split: if_splits)
    then show ?case by (simp add: count_list_0_iff)
  next
    case (Cons x ticks)
    obtain ord now where x: "x = (ord, now)" by (cases x)
    obtain rs ks where s: "s = (rs, ks)" by (cases s)
    have p: "permutes ord" using Cons.prems(1) by (simp add: x)
    have oks: "limiter_ok parse_ip v rule (rs, ks)" using Cons.prems(2) s by simp
    have "?inv (unblock_expired exec ord now s)"
      using Cons.prems(2) limiter_ok_sweep [OF assms(1,2) oks p, of now]
        sweep_counts [OF assms(1-3) oks p, of now]
      by (auto simp: s split: option.splits if_splits)
    with Cons show ?case by (simp add: x)
  qed
  from this [of _ "(r', k')"] b two show ?thesis by (intro exI [of _ "(r', k')"]) simp
qed

section \<open>A run\<close>

text \<open>One address reported at time 0, on the chain that keeps its specifications.\<close>

definition flood :: "limiter \<times> string list list" where
  "flood = (new_rate_limiter\<lparr>rl_blocked := GoMap [(''10.0.0.9'', 300 * second)]\<rparr>, [limit_spec ''10.0.0.9''])"

lemma demo_rules_per_ip: "rules_per_ip (\<lambda>_. True) demo_view limit_spec"
  by (simp add: rules_per_ip_def demo_view_def limit_spec_def drop_spec_def)

lemma flood_run: "limiter_run demo_exec (\<lambda>_. True) [] flood" "limiter_run demo_exec (\<lambda>_. True) [] (new_rate_limiter, [])"
proof -
  have "block_flood_ip demo_exec (\<lambda>_. True) 0 0 ''10.0.0.9'' (new_rate_limiter, []) = Some (None, flood)"
    by (simp add: block_flood_ip_def new_rate_limiter_def mempty_def ipt_block_def flood_def time_add_def Let_def)
  then have "limiter_step demo_exec (\<lambda>_. True) (new_rate_limiter, []) flood" by (rule step_block)
  then show "limiter_run demo_exec (\<lambda>_. True) [] flood" "limiter_run demo_exec (\<lambda>_. True) [] (new_rate_limiter, [])"
    by (auto simp: limiter_run_def)
qed

lemma flood_parts [simp]: "mget (rl_blocked (fst flood)) ''10.0.0.9'' = Some (300 * second)"
  by (simp add: flood_def)


theorem block_released_witness:
  "\<exists>s. block_flood_ip demo_exec (\<lambda>_. True) 0 0 ''10.0.0.9'' (new_rate_limiter, []) = Some (None, s)
     \<and> limit_spec ''10.0.0.9'' \<notin> set (snd (unblock_expired demo_exec rev (301 * second) s))"
proof -
  have "\<not> 301 * second \<le> 0 + rl_ttl new_rate_limiter" by (simp add: new_rate_limiter_def second_def)
  with block_released [OF demo_chain_laws demo_rules_per_ip TrueI flood_run(2), of "''10.0.0.9''" 0 0]
  show ?thesis by fastforce
qed

theorem reblock_leaks_witness:
  "\<exists>s. block_flood_ip demo_exec (\<lambda>_. True) (310 * second) (310 * second) ''10.0.0.9'' flood = Some (None, s)
     \<and> limit_spec ''10.0.0.9'' \<in> set (snd (run_expiry_loop demo_exec [(rev, 700 * second), (rev, 800 * second)] s))"
proof -
  have run: "limiter_run demo_exec (\<lambda>_. True) [] (fst flood, snd flood)" using flood_run(1) by simp
  have "300 * second \<le> 310 * second" by (simp add: second_def)
  from reblock_leaks [OF demo_chain_laws demo_rules_per_ip TrueI run flood_parts this, of "310 * second"]
  obtain s where s: "block_flood_ip demo_exec (\<lambda>_. True) (310 * second) (310 * second) ''10.0.0.9'' (fst flood, snd flood)
      = Some (None, s)"
    "\<forall>ticks. list_all (\<lambda>(ord, _). permutes ord) ticks \<longrightarrow>
       limit_spec ''10.0.0.9'' \<in> set (cv_rules demo_view (snd (run_expiry_loop demo_exec ticks s)))" by blast
  from s(2) [THEN spec, of "[(rev, 700 * second), (rev, 800 * second)]"] s(1) show ?thesis
    by (intro exI [of _ s]) simp
qed

end
