(* ===== verification/Redis.thy ===== *)
theory Redis
  imports GoStrings
begin

text \<open>
  daemon/internal/database/redis.go: the helpers over the Redis client, and the lock made of them.
  The commands the client sends are a record of functions on the server's state; a missing key is
  the error \<open>redis.Nil\<close>.
\<close>

section \<open>The client\<close>

definition redis_nil :: go_error where
  "redis_nil = Errorf ''redis: nil''"

record 'r redis_ops =
  rd_ping :: "'r \<Rightarrow> err \<times> 'r"
  rd_set_nx :: "string \<Rightarrow> string \<Rightarrow> duration \<Rightarrow> 'r \<Rightarrow> bool result \<times> 'r"
  rd_get :: "string \<Rightarrow> 'r \<Rightarrow> string result \<times> 'r"
  rd_set :: "string \<Rightarrow> string \<Rightarrow> duration \<Rightarrow> 'r \<Rightarrow> err \<times> 'r"
  rd_del :: "string list \<Rightarrow> 'r \<Rightarrow> err \<times> 'r"
  rd_exists :: "string \<Rightarrow> 'r \<Rightarrow> nat result \<times> 'r"
  rd_ttl :: "string \<Rightarrow> 'r \<Rightarrow> duration result \<times> 'r"
  rd_publish :: "string \<Rightarrow> string \<Rightarrow> 'r \<Rightarrow> err \<times> 'r"
  rd_close :: "'r \<Rightarrow> err \<times> 'r"

definition new_redis_client :: "'r redis_ops \<Rightarrow> string list \<Rightarrow> 'r \<Rightarrow> err \<times> 'r" where
  "new_redis_client rd addrs r =
     (if addrs = [] then (Some (Errorf ''redis: no addresses configured''), r)
      else case rd_ping rd r of
             (Some e, r') \<Rightarrow> (Some (ErrWrap ''redis: ping failed: '' e []), r')
           | (None, r') \<Rightarrow> (None, r'))"

definition redis_set_nx :: "'r redis_ops \<Rightarrow> string \<Rightarrow> string \<Rightarrow> duration \<Rightarrow> 'r \<Rightarrow> bool result \<times> 'r" where
  "redis_set_nx rd = rd_set_nx rd"

text \<open>\<open>Get\<close> of a missing key is the empty string; \<open>GetBytes\<close> differs in the type only.\<close>

definition redis_get :: "'r redis_ops \<Rightarrow> string \<Rightarrow> 'r \<Rightarrow> string result \<times> 'r" where
  "redis_get rd key r =
     (case rd_get rd key r of
        (Inl e, r') \<Rightarrow> (if e = redis_nil then Inr [] else Inl e, r')
      | (Inr v, r') \<Rightarrow> (Inr v, r'))"

definition redis_set :: "'r redis_ops \<Rightarrow> string \<Rightarrow> string \<Rightarrow> duration \<Rightarrow> 'r \<Rightarrow> err \<times> 'r" where
  "redis_set rd = rd_set rd"

definition redis_del :: "'r redis_ops \<Rightarrow> string list \<Rightarrow> 'r \<Rightarrow> err \<times> 'r" where
  "redis_del rd = rd_del rd"

definition redis_exists :: "'r redis_ops \<Rightarrow> string \<Rightarrow> 'r \<Rightarrow> bool result \<times> 'r" where
  "redis_exists rd key r = (case rd_exists rd key r of (x, r') \<Rightarrow> (map_sum (\<lambda>e. e) (\<lambda>n. 0 < n) x, r'))"

definition redis_ttl :: "'r redis_ops \<Rightarrow> string \<Rightarrow> 'r \<Rightarrow> duration result \<times> 'r" where
  "redis_ttl rd = rd_ttl rd"

definition redis_close :: "'r redis_ops \<Rightarrow> 'r \<Rightarrow> err \<times> 'r" where
  "redis_close rd = rd_close rd"

definition redis_publish :: "'r redis_ops \<Rightarrow> string \<Rightarrow> string \<Rightarrow> 'r \<Rightarrow> err \<times> 'r" where
  "redis_publish rd = rd_publish rd"

definition acquire_lock :: "'r redis_ops \<Rightarrow> string \<Rightarrow> duration \<Rightarrow> 'r \<Rightarrow> bool result \<times> 'r" where
  "acquire_lock rd key ttl = redis_set_nx rd key ''1'' ttl"

definition release_lock :: "'r redis_ops \<Rightarrow> string \<Rightarrow> 'r \<Rightarrow> err \<times> 'r" where
  "release_lock rd key = redis_del rd [key]"

text \<open>What the \<open>select\<close> of \<open>WaitForLockRelease\<close> sees next: a tick, after whatever others did to the
  server, or the end of the context. \<open>None\<close>: still waiting.\<close>

datatype 'r wait_event = PollTick "'r \<Rightarrow> 'r" | CtxDone go_error

fun wait_for_lock_release :: "'r redis_ops \<Rightarrow> string \<Rightarrow> 'r wait_event list \<Rightarrow> 'r \<Rightarrow> (err \<times> 'r) option" where
  "wait_for_lock_release rd key [] r = None"
| "wait_for_lock_release rd key (CtxDone e # evs) r = Some (Some e, r)"
| "wait_for_lock_release rd key (PollTick others # evs) r =
     (case redis_exists rd key (others r) of
        (Inl e, r') \<Rightarrow> Some (Some e, r')
      | (Inr True, r') \<Rightarrow> wait_for_lock_release rd key evs r'
      | (Inr False, r') \<Rightarrow> Some (None, r'))"

section \<open>The lock\<close>

text \<open>What Redis documents of the commands, on the live keys \<open>view r\<close>: \<open>SET NX\<close> sets a key that is not
  there and says so, \<open>DEL\<close> removes, \<open>EXISTS\<close> counts. A command that fails may have any effect.\<close>

definition redis_laws :: "'r redis_ops \<Rightarrow> ('r \<Rightarrow> string \<Rightarrow> string option) \<Rightarrow> bool" where
  "redis_laws rd view \<longleftrightarrow>
     (\<forall>k v ttl r b r'. rd_set_nx rd k v ttl r = (Inr b, r') \<longrightarrow>
        b = (view r k = None) \<and> view r' = (if b then (view r)(k \<mapsto> v) else view r))
     \<and> (\<forall>ks r r'. rd_del rd ks r = (None, r') \<longrightarrow> view r' = (view r) |` (- set ks))
     \<and> (\<forall>k r n r'. rd_exists rd k r = (Inr n, r') \<longrightarrow> (0 < n) = (view r k \<noteq> None) \<and> view r' = view r)"

lemma acquire_law:
  assumes "redis_laws rd view" and "acquire_lock rd key ttl r = (Inr b, r')"
  shows "b = (view r key = None) \<and> view r' = (if b then (view r)(key \<mapsto> ''1'') else view r)"
  using assms(1) [unfolded redis_laws_def, THEN conjunct1] assms(2)
  unfolding acquire_lock_def redis_set_nx_def by blast

lemma release_law:
  assumes "redis_laws rd view" and "release_lock rd key r = (None, r')"
  shows "view r' = (view r) |` (- {key})"
proof -
  have "view r' = (view r) |` (- set [key])"
    using assms(1) [unfolded redis_laws_def, THEN conjunct2, THEN conjunct1] assms(2)
    unfolding release_lock_def redis_del_def by blast
  then show ?thesis by simp
qed

lemma exists_law:
  assumes "redis_laws rd view" and "redis_exists rd key r = (Inr b, r')"
  shows "b = (view r' key \<noteq> None)"
proof -
  obtain x where x: "rd_exists rd key r = (x, r')" using assms(2) by (auto simp: redis_exists_def split: prod.splits)
  with assms(2) obtain n where "x = Inr n" "b = (0 < n)" by (cases x) (auto simp: redis_exists_def)
  with assms(1) [unfolded redis_laws_def, THEN conjunct2, THEN conjunct2] x show ?thesis by metis
qed

text \<open>The lock is given to one at a time, and kept by nobody: it is acquired exactly when it is free, a
  second attempt fails while it is held, and a release by anyone at all frees it, also for the
  one who lost it to the time limit and releases what another has acquired since.\<close>

theorem lock_contract:
  assumes "redis_laws rd view"
    and "acquire_lock rd key ttl r = (Inr got, r1)"
    and "acquire_lock rd key ttl' r1 = (Inr got', r2)"
    and "release_lock rd key r2 = (None, r3)"
    and "acquire_lock rd key ttl'' r3 = (Inr got'', r4)"
  shows "got = (view r key = None) \<and> got' = False \<and> got'' = True \<and> view r4 key = Some ''1''
    \<and> (\<forall>k. k \<noteq> key \<longrightarrow> view r4 k = view r k)"
proof -
  note 1 = acquire_law [OF assms(1,2)]
  then have held: "view r1 key \<noteq> None" by auto
  note 2 = acquire_law [OF assms(1,3)]
  note 3 = release_law [OF assms(1,4)]
  note 4 = acquire_law [OF assms(1,5)]
  show ?thesis using 1 held 2 3 4 by (auto simp: restrict_map_def)
qed

text \<open>A wait that ends without an error has seen the lock free.\<close>

theorem wait_sees_free:
  assumes "redis_laws rd view" and "wait_for_lock_release rd key evs r = Some (None, r')"
  shows "view r' key = None"
  using assms(2)
proof (induction evs arbitrary: r)
  case (Cons ev evs)
  show ?case
  proof (cases ev)
    case (PollTick others)
    obtain x r1 where x: "redis_exists rd key (others r) = (x, r1)" by fastforce
    show ?thesis
    proof (cases x)
      case (Inr b)
      with Cons PollTick x exists_law [OF assms(1) x [unfolded Inr]] show ?thesis by (cases b) auto
    qed (use Cons PollTick x in simp)
  qed (use Cons in simp)
qed simp

section \<open>A server in memory\<close>

definition mem_redis :: "(string \<rightharpoonup> string) redis_ops" where
  "mem_redis = \<lparr>rd_ping = \<lambda>r. (None, r),
     rd_set_nx = \<lambda>k v ttl r. (if r k = None then (Inr True, r(k \<mapsto> v)) else (Inr False, r)),
     rd_get = \<lambda>k r. (case r k of None \<Rightarrow> Inl redis_nil | Some v \<Rightarrow> Inr v, r),
     rd_set = \<lambda>k v ttl r. (None, r(k \<mapsto> v)), rd_del = \<lambda>ks r. (None, r |` (- set ks)),
     rd_exists = \<lambda>k r. (Inr (if r k = None then 0 else 1), r), 
     rd_ttl = \<lambda>k r. (Inr (-1), r), rd_publish = \<lambda>c m r. (None, r), rd_close = \<lambda>r. (None, r)\<rparr>"

lemma mem_redis_laws: "redis_laws mem_redis (\<lambda>r. r)"
  by (simp add: redis_laws_def mem_redis_def)

theorem lock_contract_witness:
  "(let r1 = snd (acquire_lock mem_redis ''world'' 30 Map.empty); r2 = snd (acquire_lock mem_redis ''world'' 30 r1);
        r3 = snd (release_lock mem_redis ''world'' r2) in snd (acquire_lock mem_redis ''world'' 30 r3) ''world'' = Some ''1'')"
proof -
  have "acquire_lock mem_redis ''world'' 30 Map.empty = (Inr True, [''world'' \<mapsto> ''1''])"
    and "acquire_lock mem_redis ''world'' 30 [''world'' \<mapsto> ''1''] = (Inr False, [''world'' \<mapsto> ''1''])"
    and "release_lock mem_redis ''world'' [''world'' \<mapsto> ''1''] = (None, Map.empty)"
    by (simp_all add: acquire_lock_def redis_set_nx_def release_lock_def redis_del_def mem_redis_def restrict_map_def fun_eq_iff)
  with lock_contract [OF mem_redis_laws, of "''world''" 30 Map.empty True "[''world'' \<mapsto> ''1'']" 30 False "[''world'' \<mapsto> ''1'']" Map.empty 30 True "[''world'' \<mapsto> ''1'']"]
  show ?thesis by simp
qed

end
