(* ===== verification/Sftp.thy ===== *)
theory Sftp
  imports Docker SchedulerTheorems
begin

text \<open>
  daemon/internal/sftp (chroot.go, server.go): the SFTP service. \<open>resolve\<close> maps the path of a
  request below the directory of the server, the four handlers act on the resolved path, and
  a login is the id of a server and a user name whose key file is read from the disk. The
  ssh library's key parser and the file contents are parameters.
\<close>

section \<open>The file handlers\<close>

definition sftp_resolve :: "string \<Rightarrow> string \<Rightarrow> string result" where
  "sftp_resolve base req_path =
     (let clean = path_clean (''/'' @ req_path); full = path_join [base, clean] in
      rbind (path_rel base full) (\<lambda>rel.
        if has_prefix rel ''..'' then Inl (Errorf ''path escapes chroot'') else Inr full))"

record sftp_request =
  rq_method :: string
  rq_filepath :: string
  rq_target :: string

definition fileread :: "'f os_ops \<Rightarrow> string \<Rightarrow> sftp_request \<Rightarrow> 'f \<Rightarrow> nat result \<times> 'f" where
  "fileread os base r fs =
     (case sftp_resolve base (rq_filepath r) of
        Inl e \<Rightarrow> (Inl e, fs)
      | Inr p \<Rightarrow> os_open os p fs)"

definition filewrite :: "'f os_ops \<Rightarrow> string \<Rightarrow> sftp_request \<Rightarrow> 'f \<Rightarrow> nat result \<times> 'f" where
  "filewrite os base r fs =
     (case sftp_resolve base (rq_filepath r) of
        Inl e \<Rightarrow> (Inl e, fs)
      | Inr p \<Rightarrow>
          (case os_mkdir_all os (path_dir p) fs of
             (Some e, fs') \<Rightarrow> (Inl e, fs')
           | (None, fs') \<Rightarrow> os_create os p fs'))"

definition filecmd :: "'f os_ops \<Rightarrow> string \<Rightarrow> sftp_request \<Rightarrow> 'f \<Rightarrow> err \<times> 'f" where
  "filecmd os base r fs =
     (case sftp_resolve base (rq_filepath r) of
        Inl e \<Rightarrow> (Some e, fs)
      | Inr src \<Rightarrow>
          if rq_method r = ''Setstat'' then (None, fs)
          else if rq_method r = ''Rename'' then
            (case sftp_resolve base (rq_target r) of
               Inl e \<Rightarrow> (Some e, fs)
             | Inr dst \<Rightarrow> os_rename os src dst fs)
          else if rq_method r = ''Rmdir'' then os_remove os src fs
          else if rq_method r = ''Mkdir'' then os_mkdir_all os src fs
          else if rq_method r = ''Remove'' then os_remove os src fs
          else (Some (Errorf (''unsupported sftp command: '' @ rq_method r)), fs))"

text \<open>Entries whose \<open>Info\<close> fails are left out.\<close>

fun good_infos :: "file_info result list \<Rightarrow> file_info list" where
  "good_infos [] = []"
| "good_infos (Inl e # es) = good_infos es"
| "good_infos (Inr i # es) = i # good_infos es"

definition filelist :: "'f os_ops \<Rightarrow> string \<Rightarrow> sftp_request \<Rightarrow> 'f \<Rightarrow> file_info list result \<times> 'f" where
  "filelist os base r fs =
     (case sftp_resolve base (rq_filepath r) of
        Inl e \<Rightarrow> (Inl e, fs)
      | Inr p \<Rightarrow>
          if rq_method r = ''List'' then
            (case os_read_dir os p fs of
               (Inl e, fs') \<Rightarrow> (Inl e, fs')
             | (Inr es, fs') \<Rightarrow> (Inr (good_infos es), fs'))
          else if rq_method r = ''Stat'' then
            (case os_stat os p fs of
               (Inl e, fs') \<Rightarrow> (Inl e, fs')
             | (Inr fi, fs') \<Rightarrow> (Inr [fi], fs'))
          else (Inl (Errorf (''unsupported list method: '' @ rq_method r)), fs))"

text \<open>
  \<open>ListAt\<close> into a buffer of \<open>n\<close> entries: those copied and the error. A negative offset is a
  slice out of range, \<open>None\<close>.
\<close>

definition list_at :: "file_info list \<Rightarrow> nat \<Rightarrow> int \<Rightarrow> (file_info list \<times> err) option" where
  "list_at l n off =
     (if off \<ge> int (length l) then Some ([], Some ErrEOF)
      else if off < 0 then None
      else let got = take n (drop (nat off) l)
           in Some (got, if length got < n then Some ErrEOF else None))"

section \<open>Logins\<close>

definition split_user :: "string \<Rightarrow> (string \<times> string) option" where
  "split_user u =
     (case index_byte u CHR ''.'' of
        None \<Rightarrow> None
      | Some i \<Rightarrow>
          if i = 0 \<or> i = length u - 1 then None else Some (take i u, drop (Suc i) u))"

definition newline :: string where
  "newline = [char_of (10 :: nat)]"

definition banner :: "string \<Rightarrow> string op" where
  "banner user =
     (case split_user user of
        None \<Rightarrow> ret (''AetherNet SFTP '' @ em_dash @ '' expected user format <server-id>.<username>'' @ newline)
      | Some (server_id, _) \<Rightarrow>
          andthen (read_fsm (\<lambda>_. fsm_server server_id)) (\<lambda>srv.
            case srv of
              None \<Rightarrow> ret (''AetherNet SFTP '' @ em_dash @ '' unknown server '' @ [char_of (39 :: nat)]
                @ server_id @ [char_of (39 :: nat)] @ newline)
            | Some _ \<Rightarrow> andthen (read_fsm fsm_nodes) (\<lambda>_. ret [])))"

text \<open>
  \<open>ssh.ParseAuthorizedKey\<close> gives the first key of a file and the bytes behind it. Without a
  guarantee that these are fewer the loop may go on for ever, which is \<open>None\<close>.
\<close>

record 'k ssh_lib =
  ssh_parse :: "u8 list \<Rightarrow> ('k \<times> u8 list) result"
  ssh_marshal :: "'k \<Rightarrow> u8 list"

partial_function (option) parse_keys :: "'k ssh_lib \<Rightarrow> u8 list \<Rightarrow> 'k list \<Rightarrow> 'k list option" where
  "parse_keys ssh rest out =
     (if rest = [] then Some out
      else case ssh_parse ssh rest of
             Inl _ \<Rightarrow> Some out
           | Inr (k, leftover) \<Rightarrow> parse_keys ssh leftover (out @ [k]))"

definition key_path :: "string \<Rightarrow> string \<Rightarrow> string \<Rightarrow> string" where
  "key_path keys_dir server_id username = path_join [keys_dir, server_id, username @ ''.pub'']"

definition load_authorized_key ::
  "'k ssh_lib \<Rightarrow> (string \<Rightarrow> u8 list result) \<Rightarrow> string \<Rightarrow> string \<Rightarrow> string \<Rightarrow> 'k list result option" where
  "load_authorized_key ssh read_file keys_dir server_id username =
     (let path = key_path keys_dir server_id username in
      case read_file path of
        Inl e \<Rightarrow> Some (Inl e)
      | Inr data \<Rightarrow> map_option (\<lambda>out.
          if out = [] then Inl (Errorf (''no parsable keys in '' @ path)) else Inr out)
          (parse_keys ssh data []))"

definition key_equal :: "'k ssh_lib \<Rightarrow> 'k \<Rightarrow> 'k \<Rightarrow> bool" where
  "key_equal ssh a b \<longleftrightarrow> ssh_marshal ssh a = ssh_marshal ssh b"

text \<open>
  The result of \<open>os.Stat\<close> in \<open>serverIsLocal\<close> is thrown away; its argument is computed all the
  same, which a nil controller does not survive (\<open>None\<close>).
\<close>

definition server_is_local :: "controller \<Rightarrow> string \<Rightarrow> bool option" where
  "server_is_local docker node_id =
     (if node_id = [] then Some False else map_option (\<lambda>_. True) (container_data_path docker node_id))"

text \<open>The permissions of a session: the server it may use and the user's name.\<close>

record permissions =
  perm_server_id :: string
  perm_username :: string

definition auth_public_key ::
  "'k ssh_lib \<Rightarrow> (string \<Rightarrow> u8 list result) \<Rightarrow> string \<Rightarrow> controller \<Rightarrow> string \<Rightarrow> 'k \<Rightarrow> permissions result op" where
  "auth_public_key ssh read_file keys_dir docker user key =
     (case split_user user of
        None \<Rightarrow> ret (Inl (Errorf ''malformed user''))
      | Some (server_id, username) \<Rightarrow>
          andthen (read_fsm (\<lambda>_. fsm_server server_id)) (\<lambda>srv.
            case srv of
              None \<Rightarrow> ret (Inl (Errorf ''unknown server''))
            | Some v \<Rightarrow>
                (case server_is_local docker (sv_node_id v) of
                   None \<Rightarrow> (\<lambda>E W. None)
                 | Some False \<Rightarrow> ret (Inl (Errorf (''server '' @ server_id @ '' is hosted on another node'')))
                 | Some True \<Rightarrow> (\<lambda>E W. map_option (\<lambda>r. (rbind r (\<lambda>ks.
                       if list_ex (\<lambda>ak. key_equal ssh ak key) ks
                       then Inr \<lparr>perm_server_id = server_id, perm_username = username\<rparr>
                       else Inl (Errorf ''key not authorized'')), W))
                     (load_authorized_key ssh read_file keys_dir server_id username)))))"

text \<open>
  A session: the directory it is confined to (\<open>ContainerDataPath\<close>), whether a request on its
  channel is granted, and the handlers, which are started without waiting for one.
\<close>

definition session_dir :: "controller \<Rightarrow> permissions \<Rightarrow> string option option" where
  "session_dir docker p =
     map_option (\<lambda>d. if d = [] then None else Some d) (container_data_path docker (perm_server_id p))"

definition grants :: "string \<Rightarrow> string \<Rightarrow> bool" where
  "grants req_type payload \<longleftrightarrow> req_type = ''subsystem'' \<and> length payload \<ge> 4 \<and> drop 4 payload = ''sftp''"

section \<open>Confinement\<close>

text \<open>Which requests are refused: those whose first name begins with two dots.\<close>

definition dotted :: "string \<Rightarrow> bool" where
  "dotted p \<longleftrightarrow> (case elems (''/'' @ p) of [] \<Rightarrow> False | e # _ \<Rightarrow> has_prefix e ''..'')"

lemma sftp_resolve_eq:
  assumes "rooted base"
  shows "sftp_resolve base p =
    (if dotted p then Inl (Errorf ''path escapes chroot'')
     else Inr (path_join [base, path_clean (''/'' @ p)]))"
proof -
  note j = join_below [OF assms, of p]
  have "has_prefix (join ''/'' (e # es)) ''..'' \<longleftrightarrow> has_prefix e ''..''" for e es
    by (rule has_prefix_join) simp
  then show ?thesis
    unfolding sftp_resolve_def Let_def path_rel_below [OF assms j(2,1)]
    by (simp add: dotted_def split: list.split)
qed

lemma resolved_below: "rooted base \<Longrightarrow> sftp_resolve base p = Inr full \<Longrightarrow> below base full"
  using join_below [of base p] by (auto simp: sftp_resolve_eq below_def split: if_splits)

text \<open>C27. Requests are confined: for a server directory given as an absolute path, a request resolves to
  that directory followed by the names left of the request's path once \<open>.\<close> and \<open>..\<close> are
  taken out, so no request leads out of it. It is refused exactly when the first of these
  names begins with two dots, which refuses files such as \<open>..cache\<close> and nothing harmful.\<close>

theorem sftp_resolve_confined:
  assumes "rooted base"
  shows "(if dotted p then sftp_resolve base p = Inl (Errorf ''path escapes chroot'')
      else \<exists>full. sftp_resolve base p = Inr full \<and> rooted full \<and> elems full = elems base @ elems (''/'' @ p))
    \<and> list_all plain (elems (''/'' @ p))"
  using join_below [OF assms, of p] elems_plain [of "''/'' @ p"]
  by (simp add: sftp_resolve_eq [OF assms] list_all_iff) (simp add: rooted_def)

theorem sftp_resolve_confined_witness:
  "sftp_resolve ''/data/s1'' ''../../etc/passwd'' = Inr ''/data/s1/etc/passwd''
   \<and> sftp_resolve ''/data/s1'' ''/..cache'' = Inl (Errorf ''path escapes chroot'')"
proof -
  have r: "rooted ''/data/s1''" by (simp add: rooted_def)
  have d: "dotted ''/..cache''" "\<not> dotted ''../../etc/passwd''"
    by (simp_all add: dotted_def elems_def rooted_def)
  have "sftp_resolve ''/data/s1'' ''../../etc/passwd'' = Inr ''/data/s1/etc/passwd''"
    by (simp add: sftp_resolve_eq [OF r] d(2) path_join_def path_clean_def rooted_def elems_def)
  with sftp_resolve_confined [OF r, of "''/..cache''"] d(1) show ?thesis by simp
qed



section \<open>Keys\<close>

text \<open>With a parser that takes bytes off, every key file is read to its end.\<close>

definition parser_shrinks :: "'k ssh_lib \<Rightarrow> bool" where
  "parser_shrinks ssh \<longleftrightarrow> (\<forall>d k r. ssh_parse ssh d = Inr (k, r) \<longrightarrow> length r < length d)"

lemma parse_keys_returns: "parser_shrinks ssh \<Longrightarrow> \<exists>ks. parse_keys ssh rest out = Some ks"
proof (induction "length rest" arbitrary: rest out rule: less_induct)
  case less
  show ?case
  proof (cases "rest = []")
    case True
    then show ?thesis by (subst parse_keys.simps) simp
  next
    case False
    show ?thesis
    proof (cases "ssh_parse ssh rest")
      case (Inl e)
      with False show ?thesis by (subst parse_keys.simps) simp
    next
      case (Inr kr)
      obtain k r where kr: "kr = (k, r)" by (cases kr)
      with Inr less.prems have "length r < length rest" unfolding parser_shrinks_def by blast
      from less.hyps [OF this less.prems] False Inr kr show ?thesis
        by (subst parse_keys.simps) simp
    qed
  qed
qed

lemma split_user_dot: "CHR ''.'' \<notin> set a \<Longrightarrow> a \<noteq> [] \<Longrightarrow> u \<noteq> [] \<Longrightarrow> split_user (a @ CHR ''.'' # u) = Some (a, u)"
  by (simp add: split_user_def index_byte_append)

text \<open>A user name that climbs out of its server's directory names another server's key file.\<close>

lemma key_path_climbs:
  assumes "rooted keys" and "plain a" and "plain b" and "plain (u @ ''.pub'')"
  shows "key_path keys a (''../'' @ b @ ''/'' @ u) = key_path keys b u"
proof -
  have ne: "keys \<noteq> []" using assms(1) by (cases keys) (simp_all add: rooted_def)
  have r: "rooted (keys @ t)" for t using assms(1) by (cases keys) (simp_all add: rooted_def)
  have sp: "split CHR ''/'' e = [e]" if "plain e" for e
    using that by (intro split_no_sep) (simp add: plain_def)
  have dd: "split CHR ''/'' ''..'' = [''..'']" by simp
  have one: "key_path keys b u = path_clean (keys @ CHR ''/'' # b @ CHR ''/'' # u @ ''.pub'')"
    using ne assms(3) by (simp add: key_path_def path_join_def plain_def)
  have two: "key_path keys a (''../'' @ b @ ''/'' @ u)
      = path_clean (keys @ CHR ''/'' # a @ CHR ''/'' # ''..'' @ CHR ''/'' # b @ CHR ''/'' # u @ ''.pub'')"
    using ne assms(2) by (simp add: key_path_def path_join_def plain_def)
  have "elems (keys @ CHR ''/'' # a @ CHR ''/'' # ''..'' @ CHR ''/'' # b @ CHR ''/'' # u @ ''.pub'')
      = elems (keys @ CHR ''/'' # b @ CHR ''/'' # u @ ''.pub'')"
    using plainD [OF assms(2)]
    by (simp only: elems_def r split_append sp [OF assms(2)] sp [OF assms(3)] sp [OF assms(4)] dd
        clean_elems_append) simp
  with path_clean_rooted [OF r] show ?thesis unfolding one two by simp
qed

lemma calm_auth:
  assumes E: "calm E" and u: "split_user user = Some (i, name)"
    and v: "fsm_server i (w_fsm W) = Some v" "sv_node_id v \<noteq> []"
  shows "auth_public_key ssh read_file keys (Some p) user key E W =
    map_option (\<lambda>r. (rbind r (\<lambda>ks.
        if list_ex (\<lambda>ak. key_equal ssh ak key) ks
        then Inr \<lparr>perm_server_id = i, perm_username = name\<rparr>
        else Inl (Errorf ''key not authorized'')), W\<lparr>w_step := Suc (w_step W)\<rparr>))
      (load_authorized_key ssh read_file keys i name)"
  by (simp add: auth_public_key_def u andthen_def calm_simps [OF E] v server_is_local_def container_data_path_def)

text \<open>C29. A key for one server opens every other: whoever may log in as \<open>b.u\<close> may log in, with the
  same key, as \<open>a.../b/u\<close>, and the session it gets is one on server \<open>a\<close>, whose directory
  it is then confined to. (The user name is joined to the key directory unchecked.)\<close>

theorem login_crosses_servers:
  assumes "calm E" and "rooted keys" and "plain a" and "plain b" and "plain (u @ ''.pub'')" and "u \<noteq> []"
    and "CHR ''.'' \<notin> set a" and "CHR ''.'' \<notin> set b"
    and "fsm_server a (w_fsm W) = Some va" and "sv_node_id va \<noteq> []"
    and "fsm_server b (w_fsm W) = Some vb" and "sv_node_id vb \<noteq> []"
    and "auth_public_key ssh read_file keys (Some p) (b @ ''.'' @ u) key E W
      = Some (Inr \<lparr>perm_server_id = b, perm_username = u\<rparr>, W1)"
  shows "auth_public_key ssh read_file keys (Some p) (a @ ''.../'' @ b @ ''/'' @ u) key E W
      = Some (Inr \<lparr>perm_server_id = a, perm_username = ''../'' @ b @ ''/'' @ u\<rparr>, W1)"
proof -
  have ub: "split_user (b @ ''.'' @ u) = Some (b, u)"
    using split_user_dot [OF assms(8) _ assms(6)] assms(4) by (simp add: plain_def)
  have ua: "split_user (a @ ''.../'' @ b @ ''/'' @ u) = Some (a, ''../'' @ b @ ''/'' @ u)"
    using split_user_dot [OF assms(7), of "''../'' @ b @ ''/'' @ u"] assms(3) by (simp add: plain_def)
  have same: "load_authorized_key ssh read_file keys a (''../'' @ b @ ''/'' @ u)
      = load_authorized_key ssh read_file keys b u"
    unfolding load_authorized_key_def key_path_climbs [OF assms(2,3,4,5)] ..
  show ?thesis
    using assms(13)
    unfolding calm_auth [OF assms(1) ub assms(11,12)] calm_auth [OF assms(1) ua assms(9,10)] same
    by (auto simp: rbind_def split: sum.splits if_splits)
qed

text \<open>A daemon that started without docker is crashed by a login: whoever offers any key, for any
  server that is placed on a node, makes the public key callback dereference the nil
  controller before the key is looked at.\<close>

theorem nil_docker_login_crashes:
  assumes "calm E" and "split_user user = Some (i, name)"
    and "fsm_server i (w_fsm W) = Some v" and "sv_node_id v \<noteq> []"
  shows "auth_public_key ssh read_file keys None user key E W = None"
  using assms(2-4)
  by (simp add: auth_public_key_def andthen_def calm_simps [OF assms(1)] server_is_local_def container_data_path_def)

text \<open>A key is the whole file; only \<open>s2.eve\<close> has one.\<close>

definition demo_ssh :: "u8 list ssh_lib" where
  "demo_ssh = \<lparr>ssh_parse = \<lambda>d. Inr (d, []), ssh_marshal = \<lambda>k. k\<rparr>"

definition demo_keys :: "string \<Rightarrow> u8 list result" where
  "demo_keys p = (if p = ''/keys/s2/eve.pub'' then Inr [7] else Inl (ErrExt 2))"

definition demo_sftp_paths :: paths where
  "demo_sftp_paths = \<lparr>pt_template_root = ''/templates'', pt_scratch_root = ''/data'', pt_network = []\<rparr>"

definition two_servers :: world where
  "two_servers = boot_world\<lparr>w_fsm := new_fsm\<lparr>f_servers := GoMap [(''s1'', demo_ha), (''s2'', demo_ha)]\<rparr>\<rparr>"

lemma two_servers_simps:
  "fsm_server ''s1'' (w_fsm two_servers) = Some demo_ha" "fsm_server ''s2'' (w_fsm two_servers) = Some demo_ha"
  by (simp_all add: two_servers_def fsm_server_def)

theorem login_crosses_servers_witness:
  "auth_public_key demo_ssh demo_keys ''/keys'' (Some demo_sftp_paths) ''s1.../s2/eve'' [7] calm_env two_servers
     = Some (Inr \<lparr>perm_server_id = ''s1'', perm_username = ''../s2/eve''\<rparr>,
         two_servers\<lparr>w_step := Suc (w_step two_servers)\<rparr>)"
proof -
  have u: "split_user ''s2.eve'' = Some (''s2'', ''eve'')" by (simp add: split_user_def)
  have path: "key_path ''/keys'' ''s2'' ''eve'' = ''/keys/s2/eve.pub''"
    by (simp add: key_path_def path_join_def path_clean_def elems_def rooted_def)
  have "parse_keys demo_ssh [7] [] = Some [[7]]"
    by (subst parse_keys.simps, simp add: demo_ssh_def, subst parse_keys.simps, simp)
  then have "load_authorized_key demo_ssh demo_keys ''/keys'' ''s2'' ''eve'' = Some (Inr [[7]])"
    by (simp add: load_authorized_key_def path Let_def demo_keys_def)
  then have "auth_public_key demo_ssh demo_keys ''/keys'' (Some demo_sftp_paths) ''s2.eve'' [7] calm_env two_servers
      = Some (Inr \<lparr>perm_server_id = ''s2'', perm_username = ''eve''\<rparr>,
          two_servers\<lparr>w_step := Suc (w_step two_servers)\<rparr>)"
    unfolding calm_auth [OF calm_demo u two_servers_simps(2) demo_ha_simps(1) [THEN ssubst [where P = "\<lambda>x. x \<noteq> []"], OF list.distinct(2)]]
    by (simp add: key_equal_def)
  with login_crosses_servers [where E = calm_env and W = two_servers and keys = "''/keys''" and a = "''s1''" and b = "''s2''" and u = "''eve''"
      and va = demo_ha and vb = demo_ha]
  show ?thesis by (simp add: two_servers_simps rooted_def plain_def)
qed

theorem nil_docker_login_witness:
  "auth_public_key demo_ssh demo_keys ''/keys'' None ''s1.eve'' [9] calm_env two_servers = None"
proof -
  have "split_user ''s1.eve'' = Some (''s1'', ''eve'')" by (simp add: split_user_def)
  from nil_docker_login_crashes [OF calm_demo this two_servers_simps(1)] demo_ha_simps(1) show ?thesis by simp
qed

end
