(* ===== verification/SftpServer.thy ===== *)
theory SftpServer
  imports Sftp FileSwap
begin

text \<open>
  daemon/internal/sftp (hostkey.go, server.go): the key the SFTP server presents, which is made at the
  first start and read from its file at the next ones, the construction of the server, and what
  a connection is served. Key generation, the PEM form and the handshake are the crypto
  libraries': parameters.
\<close>

section \<open>The host key\<close>

record ('h, 'k, 's) key_lib =
  ck_parse :: "string \<Rightarrow> 's result"
  ck_generate :: "'h \<Rightarrow> 'k result \<times> 'h"
  ck_marshal :: "'k \<Rightarrow> string \<Rightarrow> string result"
  ck_signer :: "'k \<Rightarrow> 's result"

definition load_or_create_host_key :: "'h os_ops \<Rightarrow> ('h, 'k, 's) key_lib \<Rightarrow> string \<Rightarrow> 'h \<Rightarrow> 's result \<times> 'h" where
  "load_or_create_host_key os ck path h =
     (if path = [] then (Inl (Errorf ''empty host key path''), h)
      else case os_mkdir_all os (path_dir path) h of
        (Some e, h1) \<Rightarrow> (Inl e, h1)
      | (None, h1) \<Rightarrow>
          (case os_read_file os path h1 of
             (Inr pem, h2) \<Rightarrow> (ck_parse ck pem, h2)
           | (Inl e, h2) \<Rightarrow>
               if \<not> os_is_not_exist os e then (Inl (ErrWrap ''read host key: '' e []), h2)
               else (case ck_generate ck h2 of
                  (Inl e', h3) \<Rightarrow> (Inl (ErrWrap ''generate host key: '' e' []), h3)
                | (Inr priv, h3) \<Rightarrow>
                    (case ck_marshal ck priv ''AetherNet SFTP host key'' of
                       Inl e' \<Rightarrow> (Inl (ErrWrap ''marshal host key: '' e' []), h3)
                     | Inr pem \<Rightarrow>
                         (case os_write_file os path pem h3 of
                            (Some e', h4) \<Rightarrow> (Inl (ErrWrap ''write host key: '' e' []), h4)
                          | (None, h4) \<Rightarrow> (ck_signer ck priv, h4))))))"

section \<open>The server\<close>

record sftp_options =
  sf_listen :: string
  sf_host_key :: string
  sf_keys_dir :: string

definition sftp_new :: "'h os_ops \<Rightarrow> ('h, 'k, 's) key_lib \<Rightarrow> sftp_options \<Rightarrow> 'h \<Rightarrow> (sftp_options \<times> 's) result \<times> 'h" where
  "sftp_new os ck opts h =
     (let opts' = (if sf_keys_dir opts = [] then opts\<lparr>sf_keys_dir := ''/var/lib/aethernet/sftp/keys''\<rparr> else opts) in
      case load_or_create_host_key os ck (sf_host_key opts') h of
        (Inl e, h1) \<Rightarrow> (Inl (ErrWrap ''host key: '' e []), h1)
      | (Inr signer, h1) \<Rightarrow> (Inr (opts', signer), h1))"

text \<open>
  A channel the client opens: its type, whether accepting it fails, and the requests on it. What
  becomes of it: refused, given up, or served below a directory, each request answered.
\<close>

record new_channel =
  nc_type :: string
  nc_accept :: err
  nc_requests :: "(string \<times> string) list"

datatype served = Rejected string | Skipped | Served string "bool list"

definition handle_channel :: "string \<Rightarrow> new_channel \<Rightarrow> served" where
  "handle_channel base nc =
     (if nc_type nc \<noteq> ''session'' then Rejected ''only session channels supported''
      else case nc_accept nc of
        Some e \<Rightarrow> Skipped
      | None \<Rightarrow> Served base (map (\<lambda>(t, payload). grants t payload) (nc_requests nc)))"

text \<open>\<open>handshake\<close> is what \<open>ssh.NewServerConn\<close> ends with; a nil controller panics (\<open>None\<close>).\<close>

definition handle_conn :: "controller \<Rightarrow> permissions result \<Rightarrow> new_channel list \<Rightarrow> served list option" where
  "handle_conn docker handshake chans =
     (case handshake of
        Inl _ \<Rightarrow> Some []
      | Inr p \<Rightarrow>
          (case session_dir docker p of
             None \<Rightarrow> None
           | Some None \<Rightarrow> Some []
           | Some (Some base) \<Rightarrow> Some (map (handle_channel base) chans)))"

section \<open>The same key at every start\<close>

text \<open>
  What is asked of the libraries: a file that is there can be read, a file that is not gives the
  error for that, and a key parsed from its PEM form signs as the key itself.
\<close>

definition reads_back :: "'h os_ops \<Rightarrow> ('h \<Rightarrow> string \<Rightarrow> string option) \<Rightarrow> bool" where
  "reads_back os file \<longleftrightarrow> (\<forall>p h. case file h p of
     Some c \<Rightarrow> fst (os_read_file os p h) = Inr c
   | None \<Rightarrow> (\<exists>e. fst (os_read_file os p h) = Inl e \<and> os_is_not_exist os e))"

definition pem_roundtrip :: "('h, 'k, 's) key_lib \<Rightarrow> bool" where
  "pem_roundtrip ck \<longleftrightarrow> (\<forall>k c pem. ck_marshal ck k c = Inr pem \<longrightarrow> ck_parse ck pem = ck_signer ck k)"

lemma existing_key_read:
  assumes "reads_back os file" and "file_laws os file" and "file h path = Some pem" and "path \<noteq> []"
    and "fst (os_mkdir_all os (path_dir path) h) = None"
  shows "\<exists>h'. load_or_create_host_key os ck path h = (ck_parse ck pem, h') \<and> file h' = file h"
proof -
  obtain h1 where m: "os_mkdir_all os (path_dir path) h = (None, h1)" using assms(5) by (metis prod.collapse)
  then have f1: "file h1 = file h" by (rule file_quiet(4) [OF assms(2)])
  then have "fst (os_read_file os path h1) = Inr pem"
    using assms(1) [unfolded reads_back_def, THEN spec, THEN spec, of path h1] assms(3) by simp
  then obtain h2 where r: "os_read_file os path h1 = (Inr pem, h2)" by (metis prod.collapse)
  then have "file h2 = file h" using file_quiet(5) [OF assms(2) r] f1 by simp
  with m r assms(4) show ?thesis by (simp add: load_or_create_host_key_def)
qed

text \<open>A start that succeeds leaves the key behind under which it runs: after whatever else happens, as long
  as the key file is left alone, the next start gets the same key, be it the first one's new key
  or one that was there before.\<close>

theorem host_key_stable:
  assumes "file_laws os file" and "reads_back os file" and "pem_roundtrip ck"
    and "\<forall>x. file (snd (ck_generate ck x)) = file x"
    and "load_or_create_host_key os ck path h = (Inr s, h1)"
    and "file h2 path = file h1 path" and "fst (os_mkdir_all os (path_dir path) h2) = None"
  shows "fst (load_or_create_host_key os ck path h2) = Inr s"
proof -
  have path: "path \<noteq> []" using assms(5) by (auto simp: load_or_create_host_key_def)
  obtain m0 where m: "os_mkdir_all os (path_dir path) h = (None, m0)"
    using assms(5) path by (auto simp: load_or_create_host_key_def split: prod.splits option.splits)
  have "\<exists>pem. file h1 path = Some pem \<and> ck_parse ck pem = Inr s"
  proof (cases "file m0 path")
    case (Some pem)
    with file_quiet(4) [OF assms(1) m] have fh: "file h path = Some pem" by simp
    from existing_key_read [OF assms(2,1) fh path, of ck] m assms(5) obtain h'
      where "(Inr s, h1) = (ck_parse ck pem, h')" "file h' = file h" by auto
    with fh show ?thesis by auto
  next
    case None
    then obtain e h0 where r: "os_read_file os path m0 = (Inl e, h0)" "os_is_not_exist os e"
      using assms(2) [unfolded reads_back_def, THEN spec, THEN spec, of path m0] by (auto simp: prod_eq_iff)
    with m path assms(5) obtain k g pem where k: "ck_marshal ck k ''AetherNet SFTP host key'' = Inr pem"
      and w: "os_write_file os path pem g = (None, h1)" and s: "ck_signer ck k = Inr s"
      by (auto simp: load_or_create_host_key_def split: prod.splits sum.splits option.splits)
    have "file h1 path = Some pem" using file_write(1) [OF assms(1) w] by simp
    with k s assms(3) show ?thesis unfolding pem_roundtrip_def by metis
  qed
  then obtain pem where "file h2 path = Some pem" "ck_parse ck pem = Inr s" using assms(6) by auto
  with existing_key_read [OF assms(2,1) _ path assms(7)] show ?thesis by (metis fst_conv)
qed

definition demo_keys :: "(string \<rightharpoonup> string, string, string) key_lib" where
  "demo_keys = \<lparr>ck_parse = \<lambda>p. Inr p, ck_generate = \<lambda>h. (Inr ''k1'', h), ck_marshal = \<lambda>k c. Inr k, ck_signer = \<lambda>k. Inr k\<rparr>"

theorem host_key_stable_witness:
  "load_or_create_host_key mem_os demo_keys ''/etc/k'' (\<lambda>_. None) = (Inr ''k1'', [''/etc/k'' \<mapsto> ''k1''])
   \<and> fst (load_or_create_host_key mem_os demo_keys ''/etc/k'' [''/etc/k'' \<mapsto> ''k1'']) = Inr ''k1''"
proof -
  have 1: "load_or_create_host_key mem_os demo_keys ''/etc/k'' (\<lambda>_. None) = (Inr ''k1'', [''/etc/k'' \<mapsto> ''k1''])"
    by (simp add: load_or_create_host_key_def demo_keys_def) (simp add: mem_os_def)
  have "reads_back mem_os (\<lambda>h. h)" by (simp add: reads_back_def mem_os_def split: option.split)
  moreover have "pem_roundtrip demo_keys" by (simp add: pem_roundtrip_def demo_keys_def)
  ultimately show ?thesis
    using 1 host_key_stable [OF mem_os_laws _ _ _ 1, of "[''/etc/k'' \<mapsto> ''k1'']"]
    by (simp add: demo_keys_def)
qed

section \<open>Who is served what\<close>

text \<open>
  Whoever passed the handshake is served the directory of the server in the permissions on every
  session channel, also one on which the SFTP subsystem was never asked for or was refused;
  nothing else is served on any channel.
\<close>

theorem sessions_served:
  assumes "handle_conn (Some p) (Inr perms) chans = Some out" and "path_join [pt_scratch_root p, perm_server_id perms] \<noteq> []"
  shows "length out = length chans"
    and "i < length chans \<Longrightarrow> (\<exists>rs. out ! i = Served base rs) \<longleftrightarrow>
      base = path_join [pt_scratch_root p, perm_server_id perms]
      \<and> nc_type (chans ! i) = ''session'' \<and> nc_accept (chans ! i) = None"
proof -
  from assms have out: "out = map (handle_channel (path_join [pt_scratch_root p, perm_server_id perms])) chans"
    by (simp add: handle_conn_def session_dir_def container_data_path_def)
  then show "length out = length chans" by simp
  have "(\<exists>rs. handle_channel b nc = Served base rs) \<longleftrightarrow> base = b \<and> nc_type nc = ''session'' \<and> nc_accept nc = None" for b nc
    by (cases "nc_type nc = ''session''"; cases "nc_accept nc") (auto simp only: handle_channel_def served.simps option.simps simp_thms if_True if_False)
  with out show "i < length chans \<Longrightarrow> (\<exists>rs. out ! i = Served base rs) \<longleftrightarrow>
      base = path_join [pt_scratch_root p, perm_server_id perms]
      \<and> nc_type (chans ! i) = ''session'' \<and> nc_accept (chans ! i) = None"
    by simp
qed

end
