(* ===== verification/Templates.thy ===== *)
theory Templates
  imports HostFs ClusterTypes
begin

text \<open>
  daemon/internal/tasks/templates.go: the scratch directory of a server and the copy of its
  template. \<open>walk\<close> gives the calls \<open>filepath.Walk\<close> makes of its function on a tree, in order; a
  call that fails ends the walk. The directory copied to lies outside the tree.
\<close>

section \<open>The code\<close>

record walk_entry =
  we_path :: string
  we_dir :: bool
  we_mode :: nat
  we_err :: err

type_synonym 'h walk = "string \<Rightarrow> 'h \<Rightarrow> walk_entry list \<times> 'h"

definition copy_file :: "'h os_ops \<Rightarrow> string \<Rightarrow> string \<Rightarrow> nat \<Rightarrow> 'h \<Rightarrow> err \<times> 'h" where
  "copy_file os src dst mode h =
     (case os_open os src h of
        (Inl e, h1) \<Rightarrow> (Some e, h1)
      | (Inr f, h1) \<Rightarrow>
          (case (case os_mkdir_all os (path_dir dst) h1 of
                   (Some e, h2) \<Rightarrow> (Some e, h2)
                 | (None, h2) \<Rightarrow>
                     (case os_open_file os dst mode h2 of
                        (Inl e, h3) \<Rightarrow> (Some e, h3)
                      | (Inr out, h3) \<Rightarrow>
                          (case os_copy_file os out f h3 of
                             (Some e, h4) \<Rightarrow> (Some e, snd (os_close os out h4))
                           | (None, h4) \<Rightarrow> os_close os out h4))) of
             (e, h') \<Rightarrow> (e, snd (os_close os f h'))))"

definition copy_entry :: "'h os_ops \<Rightarrow> string \<Rightarrow> string \<Rightarrow> walk_entry \<Rightarrow> 'h \<Rightarrow> err \<times> 'h" where
  "copy_entry os src dst w h =
     (case we_err w of
        Some e \<Rightarrow> (Some e, h)
      | None \<Rightarrow>
          (case path_rel src (we_path w) of
             Inl e \<Rightarrow> (Some e, h)
           | Inr rel \<Rightarrow>
               (let target = path_join [dst, rel] in
                if we_dir w then os_mkdir_all os target h else copy_file os (we_path w) target (we_mode w) h)))"

fun copy_entries :: "'h os_ops \<Rightarrow> string \<Rightarrow> string \<Rightarrow> walk_entry list \<Rightarrow> 'h \<Rightarrow> err \<times> 'h" where
  "copy_entries os src dst [] h = (None, h)"
| "copy_entries os src dst (w # ws) h =
     (case copy_entry os src dst w h of
        (Some e, h') \<Rightarrow> (Some e, h')
      | (None, h') \<Rightarrow> copy_entries os src dst ws h')"

definition copy_tree :: "'h os_ops \<Rightarrow> 'h walk \<Rightarrow> string \<Rightarrow> string \<Rightarrow> 'h \<Rightarrow> err \<times> 'h" where
  "copy_tree os walk src dst h = (case walk src h of (ws, h') \<Rightarrow> copy_entries os src dst ws h')"

text \<open>With an error the path is not used by the callers; \<open>return target, copyTree(\<dots>)\<close> gives both.\<close>

definition materialize_scratch ::
  "'h os_ops \<Rightarrow> 'h walk \<Rightarrow> string \<Rightarrow> template \<Rightarrow> server \<Rightarrow> string \<Rightarrow> 'h \<Rightarrow> (string \<times> err) \<times> 'h" where
  "materialize_scratch os walk tpl_root tpl srv scratch_root h =
     (let target = path_join [scratch_root, sp_id (sv_spec srv)]; base = path_join [tpl_root, t_id tpl] in
      case os_mkdir_all os target h of
        (Some e, h1) \<Rightarrow> (([], Some e), h1)
      | (None, h1) \<Rightarrow>
          (case os_stat os base h1 of
             (Inl e, h2) \<Rightarrow>
               if os_is_not_exist os e then ((target, None), h2)
               else (([], Some (ErrWrap ''stat template base: '' e [])), h2)
           | (Inr _, h2) \<Rightarrow>
               if t_mode tpl = ''static'' then ((target, None), h2)
               else if t_mode tpl = ''dynamic'' then
                 (case copy_tree os walk base target h2 of (e, h3) \<Rightarrow> ((target, e), h3))
               else (([], Some (Errorf (''unknown template mode '' @ go_quote (t_mode tpl)))), h2)))"

definition cleanup_scratch :: "'h os_ops \<Rightarrow> template \<Rightarrow> server \<Rightarrow> string \<Rightarrow> 'h \<Rightarrow> err \<times> 'h" where
  "cleanup_scratch os tpl srv scratch_root h =
     (if t_mode tpl \<noteq> ''dynamic'' then (None, h)
      else os_remove_all os (path_join [scratch_root, sp_id (sv_spec srv)]) h)"

section \<open>What is written\<close>

lemma copy_file_keeps:
  assumes "writes_kept os ok P" and "P h" and "ok dst" and "ok (path_dir dst)"
  shows "P (snd (copy_file os src dst mode h))"
proof -
  note step = writes_keptD [OF assms(1)]
  have close: "P g \<Longrightarrow> P (snd (os_close os k g))" for g k by (rule step(4) [OF _ surjective_pairing])
  show ?thesis
    using assms(2-4)
    by (auto simp: copy_file_def split: prod.split sum.split option.split intro!: close)
       (metis step(1) step(3) step(4) step(5) step(7))+
qed

lemma copy_entries_keeps:
  assumes "writes_kept os ok P" and "rooted src" and "rooted dst"
    and "\<And>w. w \<in> set ws \<Longrightarrow> \<exists>es. rooted (we_path w) \<and> elems (we_path w) = elems src @ es
      \<and> ok (''/'' @ join ''/'' (elems dst @ es)) \<and> ok (path_dir (''/'' @ join ''/'' (elems dst @ es)))"
    and "P h"
  shows "P (snd (copy_entries os src dst ws h))"
  using assms(4,5)
proof (induction ws arbitrary: h)
  case Nil
  then show ?case by simp
next
  case (Cons w ws)
  obtain es where es: "rooted (we_path w)" "elems (we_path w) = elems src @ es"
    "ok (''/'' @ join ''/'' (elems dst @ es))" "ok (path_dir (''/'' @ join ''/'' (elems dst @ es)))"
    using Cons.prems(1) [of w] by auto
  have pl: "\<forall>e\<in>set es. plain e" using elems_plain [OF es(1)] es(2) by simp
  have target: "path_join [dst, if es = [] then ''.'' else join ''/'' es] = ''/'' @ join ''/'' (elems dst @ es)"
    by (rule join_relative [OF assms(3) pl])
  have "P (snd (copy_entry os src dst w h))"
    using Cons.prems(2) copy_file_keeps [OF assms(1) Cons.prems(2) es(3,4)]
      writes_keptD(5) [OF assms(1) Cons.prems(2) es(3) surjective_pairing]
    unfolding copy_entry_def path_rel_below [OF assms(2) es(1,2)] sum.case Let_def target by (simp split: option.split)
  with Cons.IH Cons.prems(1) show ?case
    by (cases "copy_entry os src dst w h"; cases "fst (copy_entry os src dst w h)") auto
qed

text \<open>Where the copy of something below the template goes: below the target, whose own directory may
  also be made.\<close>

lemma entry_target:
  assumes "rooted base" and "rooted dir" and "path_clean dir = dir" and "plain i"
    and "below base p"
  shows "\<exists>es. rooted p \<and> elems p = elems base @ es \<and> (\<forall>e\<in>set es. plain e)
    \<and> below (path_join [dir, i]) (''/'' @ join ''/'' (elems (path_join [dir, i]) @ es))
    \<and> path_dir (''/'' @ join ''/'' (elems (path_join [dir, i]) @ es))
        = (if es = [] then dir else ''/'' @ join ''/'' (elems (path_join [dir, i]) @ butlast es))"
proof -
  let ?t = "path_join [dir, i]"
  note t = join_plain(2) [OF assms(2,4)] and rt = join_plain_rooted [OF assms(2,4)]
  from assms(5) have bp: "rooted p" "take (length (elems base)) (elems p) = elems base"
    by (simp_all add: below_def)
  then obtain es where es: "elems p = elems base @ es" by (metis append_take_drop_id)
  have pl: "\<forall>e\<in>set es. plain e" using elems_plain [OF bp(1)] es by simp
  have pt: "\<forall>e\<in>set (elems ?t @ es). plain e" using pl elems_plain [OF rt] by auto
  have "below ?t (''/'' @ join ''/'' (elems ?t @ es))" by (rule joined_below [OF rt refl pl])
  moreover have "path_dir (''/'' @ join ''/'' (elems ?t @ es)) = ''/'' @ join ''/'' (butlast (elems ?t @ es))"
    using t by (intro path_dir_below [OF pt]) simp
  moreover have "''/'' @ join ''/'' (elems dir) = dir" using path_clean_rooted [OF assms(2)] assms(3) by simp
  ultimately show ?thesis
    using bp(1) es pl t by (intro exI [of _ es]) (simp add: butlast_append)
qed


definition demo_walk :: "string list walk" where
  "demo_walk d h = ([\<lparr>we_path = d, we_dir = True, we_mode = 493, we_err = None\<rparr>,
     \<lparr>we_path = d @ ''/server.jar'', we_dir = False, we_mode = 420, we_err = None\<rparr>], h)"

definition demo_template :: template where
  "demo_template = \<lparr>t_id = ''tpl-1'', t_name = [], t_mode = ''dynamic'', t_image = [], t_base_volume = []\<rparr>"

definition demo_srv :: server where
  "demo_srv = server_zero\<lparr>sv_spec := server_spec_zero\<lparr>sp_id := ''srv-1''\<rparr>\<rparr>"

lemma demo_tree:
  "path_join [''/tpl'', ''tpl-1''] = ''/tpl/tpl-1''" "path_join [''/scratch'', ''srv-1''] = ''/scratch/srv-1''"
  "below ''/tpl/tpl-1'' ''/tpl/tpl-1''" "below ''/tpl/tpl-1'' ''/tpl/tpl-1/server.jar''" "path_clean ''/scratch'' = ''/scratch''"
  by code_simp+


section \<open>Not fresh\<close>

text \<open>The comment says that a dynamic template is cloned fresh on startup. What an earlier run left in the
  scratch directory stays: a file that is not of the template has its content afterwards, although
  the preparation succeeds, so a server that was not cleaned up starts on the old world.\<close>

theorem leftovers_survive:
  assumes "rooted scratch_root" and "path_clean scratch_root = scratch_root"
    and "plain (sp_id (sv_spec srv))" and "rooted tpl_root" and "plain (t_id tpl)"
    and "\<And>g w. w \<in> set (fst (walk (path_join [tpl_root, t_id tpl]) g)) \<Longrightarrow> below (path_join [tpl_root, t_id tpl]) (we_path w)
        \<and> \<not> below (path_join [tpl_root, t_id tpl, name]) (we_path w)"
    and "\<And>d g. file (snd (walk d g)) q = file g q"
    and "q = path_join [scratch_root, sp_id (sv_spec srv), name]" and "plain name"
    and "writes_kept os (\<lambda>p. p \<noteq> q) (\<lambda>h. file h q = Some c)" and "file h q = Some c"
  shows "file (snd (materialize_scratch os walk tpl_root tpl srv scratch_root h)) q = Some c"
proof -
  let ?t = "path_join [scratch_root, sp_id (sv_spec srv)]" and ?b = "path_join [tpl_root, t_id tpl]"
  let ?P = "\<lambda>h. file h q = Some c"
  note step = writes_keptD [OF assms(10)] and rt = join_plain_rooted [OF assms(1,3)]
    and rb = join_plain_rooted [OF assms(4,5)]
  have q: "q = ''/'' @ join ''/'' (elems ?t @ [name])" "elems q = elems ?t @ [name]"
    using join_plain [OF assms(1,3)] assms(8,9) elems_plain [OF assms(1)] assms(3)
    by (auto simp: elems_join)
  have nb: "elems (path_join [tpl_root, t_id tpl, name]) = elems ?b @ [name]" "rooted (path_join [tpl_root, t_id tpl, name])"
    using join_plain [OF assms(4,5)] assms(5,9) elems_plain [OF assms(4)] by (auto simp: elems_join rooted_def)
  have ne: "''/'' @ join ''/'' (elems ?t @ es) \<noteq> q" if "\<forall>e\<in>set es. plain e" "take 1 es \<noteq> [name]" for es
  proof
    assume "''/'' @ join ''/'' (elems ?t @ es) = q"
    moreover have "\<forall>e\<in>set (elems ?t @ es). plain e" using that(1) elems_plain [OF rt] by auto
    ultimately have "elems ?t @ es = elems ?t @ [name]" using elems_join q(2) by metis
    with that(2) show False by simp
  qed
  have okt: "?t \<noteq> q"
    using ne [of "[]"] path_clean_rooted [OF rt] join_plain(1,2) [OF assms(1,3)] by simp
  have entry: "\<exists>es. rooted (we_path w) \<and> elems (we_path w) = elems ?b @ es
      \<and> ''/'' @ join ''/'' (elems ?t @ es) \<noteq> q \<and> path_dir (''/'' @ join ''/'' (elems ?t @ es)) \<noteq> q"
    if "w \<in> set (fst (walk ?b g))" for w g
  proof -
    note bw = assms(6) [OF that]
    from entry_target [OF rb assms(1-3) bw [THEN conjunct1]] obtain es where
      es: "rooted (we_path w)" "elems (we_path w) = elems ?b @ es" "\<forall>e\<in>set es. plain e"
        "path_dir (''/'' @ join ''/'' (elems ?t @ es)) = (if es = [] then scratch_root else ''/'' @ join ''/'' (elems ?t @ butlast es))"
      by blast
    have t1: "take 1 es \<noteq> [name]" using bw [THEN conjunct2] es(1,2) nb by (auto simp: below_def)
    then have t2: "take 1 (butlast es) \<noteq> [name]" by (cases es rule: rev_cases) (auto simp: take_Cons' split: if_splits)
    have "scratch_root \<noteq> q"
      using arg_cong [of scratch_root q elems] join_plain(2) [OF assms(1,3)] q(2) by auto
    moreover have "\<forall>e\<in>set (butlast es). plain e" using es(3) by (auto dest: in_set_butlastD)
    ultimately show ?thesis using es ne [OF es(3) t1] ne [of "butlast es"] t2 by (intro exI [of _ es]) auto
  qed
  have copy: "?P (snd (copy_tree os walk ?b ?t g))" if "?P g" for g
  proof -
    have "?P (snd (copy_entries os ?b ?t (fst (walk ?b g)) (snd (walk ?b g))))"
      by (rule copy_entries_keeps [OF assms(10) rb rt]) (rule entry, assumption, simp add: assms(7) that)
    then show ?thesis by (simp add: copy_tree_def case_prod_unfold)
  qed
  show ?thesis
    using assms(11) copy
    by (auto simp: materialize_scratch_def Let_def split: prod.split option.split sum.split)
       (metis okt step(2) step(5) snd_conv)+
qed

end
