(* ===== verification/Updater.thy ===== *)
theory Updater
  imports ModRepos
begin

text \<open>
  daemon/internal/modproxy/updater.go: the scan of the servers' plugin and mod directories for
  jars with a newer version. Directories, archives and the YAML library are parameters: \<open>yaml b\<close>
  is, for a document, the text found at a path of keys, and the error of decoding it. The channel
  of scheduled updates is its buffer; nothing in the repository receives from it, so a send on the
  full channel does not return.
\<close>

section \<open>The code\<close>

record scheduled_update =
  su_server_id :: string
  su_kind :: string
  su_filename :: string
  su_new_url :: string
  su_new_version :: string

record plugin_meta =
  pm_name :: string
  pm_version :: string
  pm_mc_version :: string
  pm_loader :: string
  pm_modrinth_id :: string
  pm_curseforge_id :: int

text \<open>\<open>ReadDir\<close> with the names and which are directories, \<open>Glob\<close> without its error, and the members
  of an archive with what opening each gives.\<close>

record 'h jar_ops =
  jo_dirs :: "string \<Rightarrow> 'h \<Rightarrow> (string \<times> bool) list result \<times> 'h"
  jo_glob :: "string \<Rightarrow> 'h \<Rightarrow> string list \<times> 'h"
  jo_zip :: "string \<Rightarrow> 'h \<Rightarrow> (string \<times> string result) list result \<times> 'h"

type_synonym yaml = "string \<Rightarrow> (string list \<Rightarrow> string) \<times> err"

datatype 'h scan =
    Panicked
  | Blocked "scheduled_update list" 'h
  | Scanned "scheduled_update list" 'h

fun scan_then :: "'h scan \<Rightarrow> (scheduled_update list \<Rightarrow> 'h \<Rightarrow> 'h scan) \<Rightarrow> 'h scan" where
  "scan_then (Scanned buf h) f = f buf h"
| "scan_then s f = s"

definition schedule :: "scheduled_update \<Rightarrow> scheduled_update list \<Rightarrow> 'h \<Rightarrow> 'h scan" where
  "schedule u buf h = (if length buf < 64 then Scanned (buf @ [u]) h else Blocked buf h)"

text \<open>The fields of a plugin's document have YAML tags. Those of a Fabric document have JSON tags only,
  which the YAML library does not look at: it takes the field names in lower case.\<close>

definition parse_plugin :: "yaml \<Rightarrow> string \<Rightarrow> plugin_meta" where
  "parse_plugin yaml b =
     \<lparr>pm_name = fst (yaml b) [''name''], pm_version = fst (yaml b) [''version''],
      pm_mc_version = fst (yaml b) [''api-version''], pm_loader = ''paper'', pm_modrinth_id = [], pm_curseforge_id = 0\<rparr>"

definition project_key :: "string list" where
  "project_key = [''custom'', ''modrinth'', ''projectid'']"

definition parse_fabric_mod :: "yaml \<Rightarrow> string \<Rightarrow> plugin_meta result" where
  "parse_fabric_mod yaml b =
     (case yaml b of
        (_, Some e) \<Rightarrow> Inl e
      | (get, None) \<Rightarrow> Inr
          \<lparr>pm_name = get [''id''], pm_version = get [''version''], pm_mc_version = [], pm_loader = ''fabric'',
           pm_modrinth_id = get project_key, pm_curseforge_id = 0\<rparr>)"

fun read_members :: "yaml \<Rightarrow> (string \<times> string result) list \<Rightarrow> plugin_meta result" where
  "read_members yaml [] = Inl (Errorf ''no recognized metadata file in jar'')"
| "read_members yaml ((name, content) # fs) =
     (if name = ''plugin.yml'' \<or> name = ''paper-plugin.yml'' then rbind content (\<lambda>b. Inr (parse_plugin yaml b))
      else if name = ''fabric.mod.json'' then rbind content (parse_fabric_mod yaml)
      else read_members yaml fs)"

definition read_metadata :: "'h jar_ops \<Rightarrow> yaml \<Rightarrow> string \<Rightarrow> 'h \<Rightarrow> plugin_meta result \<times> 'h" where
  "read_metadata jo yaml path h =
     (case jo_zip jo path h of (Inl e, h') \<Rightarrow> (Inl e, h') | (Inr fs, h') \<Rightarrow> (read_members yaml fs, h'))"

definition primary_file :: "modrinth_version \<Rightarrow> modrinth_file" where
  "primary_file v =
     (case find mf_primary (mv_files v) of
        Some f \<Rightarrow> f
      | None \<Rightarrow> (case mv_files v of f # _ \<Rightarrow> f | [] \<Rightarrow> mfile_zero))"

definition loader_from_api_version :: "string \<Rightarrow> string" where
  "loader_from_api_version s = (if has_prefix s ''1.'' then ''paper'' else [])"

definition scan_jar ::
  "'h jar_ops \<Rightarrow> yaml \<Rightarrow> 'h net \<Rightarrow> string option \<Rightarrow> string \<Rightarrow> string \<Rightarrow> string
    \<Rightarrow> scheduled_update list \<Rightarrow> 'h \<Rightarrow> 'h scan" where
  "scan_jar jo yaml net modrinth server_id kind jar buf h =
     (case read_metadata jo yaml jar h of
        (Inl _, h1) \<Rightarrow> Scanned buf h1
      | (Inr meta, h1) \<Rightarrow>
          if pm_modrinth_id meta = [] \<and> pm_curseforge_id meta = 0 then Scanned buf h1
          else (case (if pm_modrinth_id meta \<noteq> [] then modrinth else None) of
              None \<Rightarrow> Scanned buf h1
            | Some ua \<Rightarrow>
                (case latest_version net ua (pm_modrinth_id meta) (pm_mc_version meta) (pm_loader meta) h1 of
                   None \<Rightarrow> Panicked
                 | Some (Inl _, h2) \<Rightarrow> Scanned buf h2
                 | Some (Inr v, h2) \<Rightarrow>
                     if mv_version v \<noteq> pm_version meta \<and> mv_files v \<noteq> [] then
                       schedule \<lparr>su_server_id = server_id, su_kind = kind, su_filename = path_base jar,
                         su_new_url = mf_url (primary_file v), su_new_version = mv_version v\<rparr> buf h2
                     else Scanned buf h2)))"

fun scan_jars ::
  "'h jar_ops \<Rightarrow> yaml \<Rightarrow> 'h net \<Rightarrow> string option \<Rightarrow> string \<Rightarrow> string \<Rightarrow> string list
    \<Rightarrow> scheduled_update list \<Rightarrow> 'h \<Rightarrow> 'h scan" where
  "scan_jars jo yaml net m server_id kind [] buf h = Scanned buf h"
| "scan_jars jo yaml net m server_id kind (jar # jars) buf h =
     scan_then (scan_jar jo yaml net m server_id kind jar buf h) (scan_jars jo yaml net m server_id kind jars)"

definition scan_sub ::
  "'h jar_ops \<Rightarrow> yaml \<Rightarrow> 'h net \<Rightarrow> string option \<Rightarrow> string \<Rightarrow> string \<Rightarrow> string \<times> string
    \<Rightarrow> scheduled_update list \<Rightarrow> 'h \<Rightarrow> 'h scan" where
  "scan_sub jo yaml net m server_id dir sub buf h =
     (case jo_glob jo (path_join [path_join [dir, snd sub], ''*.jar'']) h of
        (jars, h1) \<Rightarrow> scan_jars jo yaml net m server_id (fst sub) jars buf h1)"

definition scan_server ::
  "'h jar_ops \<Rightarrow> yaml \<Rightarrow> 'h net \<Rightarrow> string option \<Rightarrow> string \<Rightarrow> string
    \<Rightarrow> scheduled_update list \<Rightarrow> 'h \<Rightarrow> 'h scan" where
  "scan_server jo yaml net m server_id dir buf h =
     scan_then (scan_sub jo yaml net m server_id dir (''plugin'', ''plugins'') buf h)
       (scan_sub jo yaml net m server_id dir (''mod'', ''mods''))"

fun scan_dirs ::
  "'h jar_ops \<Rightarrow> yaml \<Rightarrow> 'h net \<Rightarrow> string option \<Rightarrow> string \<Rightarrow> (string \<times> bool) list
    \<Rightarrow> scheduled_update list \<Rightarrow> 'h \<Rightarrow> 'h scan" where
  "scan_dirs jo yaml net m base [] buf h = Scanned buf h"
| "scan_dirs jo yaml net m base ((name, dir) # ds) buf h =
     scan_then (if dir then scan_server jo yaml net m name (path_join [base, name]) buf h else Scanned buf h)
       (scan_dirs jo yaml net m base ds)"

definition scan_once ::
  "'h jar_ops \<Rightarrow> yaml \<Rightarrow> 'h net \<Rightarrow> string option \<Rightarrow> string \<Rightarrow> scheduled_update list \<Rightarrow> 'h \<Rightarrow> 'h scan" where
  "scan_once jo yaml net m base buf h =
     (case jo_dirs jo base h of
        (Inl _, h1) \<Rightarrow> Scanned buf h1
      | (Inr ds, h1) \<Rightarrow> scan_dirs jo yaml net m base ds buf h1)"

text \<open>\<open>Run\<close> for a number of ticks.\<close>

fun updater_run ::
  "'h jar_ops \<Rightarrow> yaml \<Rightarrow> 'h net \<Rightarrow> string option \<Rightarrow> string \<Rightarrow> nat \<Rightarrow> scheduled_update list \<Rightarrow> 'h \<Rightarrow> 'h scan" where
  "updater_run jo yaml net m base 0 buf h = Scanned buf h"
| "updater_run jo yaml net m base (Suc n) buf h =
     scan_then (scan_once jo yaml net m base buf h) (updater_run jo yaml net m base n)"

section \<open>The channel\<close>

text \<open>Every step of a scan only adds to the buffer, keeps its bound, and stops when it is full.\<close>

definition grows :: "(scheduled_update list \<Rightarrow> 'h \<Rightarrow> 'h scan) \<Rightarrow> bool" where
  "grows f \<longleftrightarrow> (\<forall>buf h. case f buf h of
      Panicked \<Rightarrow> True
    | Blocked buf' _ \<Rightarrow> (\<exists>us. buf' = buf @ us) \<and> (length buf \<le> 64 \<longrightarrow> length buf' = 64)
    | Scanned buf' _ \<Rightarrow> (\<exists>us. buf' = buf @ us) \<and> (length buf \<le> 64 \<longrightarrow> length buf' \<le> 64))"

lemma growsI:
  assumes "\<And>buf h. f buf h = Panicked \<or> (\<exists>h'. f buf h = Scanned buf h') \<or> (\<exists>u h'. f buf h = schedule u buf h')"
  shows "grows f"
  unfolding grows_def
proof (intro allI)
  fix buf h
  from assms [of buf h] show "case f buf h of
      Panicked \<Rightarrow> True
    | Blocked buf' _ \<Rightarrow> (\<exists>us. buf' = buf @ us) \<and> (length buf \<le> 64 \<longrightarrow> length buf' = 64)
    | Scanned buf' _ \<Rightarrow> (\<exists>us. buf' = buf @ us) \<and> (length buf \<le> 64 \<longrightarrow> length buf' \<le> 64)"
    by (auto simp: schedule_def)
qed

lemma grows_then:
  assumes "grows f" and "grows g"
  shows "grows (\<lambda>buf h. scan_then (f buf h) g)"
  unfolding grows_def
proof (intro allI)
  fix buf h
  show "case scan_then (f buf h) g of
      Panicked \<Rightarrow> True
    | Blocked buf' _ \<Rightarrow> (\<exists>us. buf' = buf @ us) \<and> (length buf \<le> 64 \<longrightarrow> length buf' = 64)
    | Scanned buf' _ \<Rightarrow> (\<exists>us. buf' = buf @ us) \<and> (length buf \<le> 64 \<longrightarrow> length buf' \<le> 64)"
  proof (cases "f buf h")
    case (Scanned buf1 h1)
    with assms(1) [unfolded grows_def, THEN spec, THEN spec, of buf h]
      assms(2) [unfolded grows_def, THEN spec, THEN spec, of buf1 h1]
    show ?thesis by (auto split: scan.splits)
  qed (use assms(1) [unfolded grows_def, THEN spec, THEN spec, of buf h] in simp_all)
qed

lemma scan_jar_grows: "grows (scan_jar jo yaml net m server_id kind jar)"
  by (rule growsI) (auto simp: scan_jar_def split: prod.split sum.split option.split)

lemma same_grows: "grows Scanned"
  by (rule growsI) simp

lemma scan_nils:
  "scan_jars jo yaml net m server_id kind [] = Scanned" "scan_dirs jo yaml net m base [] = Scanned"
  "scan_then (schedule u buf h) Scanned = schedule u buf h"
  by (rule ext, rule ext, simp)+ (simp add: schedule_def)

lemma scan_jars_grows: "grows (scan_jars jo yaml net m server_id kind jars)"
proof (induction jars)
  case Nil
  show ?case by (simp add: scan_nils same_grows)
next
  case (Cons jar jars)
  have "scan_jars jo yaml net m server_id kind (jar # jars)
    = (\<lambda>buf h. scan_then (scan_jar jo yaml net m server_id kind jar buf h) (scan_jars jo yaml net m server_id kind jars))"
    by (intro ext) simp
  then show ?case using grows_then [OF scan_jar_grows Cons.IH] by simp
qed

lemma grows_after:
  assumes "\<And>x. grows (g x)"
  shows "grows (\<lambda>buf h. g (fst (f h)) buf (snd (f h)))"
  using assms unfolding grows_def by blast

lemma scan_sub_grows: "grows (scan_sub jo yaml net m server_id dir sub)"
  using grows_after [where g = "scan_jars jo yaml net m server_id (fst sub)"
      and f = "jo_glob jo (path_join [path_join [dir, snd sub], ''*.jar''])", OF scan_jars_grows]
  unfolding scan_sub_def [abs_def] by (simp add: case_prod_unfold)

lemma scan_server_grows: "grows (scan_server jo yaml net m server_id dir)"
  unfolding scan_server_def [abs_def] by (rule grows_then [OF scan_sub_grows scan_sub_grows])

lemma scan_dirs_grows: "grows (scan_dirs jo yaml net m base ds)"
proof (induction ds)
  case Nil
  show ?case by (simp add: scan_nils same_grows)
next
  case (Cons d ds)
  obtain name dir where d: "d = (name, dir)" by (cases d)
  have "scan_dirs jo yaml net m base (d # ds) = (\<lambda>buf h. scan_then
      ((if dir then scan_server jo yaml net m name (path_join [base, name]) else Scanned) buf h)
      (scan_dirs jo yaml net m base ds))"
    by (intro ext) (simp add: d)
  moreover have "grows (if dir then scan_server jo yaml net m name (path_join [base, name]) else Scanned)"
    by (simp add: scan_server_grows same_grows)
  ultimately show ?case using grows_then [OF _ Cons.IH] by simp
qed

lemma scan_once_grows: "grows (scan_once jo yaml net m base)"
proof -
  have "grows (case x of Inl _ \<Rightarrow> Scanned | Inr ds \<Rightarrow> scan_dirs jo yaml net m base ds)" for x :: "(string \<times> bool) list result"
    by (simp add: scan_dirs_grows same_grows split: sum.split)
  from grows_after [OF this, of _ "jo_dirs jo base"] show ?thesis
    unfolding scan_once_def [abs_def] by (simp add: case_prod_unfold sum.case_distrib [of "\<lambda>f. f _ _"])
qed

text \<open>The scheduled updates stay in order and never exceed the channel.\<close>

lemma scan_outcome:
  "case scan_once jo yaml net m base buf h of
      Panicked \<Rightarrow> True
    | Blocked buf' _ \<Rightarrow> (\<exists>us. buf' = buf @ us) \<and> (length buf \<le> 64 \<longrightarrow> length buf' = 64)
    | Scanned buf' _ \<Rightarrow> (\<exists>us. buf' = buf @ us) \<and> (length buf \<le> 64 \<longrightarrow> length buf' \<le> 64)"
  using scan_once_grows [unfolded grows_def, THEN spec, THEN spec] .


section \<open>What is ever found\<close>

lemma read_members_no_project:
  assumes "\<forall>b. fst (yaml b) project_key = []"
  shows "read_members yaml fs = Inr meta \<Longrightarrow> pm_modrinth_id meta = [] \<and> pm_curseforge_id meta = 0"
proof (induction fs)
  case (Cons f fs)
  obtain name content where f: "f = (name, content)" by (cases f)
  have "parse_fabric_mod yaml b = Inr meta \<Longrightarrow> pm_modrinth_id meta = [] \<and> pm_curseforge_id meta = 0" for b
    using spec [OF assms, of b] by (auto simp: parse_fabric_mod_def split: prod.splits option.splits)
  with Cons show ?case by (auto simp: f parse_plugin_def rbind_eq_Inr split: if_splits)
qed simp

lemma scan_jar_finds_nothing:
  assumes "\<forall>b. fst (yaml b) project_key = []"
  shows "scan_jar jo yaml net m server_id kind jar buf h = Scanned buf (snd (jo_zip jo jar h))"
  using read_members_no_project [OF assms]
  by (auto simp: scan_jar_def read_metadata_def split: prod.split sum.split)

text \<open>Steps that find nothing whatever the network answers.\<close>

definition idle :: "('h net \<Rightarrow> scheduled_update list \<Rightarrow> 'h \<Rightarrow> 'h scan) \<Rightarrow> bool" where
  "idle f \<longleftrightarrow> (\<forall>buf h. \<exists>h'. \<forall>net. f net buf h = Scanned buf h')"

lemma idle_same: "idle (\<lambda>net. Scanned)"
  by (simp add: idle_def)

lemma idle_then:
  assumes "idle f" and "idle g"
  shows "idle (\<lambda>net buf h. scan_then (f net buf h) (g net))"
  unfolding idle_def
proof (intro allI)
  fix buf h
  from assms(1) obtain h1 where "\<forall>net. f net buf h = Scanned buf h1" unfolding idle_def by blast
  moreover from assms(2) obtain h2 where "\<forall>net. g net buf h1 = Scanned buf h2" unfolding idle_def by blast
  ultimately show "\<exists>h'. \<forall>net. scan_then (f net buf h) (g net) = Scanned buf h'" by auto
qed

lemma idle_after: "(\<And>x. idle (\<lambda>net. g net x)) \<Longrightarrow> idle (\<lambda>net buf h. g net (fst (f h)) buf (snd (f h)))"
  unfolding idle_def by blast

lemma jars_idle:
  assumes "\<forall>b. fst (yaml b) project_key = []"
  shows "idle (\<lambda>net. scan_jars jo yaml net m server_id kind jars)"
proof (induction jars)
  case Nil
  show ?case by (simp add: idle_def)
next
  case (Cons jar jars)
  have "idle (\<lambda>net. scan_jar jo yaml net m server_id kind jar)"
    unfolding idle_def scan_jar_finds_nothing [OF assms] by simp
  from idle_then [OF this Cons.IH] show ?case by (simp add: idle_def)
qed

lemma server_idle:
  assumes "\<forall>b. fst (yaml b) project_key = []"
  shows "idle (\<lambda>net. scan_server jo yaml net m server_id dir)"
proof -
  have "idle (\<lambda>net. scan_sub jo yaml net m server_id dir sub)" for sub
    using idle_after [where g = "\<lambda>net. scan_jars jo yaml net m server_id (fst sub)", OF jars_idle [OF assms],
        where f = "jo_glob jo (path_join [path_join [dir, snd sub], ''*.jar''])"]
    by (simp add: idle_def scan_sub_def case_prod_unfold)
  from idle_then [OF this this] show ?thesis by (simp add: idle_def scan_server_def)
qed

lemma dirs_idle:
  assumes "\<forall>b. fst (yaml b) project_key = []"
  shows "idle (\<lambda>net. scan_dirs jo yaml net m base ds)"
proof (induction ds)
  case Nil
  show ?case by (simp add: idle_def)
next
  case (Cons d ds)
  obtain name dir where d: "d = (name, dir)" by (cases d)
  have "idle (\<lambda>net. if dir then scan_server jo yaml net m name (path_join [base, name]) else Scanned)"
    using server_idle [OF assms, of jo m name "path_join [base, name]"] by (cases dir) (simp_all add: idle_def)
  from idle_then [OF this Cons.IH] show ?case
    by (cases dir) (simp_all add: idle_def d)
qed

text \<open>The updater never updates a mod that is described the way Modrinth describes it: \<open>fabric.mod.json\<close>
  keeps the project under \<open>custom.modrinth.project_id\<close>, the struct asks the YAML library for
  \<open>projectid\<close>, and a plugin is never given a project at all. Unless some document has that other
  key, a scan asks the network nothing and schedules nothing, on every server.\<close>

theorem updater_finds_nothing:
  assumes "\<forall>b. fst (yaml b) [''custom'', ''modrinth'', ''projectid''] = []"
  shows "\<exists>h'. \<forall>net. scan_once jo yaml net m base buf h = Scanned buf h'"
proof (cases "jo_dirs jo base h")
  case (Pair x h1)
  show ?thesis
  proof (cases x)
    case (Inl e)
    with Pair show ?thesis by (simp add: scan_once_def)
  next
    case (Inr ds)
    with Pair dirs_idle [OF assms [folded project_key_def], where jo = jo and m = m and base = base and ds = ds] show ?thesis
      by (simp add: scan_once_def idle_def)
  qed
qed

section \<open>A server with one mod\<close>

text \<open>One server directory with one jar, whose document has the key \<open>key\<close>; the clock of the file system
  counts the archives opened.\<close>

definition one_mod :: "nat jar_ops" where
  "one_mod = \<lparr>jo_dirs = \<lambda>_ h. (Inr [(''srv-1'', True)], h),
     jo_glob = \<lambda>p h. (if p = ''/scratch/srv-1/mods/*.jar'' then [''/scratch/srv-1/mods/lithium.jar''] else [], h),
     jo_zip = \<lambda>_ h. (Inr [(''fabric.mod.json'', Inr [])], Suc h)\<rparr>"

definition with_key :: "string \<Rightarrow> string \<Rightarrow> yaml" where
  "with_key key v b = (\<lambda>k. if k = [''custom'', ''modrinth'', key] then v else if k = [''version''] then ''0.11'' else [], None)"

definition newer :: "nat net" where
  "newer r h = (Inr \<lparr>rs_code = 200, rs_status = ''200 OK'', rs_body = [], rs_read_err = None,
     rs_json = Some (JArr [JObj [(''version_number'', JStr ''0.12''), (''files'', JArr [JObj [(''url'', JStr ''u'')]])]])\<rparr>, h)"

theorem updater_finds_nothing_witness:
  "\<exists>h'. scan_once one_mod (with_key ''project_id'' ''gvQqUTnZ'') newer (Some ''ua'') ''/scratch'' [] 0 = Scanned [] h'"
proof -
  have "fst (with_key ''project_id'' ''gvQqUTnZ'' b) [''custom'', ''modrinth'', ''projectid''] = []" for b
    by (simp add: with_key_def)
  then show ?thesis using updater_finds_nothing [of "with_key ''project_id'' ''gvQqUTnZ''" one_mod "Some ''ua''" "''/scratch''" "[]" 0] by blast
qed

lemma one_mod_paths:
  "path_join [path_join [path_join [''/scratch'', ''srv-1''], ''plugins''], ''*.jar''] = ''/scratch/srv-1/plugins/*.jar''"
  "path_join [path_join [path_join [''/scratch'', ''srv-1''], ''mods''], ''*.jar''] = ''/scratch/srv-1/mods/*.jar''"
  by code_simp+

lemma one_mod_ops:
  "jo_dirs one_mod p h = (Inr [(''srv-1'', True)], h)"
  "jo_glob one_mod p h = (if p = ''/scratch/srv-1/mods/*.jar'' then [''/scratch/srv-1/mods/lithium.jar''] else [], h)"
  by (simp_all add: one_mod_def)

lemma newer_version:
  "latest_version newer ua ''lithium'' mc loader h
    = Some (Inr (version_zero\<lparr>mv_version := ''0.12'', mv_files := [mfile_zero\<lparr>mf_url := ''u''\<rparr>]\<rparr>), h)"
proof -
  have "list_all path_safe (''/v2/project/'' @ ''lithium'' @ ''/version'')"
    by (simp add: path_safe_def unreserved_def code_def)
  from url_parse_safe [OF this] show ?thesis
    by (simp add: latest_version_def request_url_def modrinth_get_def newer_def answer_def version_fields_def fld_def
        mfile_fields_def to_lower_def lower_char_def code_def version_zero_def mfile_zero_def)
qed

lemma one_mod_scan:
  "scan_once one_mod (with_key ''projectid'' ''lithium'') newer (Some ''ua'') ''/scratch'' buf h
    = schedule \<lparr>su_server_id = ''srv-1'', su_kind = ''mod'', su_filename = ''lithium.jar'', su_new_url = ''u'', su_new_version = ''0.12''\<rparr>
        buf (Suc h)"
proof -
  have b: "path_base ''/scratch/srv-1/mods/lithium.jar'' = ''lithium.jar''" by code_simp
  have j: "scan_jar one_mod (with_key ''projectid'' ''lithium'') newer (Some ''ua'') ''srv-1'' ''mod'' ''/scratch/srv-1/mods/lithium.jar'' buf h
    = schedule \<lparr>su_server_id = ''srv-1'', su_kind = ''mod'', su_filename = ''lithium.jar'', su_new_url = ''u'', su_new_version = ''0.12''\<rparr>
        buf (Suc h)" for buf h
    by (simp add: scan_jar_def read_metadata_def one_mod_def with_key_def parse_fabric_mod_def project_key_def newer_version
        version_zero_def primary_file_def b)
  show ?thesis
    by (simp add: scan_once_def scan_server_def scan_sub_def one_mod_paths one_mod_ops j scan_nils)
qed


text \<open>A jar that names a project with a bad escape kills the daemon that scans it.\<close>

lemma bad_project_kills:
  "scan_jar one_mod (with_key ''projectid'' ''%zz'') net (Some ua) i k jar buf h = Panicked"
  by (simp add: scan_jar_def read_metadata_def one_mod_def with_key_def parse_fabric_mod_def project_key_def bad_slug_panics)

end
