(* ===== verification/WorkbenchLaws.thy ===== *)
theory WorkbenchLaws
  imports Workbench
begin

text \<open>
  Theorems of the SQL gateway: the row limit, what its cells and null masks say of the values,
  what the list of forbidden names does not forbid, and that \<open>DESCRIBE\<close> cannot be bent.
\<close>

section \<open>The row limit\<close>

lemma scan_rows_bound:
  assumes "scan_rows limit rs out = Inr res" and "length (qr_rows out) \<le> unat limit"
    and "length (qr_null_masks out) = length (qr_rows out)"
  shows "length (qr_rows res) \<le> unat limit \<and> length (qr_null_masks res) = length (qr_rows res)"
  using assms
proof (induction limit rs out rule: scan_rows.induct)
  case (1 limit out)
  then show ?case by simp
next
  case (2 limit r rs out)
  show ?case
  proof (cases "word_of_nat (length (qr_rows out)) < limit")
    case False
    with 2(2-4) show ?thesis by simp
  next
    case True
    have "length (qr_rows out) < 2 ^ 32"
      using 2(3) unsigned_less [of limit, where 'a = nat] by simp
    then have "unat (word_of_nat (length (qr_rows out)) :: u32) = length (qr_rows out)"
      by (simp add: unsigned_of_nat take_bit_nat_eq_self)
    with True have "length (qr_rows out) < unat limit" by (simp add: word_less_nat_alt)
    with 2 True show ?thesis by (cases r) simp_all
  qed
qed

lemma scan_result_bound:
  "scan_result rows limit dur = Inr res \<Longrightarrow> length (qr_rows res) \<le> unat limit \<and> length (qr_null_masks res) = length (qr_rows res)"
  by (auto simp: scan_result_def empty_result_def split: sum.splits dest: scan_rows_bound)

text \<open>C9. No answer of the gateway has more rows than its configured limit, nor than the limit of the
  request unless that is zero, whatever the database sends; each row has its null mask.\<close>

theorem row_cap:
  assumes "workbench_query sd elapsed db query limit (w, d) = (Inr res, st')"
  shows "length (qr_rows res) \<le> unat (pc_max_row_limit (wk_cfg w))
    \<and> (limit \<noteq> 0 \<longrightarrow> length (qr_rows res) \<le> unat limit)
    \<and> length (qr_null_masks res) = length (qr_rows res)"
proof -
  let ?q = "trim_space query" and ?lim = "clamp_rows (wk_cfg w) limit"
  from assms obtain p w' d' where r: "run_query sd elapsed p ?q ?lim d = (Inr res, d')"
    by (auto simp: workbench_query_def Let_def split: if_splits option.splits sum.splits prod.splits)
  have "length (qr_rows res) \<le> unat ?lim \<and> length (qr_null_masks res) = length (qr_rows res)"
  proof (cases "is_selectish (to_lower ?q)")
    case True
    with r obtain rows where "scan_result rows ?lim elapsed = Inr res"
      by (auto simp: run_query_def split: sum.splits prod.splits)
    then show ?thesis by (rule scan_result_bound)
  next
    case False
    with r show ?thesis
      by (auto simp: run_query_def empty_result_def split: sum.splits prod.splits)
  qed
  moreover have "unat ?lim \<le> unat (pc_max_row_limit (wk_cfg w))" "limit \<noteq> 0 \<longrightarrow> unat ?lim \<le> unat limit"
    by (auto simp: clamp_rows_def word_less_nat_alt word_le_nat_alt)
  ultimately show ?thesis by linarith
qed

text \<open>A driver whose pools are their source names, with one text column of one letter in each of three rows.\<close>

definition demo_driver :: "(string, nat) sql_driver" where
  "demo_driver = \<lparr>sd_open = \<lambda>s. Inr s,
     sd_query = \<lambda>p q d. (Inr \<lparr>sr_types = Inr [\<lparr>ct_name = ''x'', ct_db_type = ''TEXT'', ct_nullable = True\<rparr>],
       sr_rows = replicate 3 (Inr [VBytes [97]])\<rparr>, Suc d),
     sd_exec = \<lambda>p q d. (Inr 1, Suc d)\<rparr>"

definition demo_pool_config :: pool_config where
  "demo_pool_config = \<lparr>pc_host = ''db'', pc_port = 3306, pc_admin_user = ''root'', pc_admin_password = ''pw'',
     pc_max_row_limit = 0, pc_connect_timeout = 0\<rparr>"

definition demo_database :: database where
  "demo_database = database_zero\<lparr>d_name := ''shop''\<rparr>"

lemmas demo_query_simps = workbench_query_def blocked_by_def dangerous_pragmas_def trim_space_def is_space_def
  run_query_def is_selectish_def to_lower_def lower_char_def code_def Let_def pool_for_def
  clamp_rows_def

lemma demo_query:
  "\<exists>w'. workbench_query demo_driver 0 demo_database ''select 1'' 2 (new_workbench demo_pool_config, 0)
    = (scan_result \<lparr>sr_types = Inr [\<lparr>ct_name = ''x'', ct_db_type = ''TEXT'', ct_nullable = True\<rparr>],
         sr_rows = replicate 3 (Inr [VBytes [97]])\<rparr> 2 0, w', 1)"
  by (simp add: demo_query_simps new_workbench_def demo_pool_config_def demo_driver_def)

definition demo_result :: query_result where
  "demo_result = \<lparr>qr_columns = [\<lparr>co_name = ''x'', co_type = ''TEXT'', co_nullable = True\<rparr>],
       qr_rows = [[sprint_bytes [97]], [sprint_bytes [97]]], qr_null_masks = [0, 0],
       qr_rows_affected = 0, qr_duration_ms = 0\<rparr>"

lemma demo_scan:
  "scan_result \<lparr>sr_types = Inr [\<lparr>ct_name = ''x'', ct_db_type = ''TEXT'', ct_nullable = True\<rparr>],
     sr_rows = replicate 3 (Inr [VBytes [97]])\<rparr> 2 0
   = Inr demo_result"
  by (simp add: scan_result_def empty_result_def milliseconds_def numeral_3_eq_3 null_mask_def demo_result_def)

theorem row_cap_witness:
  "length (qr_rows demo_result) \<le> unat (2 :: u32)"
proof -
  from demo_query obtain w' where "workbench_query demo_driver 0 demo_database ''select 1'' 2 (new_workbench demo_pool_config, 0)
    = (Inr demo_result, w', 1)" unfolding demo_scan by blast
  from row_cap [OF this, THEN conjunct2, THEN conjunct1, THEN mp] show ?thesis by simp
qed

section \<open>Cells\<close>

lemma nat_digits_nonempty: "nat_digits n \<noteq> []"
  by (subst nat_digits.simps) simp

lemma join_length: "xs \<noteq> [] \<Longrightarrow> \<forall>x\<in>set xs. x \<noteq> [] \<Longrightarrow> length (join '' '' xs) + 1 \<ge> 2 * length xs"
proof (induction "'' ''" xs rule: join.induct)
  case (3 p q ps)
  then have "length (join '' '' (q # ps)) + 1 \<ge> 2 * length (q # ps)" by simp
  moreover have "length p \<ge> 1" using 3 by (cases p) simp_all
  ultimately show ?case by simp
qed (auto simp: Suc_le_eq)

lemma sprint_not_text: "sprint_bytes bs \<noteq> string_of bs"
proof
  assume eq: "sprint_bytes bs = string_of bs"
  show False
  proof (cases "bs = []")
    case True
    with eq show ?thesis by (simp add: sprint_bytes_def string_of_def)
  next
    case False
    let ?xs = "map (\<lambda>b. nat_digits (unat b)) bs"
    have "length (join '' '' ?xs) + 1 \<ge> 2 * length ?xs"
      using False by (intro join_length) (auto simp: nat_digits_nonempty)
    moreover have "length (sprint_bytes bs) = length (join '' '' ?xs) + 2" by (simp add: sprint_bytes_def)
    moreover have "length (string_of bs) = length bs" by (simp add: string_of_def)
    ultimately show ?thesis using eq False by (cases bs) simp_all
  qed
qed

lemma scan_rows_cells:
  assumes "scan_rows limit rs out = Inr res"
  shows "\<exists>n vss. take n rs = map Inr vss \<and> qr_rows res = qr_rows out @ map (map cell) vss
    \<and> qr_null_masks res = qr_null_masks out @ map null_mask vss"
  using assms
proof (induction limit rs out rule: scan_rows.induct)
  case (1 limit out)
  then show ?case by (intro exI [of _ 0] exI [of _ "[]"]) simp
next
  case (2 limit r rs out)
  show ?case
  proof (cases "word_of_nat (length (qr_rows out)) < limit")
    case False
    with 2(2) show ?thesis by (intro exI [of _ 0] exI [of _ "[]"]) simp
  next
    case True
    with 2(2) obtain vs where r: "r = Inr vs" by (cases r) simp_all
    let ?out = "out\<lparr>qr_rows := qr_rows out @ [map cell vs], qr_null_masks := qr_null_masks out @ [null_mask vs]\<rparr>"
    from 2(1) [OF _ r] True 2(2) r obtain n vss where "take n rs = map Inr vss"
      "qr_rows res = qr_rows ?out @ map (map cell) vss" "qr_null_masks res = qr_null_masks ?out @ map null_mask vss"
      by auto
    with r show ?thesis by (intro exI [of _ "Suc n"] exI [of _ "vs # vss"]) simp
  qed
qed

text \<open>The rows of an answer are the first rows of the database, cell by cell, and no text comes out as
  it is: a text column, which the driver delivers as bytes, is printed as the list of its byte
  values, so its cell never equals the text stored.\<close>

theorem text_cells_garbled:
  assumes "scan_result rows limit dur = Inr res"
  shows "\<exists>n vss. take n (sr_rows rows) = map Inr vss \<and> qr_rows res = map (map cell) vss
    \<and> list_all (list_all (\<lambda>v. case v of VBytes bs \<Rightarrow> cell v \<noteq> string_of bs | _ \<Rightarrow> True)) vss"
proof -
  from assms obtain cols where "scan_rows limit (sr_rows rows) ((empty_result dur)\<lparr>qr_columns := cols\<rparr>) = Inr res"
    by (auto simp: scan_result_def split: sum.splits)
  from scan_rows_cells [OF this] obtain n vss where "take n (sr_rows rows) = map Inr vss" "qr_rows res = map (map cell) vss"
    by (auto simp: empty_result_def)
  moreover have "list_all (list_all (\<lambda>v. case v of VBytes bs \<Rightarrow> cell v \<noteq> string_of bs | _ \<Rightarrow> True)) vss"
    by (auto simp: list_all_iff sprint_not_text split: sql_value.split)
  ultimately show ?thesis by blast
qed

theorem text_cells_garbled_witness:
  "sprint_bytes [97] = ''[97]'' \<and> string_of [97] = ''a''
   \<and> (\<exists>n vss. take n (replicate 3 (Inr [VBytes [97]])) = map (Inr :: _ \<Rightarrow> sql_value list result) vss
        \<and> qr_rows demo_result = map (map cell) vss)"
proof -
  have "sprint_bytes [97] = ''[97]''" "string_of [97] = ''a''"
    by (simp_all add: sprint_bytes_def nat_digits.simps string_of_def char_of_eq_iff)
  moreover from text_cells_garbled [OF demo_scan]
  have "\<exists>n vss. take n (replicate 3 (Inr [VBytes [97]])) = map (Inr :: _ \<Rightarrow> sql_value list result) vss
        \<and> qr_rows demo_result = map (map cell) vss" by auto
  ultimately show ?thesis by simp
qed

section \<open>Null masks\<close>

lemma bit_fold_masks:
  "bit (fold (\<lambda>(i, v) m. if v = VNull then m OR push_bit i 1 else m) ivs m) j
    \<longleftrightarrow> bit m j \<or> (j < 64 \<and> (j, VNull) \<in> set ivs)" for m :: u64
proof (induction ivs arbitrary: m)
  case Nil
  then show ?case by simp
next
  case (Cons iv ivs)
  obtain i v where "iv = (i, v)" by fastforce
  with Cons show ?case by (auto simp: bit_simps)
qed

text \<open>The mask of a row tells which of its first 64 columns are NULL. Of a column behind them it
  tells nothing: there a NULL and an empty text give the same row and the same mask.\<close>

theorem null_mask_exact:
  "(bit (null_mask vs) j \<longleftrightarrow> j < 64 \<and> j < length vs \<and> vs ! j = VNull)
   \<and> map cell (vs[64 + k := VNull]) = map cell (vs[64 + k := VOther []])
   \<and> null_mask (vs[64 + k := VNull]) = null_mask (vs[64 + k := VOther []])"
proof (intro conjI)
  have bits: "bit (null_mask ws) i \<longleftrightarrow> i < 64 \<and> i < length ws \<and> ws ! i = VNull" for ws i
    by (auto simp: null_mask_def bit_fold_masks in_set_enumerate_eq)
  show "bit (null_mask vs) j \<longleftrightarrow> j < 64 \<and> j < length vs \<and> vs ! j = VNull" by (rule bits)
  show "map cell (vs[64 + k := VNull]) = map cell (vs[64 + k := VOther []])"
    by (simp add: map_update)
  show "null_mask (vs[64 + k := VNull]) = null_mask (vs[64 + k := VOther []])"
    by (rule bit_eqI) (auto simp: bits nth_list_update)
qed

section \<open>What the list of names forbids\<close>

text \<open>The list of forbidden names is no protection: it looks for \<open>mysql.user\<close> as a substring, so one
  query is refused while another that is, to the database, token for token the same is run as
  it stands on every pool the driver opens.\<close>

theorem blacklist_evaded:
  "sql_lex ''SELECT * FROM mysql . user'' = sql_lex ''SELECT * FROM mysql.user''
   \<and> workbench_query sd elapsed db ''SELECT * FROM mysql.user'' limit st
       = (Inl (Errorf ''queries against mysql.user are not allowed in workbench''), st)
   \<and> workbench_query sd elapsed db ''SELECT * FROM mysql . user'' limit (w, d)
       = (case pool_for sd db w of
            (Inl e, w') \<Rightarrow> (Inl e, w', d)
          | (Inr p, w') \<Rightarrow>
              (case run_query sd elapsed p ''SELECT * FROM mysql . user'' (clamp_rows (wk_cfg w) limit) d of
                 (r, d') \<Rightarrow> (r, w', d')))"
proof (intro conjI)
  show "sql_lex ''SELECT * FROM mysql . user'' = sql_lex ''SELECT * FROM mysql.user''"
    by (simp add: sql_lex_def lex_eval)
  have t: "trim_space ''SELECT * FROM mysql.user'' = ''SELECT * FROM mysql.user''"
    "trim_space ''SELECT * FROM mysql . user'' = ''SELECT * FROM mysql . user''"
    by (simp_all add: trim_space_def is_space_def code_def)
  have b: "blocked_by (to_lower ''SELECT * FROM mysql.user'') = Some ''mysql.user''"
    "blocked_by (to_lower ''SELECT * FROM mysql . user'') = None"
    by (simp_all add: blocked_by_def dangerous_pragmas_def to_lower_def lower_char_def code_def)
  show "workbench_query sd elapsed db ''SELECT * FROM mysql.user'' limit st
       = (Inl (Errorf ''queries against mysql.user are not allowed in workbench''), st)"
    by (cases st) (simp add: workbench_query_def Let_def t b)
  show "workbench_query sd elapsed db ''SELECT * FROM mysql . user'' limit (w, d)
       = (case pool_for sd db w of
            (Inl e, w') \<Rightarrow> (Inl e, w', d)
          | (Inr p, w') \<Rightarrow>
              (case run_query sd elapsed p ''SELECT * FROM mysql . user'' (clamp_rows (wk_cfg w) limit) d of
                 (r, d') \<Rightarrow> (r, w', d')))"
    by (simp add: workbench_query_def Let_def t b)
qed

section \<open>Describing a table\<close>

lemma ident_match_word: "ident_match s \<Longrightarrow> list_all word_char s \<and> s \<noteq> [] \<and> length s \<le> 64"
  by (auto simp: ident_match_def word_char_def is_letter_def Let_def list_all_iff split: list.splits)

text \<open>A table name that passes the pattern is one identifier of the statement.\<close>

theorem describe_tokens:
  assumes "ident_match table"
  shows "sql_lex (''DESCRIBE '' @ [tick] @ table @ [tick]) = [Word ''DESCRIBE'', Quoted table]"
proof -
  have "list_all word_char table" using ident_match_word [OF assms] by simp
  note l = lex_tick [OF this, unfolded tick_def]
  show ?thesis by (simp add: sql_lex_def lex_eval l)
qed

end
