(* ===== verification/Spec2Isabelle.thy ===== *)
theory Spec2Isabelle
  imports ApiSafety ApiServer Backup Daemon DockerLaws Grpc Haproxy Heartbeat Leaders Metrics ModLoader Panel Provisioner ProxyStream RateLimit Redis SftpServer Templates Updater WorkbenchLaws
begin

text \<open>
  A model of the AetherNet daemon (src/daemon, src/pkg), a cluster manager for game servers
  written in Go, and of what makes its parts correct.

  \<^bold>\<open>The program.\<close> Every node runs one daemon. The cluster's tables (nodes, servers, groups, templates,
  databases, tokens) are a state machine replicated by the raft library: services propose
  commands through \<open>Cluster.Apply\<close>, each daemon applies the committed entries in order, and reads
  its own copy. On the leader the scheduler watches heartbeats, places servers, fails them over
  and scales groups; a REST server with bearer tokens, an SFTP server, an RCON client, a docker
  controller and managers for iptables and HAProxy surround it.

  \<^bold>\<open>Conventions.\<close> A Go struct is a record, an enumeration a machine word with named constants (any
  value decodes), \<open>(T, error)\<close> a sum with the error on the left, \<open>error\<close> an option, a panic \<open>None\<close>.
  Prelude has the integers, errors and clock values, GoStrings, GoMap and GoPath the parts of the
  standard library the code uses (strings are byte strings; a \<open>range\<close> over a map takes its order
  from a permutation that is an argument, so every order is covered), Json the encoder and
  decoder, Sha256 the digest. Libraries, the operating system and the network are parameters:
  \<open>env\<close> in Cluster (raft's answers, clock, random bytes, leadership, and the entries other
  proposers commit before each call, so that every interleaving of services is covered), \<open>os_ops\<close>
  in HostFs, records of functions in the other parts. An operation of a service is a function of
  the environment and the world.

  \<^bold>\<open>The replicated state\<close> (pkg/types, raftfsm). ClusterTypes has the records, Codec their JSON form
  and \<open>Encode\<close>/\<open>Decode\<close>, RaftFsm \<open>Apply\<close>, the events, snapshots, accessors and \<open>FlushCache\<close>. RaftFsmProps
  proves the invariant of the tables, FsmContract what one entry does, FsmLog runs of the log,
  FsmLaws the theorems: totality, at-most-once, compaction, events. Tables are used through the
  interface \<open>keyed_store\<close> of GoMap, which Go maps provide.

  \<^bold>\<open>The cluster\<close> (cluster, pkg/quorum): Quorum, Cluster (\<open>Apply\<close>, members, the quorum guard), ClusterLaws.
  \<^bold>\<open>The services\<close>: Scheduler with SchedulerProps, SchedulerLaws and SchedulerTheorems (placement,
  failover, liveness, scaling), Heartbeat, Tasks (groups, templates, sign publisher).

  \<^bold>\<open>The API\<close> (api): Http has requests and the multiplexer, Auth the middleware and token endpoints,
  Rest rest.go, RestMore the port, mod and workbench endpoints and the route table; ApiLaws and
  ApiSafety prove who may do what and that every request is answered. ApiServer has the start and the
  shutdown of the server as a step relation over its three goroutines. ProxyStream has the event
  stream to the game proxies over the replicated state, with a simulation between what a proxy
  believes and what is so; Grpc the other services (joining, forwarding, commands).

  \<^bold>\<open>Databases and storage\<close> (database, snapshot, tasks/templates.go): Sql is a tokeniser of MySQL against
  which the statements of Provisioner are proved, Workbench and WorkbenchLaws the query gateway,
  Redis the lock, Backup the archive and the upload of a backup, Templates the directories of a
  server. HostFs and FileSwap say what is promised of a file system.

  \<^bold>\<open>The edges\<close>: Rcon (the RCON protocol), Docker and DockerLaws (containers, salvaging logs), Sftp (path
  resolution, file handlers, logins) and SftpServer (host key, connections), Iptables (the firewall
  chain, through the interface of a chain that its own semantics provides), RateLimit (blocked
  addresses as a state machine), Haproxy and Keepalived (configurations that are swapped and
  reloaded), Leaders (the channel of leader changes between raft and Keepalived), Metrics (the
  gauges), GoUrl, ModRepos, ModLoader and Updater (mod repositories and the scan for updates), Panel
  (the web panel). Config and Daemon put a daemon together from its settings, in the order of
  main.go, and compose it with the API.

  \<^bold>\<open>Bounds.\<close> Loops are structural or come with a measure; the key parser of the SFTP login, whose
  progress is a library's, is a partial function. Loops that last as long as the daemon (tickers,
  channels, streams) run over a list of what happens, of any length. No fuel is used.

  \<^bold>\<open>Not modelled\<close>: accept loops and tickers that only repeat a modelled step, signal handlers, the
  inside of the libraries (raft's log and elections, gRPC, docker, SQL drivers, the SFTP protocol),
  the HTTP server of the metrics exporter, the Kotlin plugins, the browser front end, the installer.
  PROJECT.json lists every part with its status.
\<close>

end
